theory Spec2Isabelle
  imports Complex_Main "HOL-Library.Word"
begin

section \<open>Data model\<close>

text \<open>
  The pipeline of \<^verbatim>\<open>pipeline/tasks.py\<close> is embedded as pure functions over an explicit
  world: the database tables the tasks read and write, the lock store (Django's
  database cache) and a trace of the externally visible effects (calls to the storage and
  transcoding backend, dispatched Celery tasks, writes of ProcessingState and VideoFormat
  rows). Exceptions are values: every function returns its result together with the
  world reached, so that writes made before a raise stay visible.

  A task is entered on a database connection that can execute queries. Whether it runs
  inside an atomic block of its caller (as under a test case) is part of the world; a
  database error inside such a block marks the transaction for rollback, and from then on
  every query on the connection raises TransactionManagementError.
\<close>

subsection \<open>Exceptions\<close>

text \<open>Values that occur in \<^verbatim>\<open>e.args\<close>: strings, and integers as the one non-string kind.\<close>

datatype pyval = PStr string | PInt int

text \<open>
  The exception classes that occur. \<open>OtherException\<close> is any other subclass of
  \<^verbatim>\<open>Exception\<close>, by name; KeyboardInterrupt and SystemExit derive from
  \<^verbatim>\<open>BaseException\<close> only.
\<close>

datatype exn_kind =
    VideoNotUploaded
  | TranscodingFailed
  | LockUnavailable
  | SubtitleInvalid
  | DoesNotExist
  | MultipleObjectsReturned
  | IntegrityError
  | TransactionManagementError
  | AttributeError
  | TypeError
  | UnicodeDecodeError
  | IndexError
  | OtherException string
  | KeyboardInterrupt
  | SystemExit

datatype exn = Exn (exn_kind: exn_kind) (exn_args: "pyval list")

text \<open>\<^verbatim>\<open>isinstance(e, Exception)\<close>: what an \<^verbatim>\<open>except Exception\<close> clause catches.\<close>

definition is_exception :: "exn \<Rightarrow> bool" where
  "is_exception e = (exn_kind e \<noteq> KeyboardInterrupt \<and> exn_kind e \<noteq> SystemExit)"

text \<open>
  An exception that leaves a function, together with the state in which it leaves the
  connection: \<open>True\<close> when the transaction has been marked for rollback.
\<close>

type_synonym failure = "exn \<times> bool"

definition transaction_management_error :: exn where
  "transaction_management_error =
     Exn TransactionManagementError [PStr ''An error occurred in the current transaction.'']"

subsection \<open>Rows (pipeline/models.py)\<close>

datatype status =
  STATUS_PENDING | STATUS_PROCESSING | STATUS_FAILED | STATUS_SUCCESS | STATUS_RESTART

text \<open>
  Rows are identified by the public id, which the schema declares unique; a ProcessingState
  row is stored under the public id of its video (the one-to-one relation). The float
  fields \<open>progress\<close> and \<open>bitrate\<close> are exact rationals here: rounding is not modelled.
\<close>

record processing_state =
  started_at :: nat
  progress :: rat
  status :: status
  message :: string

record video =
  title :: string
  public_id :: string
  owner :: nat

text \<open>
  The fields of class \<^verbatim>\<open>VideoUploadUrl\<close>, which declares neither
  \<^verbatim>\<open>last_checked\<close> nor \<^verbatim>\<open>filename\<close>.
\<close>

record video_upload_url =
  public_video_id :: string
  expires_at :: nat
  was_used :: bool
  url_owner :: nat
  playlist :: "nat option"
  origin :: "string option"

record video_format =
  format_video :: string
  format_name :: string
  bitrate :: rat

record subtitle =
  subtitle_video :: string
  subtitle_public_id :: string
  language :: string

text \<open>The field defaults of a ProcessingState row.\<close>

definition default_ps :: processing_state where
  "default_ps = \<lparr>started_at = 0, progress = 0, status = STATUS_PENDING, message = []\<rparr>"

subsection \<open>The backend and the trace of effects\<close>

type_synonym job = string

text \<open>Python text is a list of code points; bytes are 8-bit words.\<close>

type_synonym pystr = "nat list"

text \<open>What one call of \<^verbatim>\<open>check_progress(job)\<close> does: return a pair, or raise.\<close>

datatype progress_answer = Progress rat bool | Raises exn

datatype event =
    EvCheckVideo string
  | EvStartTranscoding string
  | EvCheckProgress nat job progress_answer
  | EvIterFormats string
  | EvDeleteVideo string
  | EvUploadSubtitle string string string pystr
  | EvSendTask string string
  | EvSavePS string processing_state
  | EvDeleteFormats string
  | EvCreateFormat video_format

text \<open>
  The backend is an external service reached through \<^verbatim>\<open>backend.get()\<close>. Its answer to
  a call may depend on everything that happened before, so each operation is a function of
  the trace so far. A raise is \<open>Some e\<close> (or \<open>Inl e\<close>); \<^verbatim>\<open>iter_formats\<close> is a generator:
  the items it yields, and the exception that ends the iteration early, if any; the bitrate
  of an item is a number or \<^verbatim>\<open>None\<close>.
  \<open>EvCheckProgress\<close> records the job index next to the handle.
\<close>

record backend =
  be_check_video :: "event list \<Rightarrow> string \<Rightarrow> exn option"
  be_start_transcoding :: "event list \<Rightarrow> string \<Rightarrow> exn + job list"
  be_check_progress :: "event list \<Rightarrow> job \<Rightarrow> progress_answer"
  be_iter_formats :: "event list \<Rightarrow> string \<Rightarrow> (string \<times> rat option) list \<times> exn option"
  be_delete_video :: "event list \<Rightarrow> string \<Rightarrow> exn option"
  be_upload_subtitle :: "event list \<Rightarrow> string \<Rightarrow> string \<Rightarrow> string \<Rightarrow> pystr \<Rightarrow> exn option"

record world =
  upload_urls :: "video_upload_url list"
  videos :: "video list"
  pstates :: "string \<rightharpoonup> processing_state"
  formats :: "video_format list"
  playlist_videos :: "(nat \<times> string) list"
  subtitles :: "subtitle list"
  cache :: "string \<rightharpoonup> nat option"
  in_atomic_block :: bool
  trace :: "event list"

definition emit :: "event \<Rightarrow> world \<Rightarrow> world" where
  "emit ev w = w\<lparr>trace := trace w @ [ev]\<rparr>"

section \<open>Python and Django primitives\<close>

fun join :: "string \<Rightarrow> string list \<Rightarrow> string" where
  "join sep [] = []"
| "join sep [x] = x"
| "join sep (x # y # xs) = x @ sep @ join sep (y # xs)"

fun strs_of :: "pyval list \<Rightarrow> string list option" where
  "strs_of [] = Some []"
| "strs_of (PStr s # vs) = map_option (Cons s) (strs_of vs)"
| "strs_of (PInt i # vs) = None"

text \<open>\<^verbatim>\<open>sep.join(xs)\<close> raises TypeError unless every item is a string.\<close>

definition py_join :: "string \<Rightarrow> pyval list \<Rightarrow> exn + string" where
  "py_join sep vs =
     (case strs_of vs of
        None \<Rightarrow> Inl (Exn TypeError [PStr ''sequence item: expected str instance''])
      | Some ss \<Rightarrow> Inr (join sep ss))"

definition newline :: string where
  "newline = [CHR 0x0A]"

text \<open>\<^verbatim>\<open>Manager.get\<close>: exactly one matching row, or an exception.\<close>

definition get_row :: "('a \<Rightarrow> bool) \<Rightarrow> 'a list \<Rightarrow> exn + 'a" where
  "get_row P rows =
     (case filter P rows of
        [] \<Rightarrow> Inl (Exn DoesNotExist [PStr ''matching query does not exist''])
      | [r] \<Rightarrow> Inr r
      | _ # _ # _ \<Rightarrow> Inl (Exn MultipleObjectsReturned [PStr ''get() returned more than one'']))"

text \<open>
  \<^verbatim>\<open>cache.add(key, True, timeout)\<close> of the database cache: set if absent or expired. An
  entry holds its expiry time, \<open>None\<close> for an entry that never expires (timeout None).
\<close>

definition cache_add ::
  "nat \<Rightarrow> string \<Rightarrow> nat option \<Rightarrow> (string \<rightharpoonup> nat option) \<Rightarrow> bool \<times> (string \<rightharpoonup> nat option)" where
  "cache_add tc key timeout c =
     (let expires = map_option (\<lambda>d. tc + d) timeout in
      case c key of
        None \<Rightarrow> (True, c(key \<mapsto> expires))
      | Some None \<Rightarrow> (False, c)
      | Some (Some e) \<Rightarrow> if e < tc then (True, c(key \<mapsto> expires)) else (False, c))"

section \<open>Lock manager (tasks.py, lines 20-41)\<close>

definition acquire_lock :: "nat \<Rightarrow> string \<Rightarrow> nat option \<Rightarrow> world \<Rightarrow> (exn + bool) \<times> world" where
  "acquire_lock tc name expires_in w =
     (case cache_add tc name expires_in (cache w) of
        (True, c) \<Rightarrow> (Inr True, w\<lparr>cache := c\<rparr>)
      | (False, c) \<Rightarrow> (Inl (Exn LockUnavailable [PStr name]), w\<lparr>cache := c\<rparr>))"

text \<open>
  \<^verbatim>\<open>release_lock\<close>. \<^verbatim>\<open>cache.delete\<close> is a query on the connection of the task:
  when the transaction is marked for rollback (\<open>needs_rollback\<close>) it raises
  TransactionManagementError, which is caught and logged, and the entry stays.
\<close>

definition release_lock :: "bool \<Rightarrow> string \<Rightarrow> world \<Rightarrow> world" where
  "release_lock needs_rollback name w =
     (if needs_rollback then w else w\<lparr>cache := (cache w)(name := None)\<rparr>)"

section \<open>Transcoding driver (tasks.py, lines 146-212, 237-239)\<close>

text \<open>\<^verbatim>\<open>processing_state.save()\<close>: the row is written, and the write is recorded.\<close>

definition save_ps :: "string \<Rightarrow> processing_state \<Rightarrow> world \<Rightarrow> world" where
  "save_ps pid ps w = emit (EvSavePS pid ps) (w\<lparr>pstates := (pstates w)(pid \<mapsto> ps)\<rparr>)"

text \<open>\<^verbatim>\<open>delete_video\<close>: the backend deletes the assets; no table is touched.\<close>

definition delete_video :: "backend \<Rightarrow> string \<Rightarrow> world \<Rightarrow> (exn + unit) \<times> world" where
  "delete_video be pid w =
     (case be_delete_video be (trace w) pid of
        Some e \<Rightarrow> (Inl e, emit (EvDeleteVideo pid) w)
      | None \<Rightarrow> (Inr (), emit (EvDeleteVideo pid) w))"

text \<open>The local variables of the poll loop.\<close>

record poll_state =
  success_job_indexes :: "nat list"
  error_job_indexes :: "nat list"
  errors :: "pyval list"
  jobs_progress :: "rat list"

definition init_poll_state :: "job list \<Rightarrow> poll_state" where
  "init_poll_state jobs =
     \<lparr>success_job_indexes = [], error_job_indexes = [], errors = [],
      jobs_progress = replicate (length jobs) 0\<rparr>"

text \<open>
  One pass of the \<^verbatim>\<open>for job_index, job in enumerate(jobs)\<close> loop (lines 183-192). A
  TranscodingFailed is caught and recorded; any other exception leaves the function.
\<close>

fun poll_pass ::
  "backend \<Rightarrow> (nat \<times> job) list \<Rightarrow> poll_state \<Rightarrow> world \<Rightarrow> (exn + poll_state) \<times> world" where
  "poll_pass be [] ls w = (Inr ls, w)"
| "poll_pass be ((job_index, job) # rest) ls w =
     (if job_index \<notin> set (success_job_indexes ls) \<and> job_index \<notin> set (error_job_indexes ls) then
        (let ans = be_check_progress be (trace w) job;
             w' = emit (EvCheckProgress job_index job ans) w
         in case ans of
              Progress p finished \<Rightarrow>
                poll_pass be rest
                  (ls\<lparr>jobs_progress := (jobs_progress ls)[job_index := p],
                      success_job_indexes :=
                        (if finished then success_job_indexes ls @ [job_index]
                         else success_job_indexes ls)\<rparr>) w'
            | Raises e \<Rightarrow>
                if exn_kind e = TranscodingFailed then
                  poll_pass be rest
                    (ls\<lparr>error_job_indexes := error_job_indexes ls @ [job_index],
                        errors := errors ls @
                          [case exn_args e of [] \<Rightarrow> PStr [] | a # _ \<Rightarrow> a]\<rparr>) w'
                else (Inl e, w'))
      else poll_pass be rest ls w)"

text \<open>
  The \<^verbatim>\<open>while\<close> loop (lines 182-196). It may run forever, so it takes fuel, one unit
  per pass; \<open>None\<close> is a loop still polling when the fuel is spent, returned with the
  world reached so far.
\<close>

fun poll_loop ::
  "nat \<Rightarrow> backend \<Rightarrow> string \<Rightarrow> job list \<Rightarrow> processing_state \<Rightarrow> poll_state \<Rightarrow> world
     \<Rightarrow> (exn + processing_state \<times> poll_state) option \<times> world" where
  "poll_loop 0 be pid jobs ps ls w =
     (if length (success_job_indexes ls) + length (error_job_indexes ls) < length jobs
      then (None, w)
      else (Some (Inr (ps, ls)), w))"
| "poll_loop (Suc fuel) be pid jobs ps ls w =
     (if length (success_job_indexes ls) + length (error_job_indexes ls) < length jobs then
        (case poll_pass be (enumerate 0 jobs) ls w of
           (Inl e, w1) \<Rightarrow> (Some (Inl e), w1)
         | (Inr ls1, w1) \<Rightarrow>
             (let ps1 = ps\<lparr>progress := sum_list (jobs_progress ls1) / of_nat (length jobs),
                            status := STATUS_PROCESSING\<rparr>
              in poll_loop fuel be pid jobs ps1 ls1 (save_ps pid ps1 w1)))
      else (Some (Inr (ps, ls)), w))"

text \<open>
  \<^verbatim>\<open>VideoFormat.objects.create(video=video, name=format_name, bitrate=bitrate)\<close>. The
  column \<^verbatim>\<open>bitrate\<close> is declared without \<^verbatim>\<open>null=True\<close>: the database refuses a
  \<^verbatim>\<open>None\<close> with IntegrityError, and inside an atomic block the failed insert marks
  the transaction for rollback.
\<close>

definition format_row :: "string \<Rightarrow> string \<times> rat \<Rightarrow> video_format" where
  "format_row pid item = \<lparr>format_video = pid, format_name = fst item, bitrate = snd item\<rparr>"

definition create_format ::
  "string \<Rightarrow> string \<times> rat option \<Rightarrow> world \<Rightarrow> (failure + unit) \<times> world" where
  "create_format pid item w =
     (case snd item of
        None \<Rightarrow>
          (Inl (Exn IntegrityError [PStr ''NOT NULL constraint failed: pipeline_videoformat.bitrate''],
                in_atomic_block w), w)
      | Some b \<Rightarrow>
          (Inr (), emit (EvCreateFormat (format_row pid (fst item, b)))
                     (w\<lparr>formats := formats w @ [format_row pid (fst item, b)]\<rparr>)))"

text \<open>The \<^verbatim>\<open>for\<close> loop of lines 208-209 over the items the generator yields.\<close>

fun create_formats ::
  "string \<Rightarrow> (string \<times> rat option) list \<Rightarrow> world \<Rightarrow> (failure + unit) \<times> world" where
  "create_formats pid [] w = (Inr (), w)"
| "create_formats pid (item # rest) w =
     (case create_format pid item w of
        (Inl f, w1) \<Rightarrow> (Inl f, w1)
      | (Inr u, w1) \<Rightarrow> create_formats pid rest w1)"

definition delete_formats :: "string \<Rightarrow> world \<Rightarrow> world" where
  "delete_formats pid w =
     emit (EvDeleteFormats pid) (w\<lparr>formats := filter (\<lambda>f. format_video f \<noteq> pid) (formats w)\<rparr>)"

text \<open>
  Lines 198-212: the resolution of an attempt whose jobs have all resolved. Only a refused
  insert can mark the transaction; every other exception leaves the connection as it was.
\<close>

definition resolve ::
  "backend \<Rightarrow> string \<Rightarrow> processing_state \<Rightarrow> pyval list \<Rightarrow> world \<Rightarrow> (failure + unit) \<times> world" where
  "resolve be pid ps errs w =
     (case py_join newline errs of
        Inl e \<Rightarrow> (Inl (e, False), w)
      | Inr msg \<Rightarrow>
          (let ps1 = ps\<lparr>message := msg\<rparr>;
               w1 = delete_formats pid w
           in if errs \<noteq> [] then
                (let ps2 = ps1\<lparr>status := STATUS_FAILED\<rparr>
                 in case delete_video be pid (save_ps pid ps2 w1) of
                      (Inl e, w2) \<Rightarrow> (Inl (e, False), w2)
                    | (Inr u, w2) \<Rightarrow> (Inr (), w2))
              else
                (let fs = be_iter_formats be (trace w1) pid
                 in case create_formats pid (fst fs) (emit (EvIterFormats pid) w1) of
                      (Inl f, w2) \<Rightarrow> (Inl f, w2)
                    | (Inr u, w2) \<Rightarrow>
                        (case snd fs of
                           Some e \<Rightarrow> (Inl (e, False), w2)
                         | None \<Rightarrow> (Inr (), save_ps pid (ps1\<lparr>status := STATUS_SUCCESS\<rparr>) w2)))))"

text \<open>
  \<^verbatim>\<open>_transcode_video\<close>; \<open>t\<close> is the time read by \<^verbatim>\<open>now()\<close>, which stands still
  during the attempt. The video and its processing state are fetched once and kept in
  memory.
\<close>

definition p_transcode_video ::
  "backend \<Rightarrow> nat \<Rightarrow> nat \<Rightarrow> string \<Rightarrow> world \<Rightarrow> (failure + unit) option \<times> world" where
  "p_transcode_video be fuel t pid w =
     (case get_row (\<lambda>v. public_id v = pid) (videos w) of
        Inl e \<Rightarrow> (Some (Inl (e, False)), w)
      | Inr v \<Rightarrow>
          (case pstates w pid of
             None \<Rightarrow>
               (Some (Inl (Exn DoesNotExist [PStr ''Video has no processing_state.''], False)), w)
           | Some ps0 \<Rightarrow>
               (let ps1 = ps0\<lparr>progress := 0, status := STATUS_PENDING, started_at := t\<rparr>;
                    w1 = save_ps pid ps1 w;
                    w2 = emit (EvStartTranscoding pid) w1
                in case be_start_transcoding be (trace w1) pid of
                     Inl e \<Rightarrow> (Some (Inl (e, False)), w2)
                   | Inr jobs \<Rightarrow>
                       (case poll_loop fuel be pid jobs ps1 (init_poll_state jobs) w2 of
                          (None, w3) \<Rightarrow> (None, w3)
                        | (Some (Inl e), w3) \<Rightarrow> (Some (Inl (e, False)), w3)
                        | (Some (Inr (ps2, ls)), w3) \<Rightarrow>
                            (case resolve be pid ps2 (errors ls) w3 of
                               (r, w4) \<Rightarrow> (Some r, w4))))))"

text \<open>
  The \<^verbatim>\<open>filter(video__public_id=...).update(status=failed, message=...)\<close> of the
  exception handler: the row of the video with this public id, if there is one. It is a
  query: on a transaction marked for rollback it raises TransactionManagementError.
\<close>

definition update_failed :: "bool \<Rightarrow> string \<Rightarrow> string \<Rightarrow> world \<Rightarrow> (exn + unit) \<times> world" where
  "update_failed needs_rollback pid msg w =
     (if needs_rollback then (Inl transaction_management_error, w)
      else
        (case pstates w pid of
           None \<Rightarrow> (Inr (), w)
         | Some ps \<Rightarrow>
             if \<exists>v \<in> set (videos w). public_id v = pid
             then (Inr (), save_ps pid (ps\<lparr>status := STATUS_FAILED, message := msg\<rparr>) w)
             else (Inr (), w)))"

text \<open>
  \<^verbatim>\<open>transcode_video\<close>; \<open>tc\<close> is the time at which the cache is asked for the lock.
  The handler catches instances of \<^verbatim>\<open>Exception\<close> only. An exception raised inside
  the handler, by the \<^verbatim>\<open>join\<close> or by the \<^verbatim>\<open>update\<close>, replaces the one
  handled. The \<^verbatim>\<open>finally\<close> clause runs on every exit of the \<^verbatim>\<open>try\<close>.
\<close>

definition transcode_video ::
  "backend \<Rightarrow> nat \<Rightarrow> nat \<Rightarrow> nat \<Rightarrow> string \<Rightarrow> world \<Rightarrow> (exn + unit) option \<times> world" where
  "transcode_video be fuel tc t pid w =
     (let lock = ''TRANSCODE_VIDEO:'' @ pid in
      case acquire_lock tc lock None w of
        (Inl e, w1) \<Rightarrow> (Some (Inr ()), w1)
      | (Inr b, w1) \<Rightarrow>
          (case p_transcode_video be fuel t pid w1 of
             (None, w2) \<Rightarrow> (None, w2)
           | (Some (Inr u), w2) \<Rightarrow> (Some (Inr ()), release_lock False lock w2)
           | (Some (Inl (e, needs_rollback)), w2) \<Rightarrow>
               if is_exception e then
                 (case py_join newline (exn_args e) of
                    Inl e' \<Rightarrow> (Some (Inl e'), release_lock needs_rollback lock w2)
                  | Inr msg \<Rightarrow>
                      (case update_failed needs_rollback pid msg w2 of
                         (Inl e', w3) \<Rightarrow> (Some (Inl e'), release_lock needs_rollback lock w3)
                       | (Inr u, w3) \<Rightarrow> (Some (Inl e), release_lock needs_rollback lock w3)))
               else (Some (Inl e), release_lock needs_rollback lock w2)))"

section \<open>Upload monitor (tasks.py, lines 115-144)\<close>

text \<open>\<^verbatim>\<open>save()\<close> of a row read before: the row with its public id is overwritten.\<close>

definition save_upload_url :: "video_upload_url \<Rightarrow> world \<Rightarrow> world" where
  "save_upload_url u w =
     w\<lparr>upload_urls :=
          map (\<lambda>r. if public_video_id r = public_video_id u then u else r) (upload_urls w)\<rparr>"

definition save_video :: "video \<Rightarrow> world \<Rightarrow> world" where
  "save_video v w =
     w\<lparr>videos := map (\<lambda>r. if public_id r = public_id v then v else r) (videos w)\<rparr>"

text \<open>
  \<^verbatim>\<open>Video.objects.get_or_create(public_id=..., owner=...)\<close>: the row matching both
  fields if there is one; otherwise a row is created, unless the unique constraint on
  \<open>public_id\<close> refuses it. The post-save signal of \<^verbatim>\<open>models.py\<close>
  (\<^verbatim>\<open>create_video_processing_state\<close>) gives a created video its ProcessingState.
\<close>

definition get_or_create_video ::
  "nat \<Rightarrow> string \<Rightarrow> nat \<Rightarrow> world \<Rightarrow> (exn + video \<times> bool) \<times> world" where
  "get_or_create_video t pid own w =
     (case get_row (\<lambda>v. public_id v = pid \<and> owner v = own) (videos w) of
        Inr v \<Rightarrow> (Inr (v, False), w)
      | Inl e \<Rightarrow>
          if exn_kind e = DoesNotExist then
            (if \<exists>v \<in> set (videos w). public_id v = pid
             then (Inl (Exn IntegrityError [PStr ''UNIQUE constraint failed: public_id'']), w)
             else (let v = \<lparr>title = [], public_id = pid, owner = own\<rparr>
                   in (Inr (v, True),
                       save_ps pid (default_ps\<lparr>started_at := t\<rparr>) (w\<lparr>videos := videos w @ [v]\<rparr>))))
          else (Inl e, w))"

text \<open>\<^verbatim>\<open>video.playlists.add(playlist)\<close>: adding twice is adding once.\<close>

definition add_to_playlist :: "nat \<Rightarrow> string \<Rightarrow> world \<Rightarrow> world" where
  "add_to_playlist pl pid w = w\<lparr>playlist_videos := List.insert (pl, pid) (playlist_videos w)\<rparr>"

text \<open>\<^verbatim>\<open>send_task\<close> outside eager mode: the task is handed to the broker.\<close>

definition send_task :: "string \<Rightarrow> string \<Rightarrow> world \<Rightarrow> world" where
  "send_task name arg w = emit (EvSendTask name arg) w"

text \<open>
  Reading an attribute of a VideoUploadUrl instance that is neither a field of the class
  nor set on the instance raises AttributeError. An assignment to such an attribute
  succeeds, and \<^verbatim>\<open>save()\<close> does not write it.
\<close>

definition read_last_checked :: "video_upload_url \<Rightarrow> exn + nat option" where
  "read_last_checked u =
     Inl (Exn AttributeError [PStr ''VideoUploadUrl object has no attribute last_checked''])"

definition read_filename :: "video_upload_url \<Rightarrow> exn + string" where
  "read_filename u =
     Inl (Exn AttributeError [PStr ''VideoUploadUrl object has no attribute filename''])"

text \<open>
  \<^verbatim>\<open>_monitor_upload\<close>; \<open>t\<close> is the time read by \<^verbatim>\<open>now()\<close>. The \<^verbatim>\<open>finally\<close>
  block runs on all three exits of the \<^verbatim>\<open>try\<close>. Its first statement evaluates
  \<^verbatim>\<open>upload_url.last_checked is None\<close> before anything else; an exception raised there
  replaces the pending return or exception, and \<^verbatim>\<open>save()\<close> is not reached.
\<close>

definition p_monitor_upload :: "backend \<Rightarrow> nat \<Rightarrow> string \<Rightarrow> world \<Rightarrow> (exn + unit) \<times> world" where
  "p_monitor_upload be t pid w =
     (case get_row (\<lambda>u. public_video_id u = pid) (upload_urls w) of
        Inl e \<Rightarrow> (Inl e, w)
      | Inr upload_url \<Rightarrow>
          (let ans = be_check_video be (trace w) (public_video_id upload_url);
               w1 = emit (EvCheckVideo (public_video_id upload_url)) w;
               u1 = (case ans of None \<Rightarrow> upload_url\<lparr>was_used := True\<rparr> | Some e \<Rightarrow> upload_url)
           in case read_last_checked u1 of
                Inl e \<Rightarrow> (Inl e, w1)
              | Inr lc \<Rightarrow>
                  (let w2 = save_upload_url u1 w1
                   in case ans of
                        Some e \<Rightarrow>
                          if exn_kind e = VideoNotUploaded then (Inr (), w2) else (Inl e, w2)
                      | None \<Rightarrow>
                          (case get_or_create_video t (public_video_id u1) (url_owner u1) w2 of
                             (Inl e, w3) \<Rightarrow> (Inl e, w3)
                           | (Inr (v, video_created), w3) \<Rightarrow>
                               (case read_filename u1 of
                                  Inl e \<Rightarrow> (Inl e, w3)
                                | Inr name \<Rightarrow>
                                    (let v1 = v\<lparr>title := name\<rparr>;
                                         w4 = save_video v1 w3;
                                         w5 = (case playlist u1 of
                                                 None \<Rightarrow> w4
                                               | Some pl \<Rightarrow> add_to_playlist pl (public_id v1) w4)
                                     in if video_created
                                        then (Inr (), send_task ''transcode_video''
                                                        (public_video_id u1) w5)
                                        else (Inr (), w5)))))))"

section \<open>Subtitle ingestor (tasks.py, lines 214-235; views.py, lines 271-314)\<close>

text \<open>
  \<^verbatim>\<open>bytes.decode('utf-8')\<close>, strict: no overlong form, no surrogate, nothing above
  U+10FFFF; \<open>None\<close> is UnicodeDecodeError.
\<close>

definition cont :: "nat \<Rightarrow> bool" where
  "cont b = (0x80 \<le> b \<and> b \<le> 0xBF)"

fun utf8_decode_nat :: "nat list \<Rightarrow> pystr option" where
  "utf8_decode_nat [] = Some []"
| "utf8_decode_nat (b0 # bs) =
     (if b0 < 0x80 then map_option (Cons b0) (utf8_decode_nat bs)
      else if 0xC2 \<le> b0 \<and> b0 \<le> 0xDF then
        (case bs of
           b1 # r \<Rightarrow>
             if cont b1
             then map_option (Cons ((b0 - 0xC0) * 64 + (b1 - 0x80))) (utf8_decode_nat r)
             else None
         | [] \<Rightarrow> None)
      else if 0xE0 \<le> b0 \<and> b0 \<le> 0xEF then
        (case bs of
           b1 # b2 # r \<Rightarrow>
             (let cp = (b0 - 0xE0) * 4096 + (b1 - 0x80) * 64 + (b2 - 0x80)
              in if cont b1 \<and> cont b2 \<and> 0x800 \<le> cp \<and> \<not> (0xD800 \<le> cp \<and> cp \<le> 0xDFFF)
                 then map_option (Cons cp) (utf8_decode_nat r)
                 else None)
         | _ \<Rightarrow> None)
      else if 0xF0 \<le> b0 \<and> b0 \<le> 0xF4 then
        (case bs of
           b1 # b2 # b3 # r \<Rightarrow>
             (let cp = (b0 - 0xF0) * 262144 + (b1 - 0x80) * 4096 + (b2 - 0x80) * 64 + (b3 - 0x80)
              in if cont b1 \<and> cont b2 \<and> cont b3 \<and> 0x10000 \<le> cp \<and> cp \<le> 0x10FFFF
                 then map_option (Cons cp) (utf8_decode_nat r)
                 else None)
         | _ \<Rightarrow> None)
      else None)"

definition utf8_decode :: "8 word list \<Rightarrow> pystr option" where
  "utf8_decode content = utf8_decode_nat (map unat content)"

text \<open>\<^verbatim>\<open>str.strip(chars)\<close>: leading and trailing characters of \<open>chars\<close> are removed.\<close>

definition py_strip :: "nat list \<Rightarrow> pystr \<Rightarrow> pystr" where
  "py_strip chars s =
     rev (dropWhile (\<lambda>c. c \<in> set chars) (rev (dropWhile (\<lambda>c. c \<in> set chars) s)))"

text \<open>The argument of the \<^verbatim>\<open>strip\<close> call of line 228: U+FEFF, line feed, carriage return.\<close>

definition strip_chars :: "nat list" where
  "strip_chars = [0xFEFF, 0x0A, 0x0D]"

text \<open>
  The pycaption library: the reader classes \<^verbatim>\<open>detect_format\<close> chooses from, the
  detection itself, which returns a reader class or \<^verbatim>\<open>None\<close> or raises (as it does
  on the empty text), and \<^verbatim>\<open>WebVTTWriter().write(reader().read(content))\<close>, which
  may raise.
\<close>

datatype reader = DFXPReader | WebVTTReader | SAMIReader | SRTReader | SCCReader

record pycaption =
  detect_format :: "pystr \<Rightarrow> exn + reader option"
  write_webvtt :: "reader \<Rightarrow> pystr \<Rightarrow> exn + pystr"

definition upload_subtitle ::
  "pycaption \<Rightarrow> backend \<Rightarrow> string \<Rightarrow> string \<Rightarrow> string \<Rightarrow> 8 word list \<Rightarrow> world
     \<Rightarrow> (exn + unit) \<times> world" where
  "upload_subtitle pc be pid sid lang content w =
     (case utf8_decode content of
        None \<Rightarrow> (Inl (Exn UnicodeDecodeError [PStr ''utf-8'']), w)
      | Some c0 \<Rightarrow>
          (let c1 = py_strip strip_chars c0 in
           case detect_format pc c1 of
             Inl e \<Rightarrow> (Inl e, w)
           | Inr None \<Rightarrow>
               (Inl (Exn SubtitleInvalid [PStr ''Could not detect subtitle format'']), w)
           | Inr (Some sub_reader) \<Rightarrow>
               (case (if sub_reader \<noteq> WebVTTReader then write_webvtt pc sub_reader c1
                      else Inr c1) of
                  Inl e \<Rightarrow> (Inl e, w)
                | Inr c2 \<Rightarrow>
                    (case be_upload_subtitle be (trace w) pid sid lang c2 of
                       Some e \<Rightarrow> (Inl e, emit (EvUploadSubtitle pid sid lang c2) w)
                     | None \<Rightarrow> (Inr (), emit (EvUploadSubtitle pid sid lang c2) w)))))"

text \<open>
  Leaving \<^verbatim>\<open>transaction.atomic()\<close> by an exception: the tables (the cache table
  among them) are as they were on entry; calls already made to the backend stay made.
\<close>

definition rollback :: "world \<Rightarrow> world \<Rightarrow> world" where
  "rollback w0 w = w0\<lparr>trace := trace w\<rparr>"

datatype response = HTTP_201_CREATED | HTTP_400_BAD_REQUEST string pyval

text \<open>
  \<^verbatim>\<open>VideoViewSet.subtitles\<close> from line 282 on, for a video that was found and a
  request whose serializer is valid: \<open>attachment\<close> is the uploaded file if any, \<open>sid\<close>
  the public id drawn for the new Subtitle row.
\<close>

definition subtitles_view ::
  "pycaption \<Rightarrow> backend \<Rightarrow> nat \<Rightarrow> string \<Rightarrow> string \<Rightarrow> string \<Rightarrow> 8 word list option \<Rightarrow> world
     \<Rightarrow> (exn + response) \<times> world" where
  "subtitles_view pc be max_bytes pid sid lang attachment w =
     (case attachment of
        None \<Rightarrow> (Inr (HTTP_400_BAD_REQUEST ''file'' (PStr ''Missing file'')), w)
      | Some content \<Rightarrow>
          if length content > max_bytes
          then (Inr (HTTP_400_BAD_REQUEST ''file'' (PStr ''File too large'')), w)
          else
            (let row = \<lparr>subtitle_video = pid, subtitle_public_id = sid, language = lang\<rparr>;
                 w1 = w\<lparr>subtitles := subtitles w @ [row]\<rparr>
             in case upload_subtitle pc be pid sid lang content w1 of
                  (Inr u, w2) \<Rightarrow> (Inr HTTP_201_CREATED, w2)
                | (Inl e, w2) \<Rightarrow>
                    if exn_kind e = SubtitleInvalid then
                      (case exn_args e of
                         [] \<Rightarrow> (Inl (Exn IndexError [PStr ''tuple index out of range'']), rollback w w2)
                       | a # _ \<Rightarrow> (Inr (HTTP_400_BAD_REQUEST ''file'' a), rollback w w2))
                    else (Inl e, rollback w w2)))"

text \<open>
  The normalization in the words of the specification, to compare with \<open>py_strip\<close>: a
  byte-order mark at the start is removed, then the newline characters around the text.
\<close>

definition strip_leading_bom_and_newlines :: "pystr \<Rightarrow> pystr" where
  "strip_leading_bom_and_newlines s =
     py_strip [0x0A, 0x0D] (case s of [] \<Rightarrow> [] | c # r \<Rightarrow> if c = 0xFEFF then r else c # r)"

section \<open>Reading the trace\<close>

text \<open>The ProcessingState rows written, in order: the persisted snapshots.\<close>

fun snapshots :: "event list \<Rightarrow> processing_state list" where
  "snapshots [] = []"
| "snapshots (EvSavePS pid ps # tr) = ps # snapshots tr"
| "snapshots (ev # tr) = snapshots tr"

text \<open>The public ids whose assets the backend was asked to delete.\<close>

fun deletions :: "event list \<Rightarrow> string list" where
  "deletions [] = []"
| "deletions (EvDeleteVideo pid # tr) = pid # deletions tr"
| "deletions (ev # tr) = deletions tr"

text \<open>
  The failure messages of the jobs: for every \<^verbatim>\<open>check_progress\<close> call that raised
  TranscodingFailed, the first argument of the exception (the empty string if it has none).
\<close>

fun failure_messages :: "event list \<Rightarrow> pyval list" where
  "failure_messages [] = []"
| "failure_messages (EvCheckProgress i j (Raises e) # tr) =
     (if exn_kind e = TranscodingFailed
      then (case exn_args e of [] \<Rightarrow> PStr [] | a # _ \<Rightarrow> a) # failure_messages tr
      else failure_messages tr)"
| "failure_messages (ev # tr) = failure_messages tr"

text \<open>The tasks handed to the broker, as (name, argument).\<close>

fun sent_tasks :: "event list \<Rightarrow> (string \<times> string) list" where
  "sent_tasks [] = []"
| "sent_tasks (EvSendTask name arg # tr) = (name, arg) # sent_tasks tr"
| "sent_tasks (ev # tr) = sent_tasks tr"

text \<open>
  The latest known progress of the job with index \<open>i\<close> after the calls of a trace:
  the value of the last \<^verbatim>\<open>check_progress\<close> call for that job that returned, and \<open>v\<close>
  if there was none.
\<close>

fun observed :: "rat \<Rightarrow> event list \<Rightarrow> nat \<Rightarrow> rat" where
  "observed v [] i = v"
| "observed v (EvCheckProgress i' j (Progress p f) # tr) i =
     observed (if i' = i then p else v) tr i"
| "observed v (ev # tr) i = observed v tr i"

text \<open>
  The progress values returned for the job with index \<open>i\<close>, in order, and the mean over
  \<open>n\<close> jobs of their latest known values.
\<close>

fun job_reports :: "nat \<Rightarrow> event list \<Rightarrow> rat list" where
  "job_reports i [] = []"
| "job_reports i (EvCheckProgress i' j (Progress p f) # tr) =
     (if i' = i then p # job_reports i tr else job_reports i tr)"
| "job_reports i (ev # tr) = job_reports i tr"

definition mean_observed :: "nat \<Rightarrow> event list \<Rightarrow> rat" where
  "mean_observed n pre = sum_list (map (observed 0 pre) [0..<n]) / of_nat n"

text \<open>
  The job indexes of the \<^verbatim>\<open>check_progress\<close> calls of a trace, in order, and whether
  the job with index \<open>i\<close> has resolved in it: a call for it returned
  \<^verbatim>\<open>finished\<close>, or raised TranscodingFailed.
\<close>

fun checked :: "event list \<Rightarrow> nat list" where
  "checked [] = []"
| "checked (EvCheckProgress i j a # tr) = i # checked tr"
| "checked (ev # tr) = checked tr"

fun resolved :: "event list \<Rightarrow> nat \<Rightarrow> bool" where
  "resolved [] i = False"
| "resolved (EvCheckProgress i' j (Progress p f) # tr) i = ((i' = i \<and> f) \<or> resolved tr i)"
| "resolved (EvCheckProgress i' j (Raises e) # tr) i =
     ((i' = i \<and> exn_kind e = TranscodingFailed) \<or> resolved tr i)"
| "resolved (ev # tr) i = resolved tr i"

text \<open>
  A lock is held at time \<open>tc\<close> when the cache has an entry under its name that has not
  expired: the condition under which \<open>cache_add\<close> refuses.
\<close>

definition lock_held :: "nat \<Rightarrow> string \<Rightarrow> world \<Rightarrow> bool" where
  "lock_held tc name w =
     (case cache w name of None \<Rightarrow> False | Some None \<Rightarrow> True | Some (Some e) \<Rightarrow> \<not> e < tc)"

section \<open>Example worlds and backends\<close>

definition empty_world :: world where
  "empty_world =
     \<lparr>upload_urls = [], videos = [], pstates = Map.empty, formats = [], playlist_videos = [],
      subtitles = [], cache = Map.empty, in_atomic_block = False, trace = []\<rparr>"

text \<open>A backend on which every call succeeds at once: one job, finished at 100.\<close>

definition quiet_backend :: backend where
  "quiet_backend =
     \<lparr>be_check_video = (\<lambda>tr pid. None),
      be_start_transcoding = (\<lambda>tr pid. Inr [''job'']),
      be_check_progress = (\<lambda>tr j. Progress 100 True),
      be_iter_formats = (\<lambda>tr pid. ([(''HD'', Some 5400), (''SD'', Some 900)], None)),
      be_delete_video = (\<lambda>tr pid. None),
      be_upload_subtitle = (\<lambda>tr pid sid lang content. None)\<rparr>"

text \<open>One video \<^verbatim>\<open>abc\<close> with its processing state and a stale format row.\<close>

definition world_abc :: world where
  "world_abc =
     empty_world\<lparr>videos := [\<lparr>title = ''movie.mp4'', public_id = ''abc'', owner = 1\<rparr>],
                 pstates := [''abc'' \<mapsto> default_ps],
                 formats := [\<lparr>format_video = ''abc'', format_name = ''old'', bitrate = 1\<rparr>]\<rparr>"


text \<open>The same world when the task runs inside an atomic block.\<close>

definition world_abc_atomic :: world where
  "world_abc_atomic = world_abc\<lparr>in_atomic_block := True\<rparr>"

text \<open>An unused upload url \<^verbatim>\<open>abc\<close> for the playlist 4 of user 1.\<close>

definition url_abc :: video_upload_url where
  "url_abc =
     \<lparr>public_video_id = ''abc'', expires_at = 1000, was_used = False, url_owner = 1,
      playlist = Some 4, origin = None\<rparr>"

definition world_url :: world where
  "world_url = empty_world\<lparr>upload_urls := [url_abc]\<rparr>"

definition not_uploaded_backend :: backend where
  "not_uploaded_backend =
     quiet_backend\<lparr>be_check_video := (\<lambda>tr pid. Some (Exn VideoNotUploaded []))\<rparr>"

text \<open>
  A stand-in for pycaption. Detection raises IndexError on the empty text; text that
  starts with \<^verbatim>\<open>WEBVTT\<close> is WebVTT; text whose first line is \<^verbatim>\<open>1\<close> is SRT; no
  format is detected in any other text. The one SRT file it converts is \<open>srt_example\<close>,
  a cue with the text \<^verbatim>\<open>hi\<close>; \<open>srt_without_text\<close> is the same cue without its
  text, whose conversion raises CaptionReadNoCaptions.
\<close>

definition webvtt_header :: pystr where
  "webvtt_header = [0x57, 0x45, 0x42, 0x56, 0x54, 0x54]"

definition srt_example :: pystr where
  "srt_example =
     map of_char ''1'' @ [0x0A] @ map of_char ''00:00:01,000 --> 00:00:02,000'' @ [0x0A]
       @ map of_char ''hi''"

definition srt_example_as_webvtt :: pystr where
  "srt_example_as_webvtt =
     webvtt_header @ [0x0A, 0x0A] @ map of_char ''00:01.000 --> 00:02.000'' @ [0x0A]
       @ map of_char ''hi'' @ [0x0A]"

definition srt_without_text :: pystr where
  "srt_without_text =
     map of_char ''1'' @ [0x0A] @ map of_char ''00:00:01,000 --> 00:00:02,000''"

definition simple_pycaption :: pycaption where
  "simple_pycaption =
     \<lparr>detect_format = (\<lambda>s.
        if s = [] then Inl (Exn IndexError [PStr ''list index out of range''])
        else if take 6 s = webvtt_header then Inr (Some WebVTTReader)
        else if take 2 s = [0x31, 0x0A] then Inr (Some SRTReader)
        else Inr None),
      write_webvtt = (\<lambda>r s.
        if s = srt_example then Inr srt_example_as_webvtt
        else Inl (Exn (OtherException ''CaptionReadNoCaptions'') [PStr ''empty caption file'']))\<rparr>"

text \<open>The payloads of the examples: the UTF-8 encoding of a text without non-ASCII characters.\<close>

definition ascii_bytes :: "pystr \<Rightarrow> 8 word list" where
  "ascii_bytes s = map of_nat s"

text \<open>
  Three jobs: the first finishes at 100, the second fails with
  \<^verbatim>\<open>TranscodingFailed("codec error")\<close>, the third with
  \<^verbatim>\<open>TranscodingFailed("disk full")\<close>.
\<close>

definition failing_backend :: backend where
  "failing_backend =
     quiet_backend\<lparr>be_start_transcoding := (\<lambda>tr pid. Inr [''j1'', ''j2'', ''j3'']),
                   be_check_progress := (\<lambda>tr j.
                      if j = ''j2'' then Raises (Exn TranscodingFailed [PStr ''codec error''])
                      else if j = ''j3'' then Raises (Exn TranscodingFailed [PStr ''disk full''])
                      else Progress 100 True)\<rparr>"

text \<open>
  Backends whose \<^verbatim>\<open>start_transcoding\<close> raises: an exception with two string
  arguments, one built like \<^verbatim>\<open>OSError(2, "No such file or directory")\<close>, and a
  KeyboardInterrupt.
\<close>

definition crashing_backend :: backend where
  "crashing_backend =
     quiet_backend\<lparr>be_start_transcoding :=
        (\<lambda>tr pid. Inl (Exn (OtherException ''BackendError'') [PStr ''boom'', PStr ''bang'']))\<rparr>"

definition oserror_backend :: backend where
  "oserror_backend =
     quiet_backend\<lparr>be_start_transcoding :=
        (\<lambda>tr pid. Inl (Exn (OtherException ''OSError'') [PInt 2, PStr ''No such file or directory'']))\<rparr>"

definition interrupted_backend :: backend where
  "interrupted_backend =
     quiet_backend\<lparr>be_start_transcoding := (\<lambda>tr pid. Inl (Exn KeyboardInterrupt []))\<rparr>"

text \<open>A backend that lists a format without bitrate.\<close>

definition null_bitrate_backend :: backend where
  "null_bitrate_backend =
     quiet_backend\<lparr>be_iter_formats := (\<lambda>tr pid. ([(''HD'', None)], None))\<rparr>"

text \<open>The bytes of \<^verbatim>\<open>WEBVTT\<close> followed by a byte-order mark.\<close>

definition bom_at_end :: "8 word list" where
  "bom_at_end = [0x57, 0x45, 0x42, 0x56, 0x54, 0x54, 0xEF, 0xBB, 0xBF]"

text \<open>
  A backend that reports its one job finished at 80, and one with two jobs: the first
  finishes at once, the second is at 50 when first asked and finished at 100 after that.
\<close>

definition early_finish_backend :: backend where
  "early_finish_backend = quiet_backend\<lparr>be_check_progress := (\<lambda>tr j. Progress 80 True)\<rparr>"

definition two_pass_backend :: backend where
  "two_pass_backend =
     quiet_backend\<lparr>be_start_transcoding := (\<lambda>tr pid. Inr [''a'', ''b'']),
                   be_check_progress := (\<lambda>tr j.
                      if j = ''a'' then Progress 100 True
                      else if observed 0 tr 1 = 0 then Progress 50 False
                      else Progress 100 True)\<rparr>"

text \<open>A backend whose one job reports 50, then 30, then finishes at 100.\<close>

definition dipping_backend :: backend where
  "dipping_backend =
     quiet_backend\<lparr>be_check_progress := (\<lambda>tr j.
        if job_reports 0 tr = [] then Progress 50 False
        else if job_reports 0 tr = [50] then Progress 30 False
        else Progress 100 True)\<rparr>"

section \<open>Frame lemmas\<close>

lemma emit_frame [simp]:
  "cache (emit ev w) = cache w" "videos (emit ev w) = videos w" "pstates (emit ev w) = pstates w"
  "formats (emit ev w) = formats w" "upload_urls (emit ev w) = upload_urls w"
  "in_atomic_block (emit ev w) = in_atomic_block w"
  "trace (emit ev w) = trace w @ [ev]"
  by (simp_all add: emit_def)

lemma save_ps_frame [simp]:
  "cache (save_ps pid ps w) = cache w" "videos (save_ps pid ps w) = videos w"
  "formats (save_ps pid ps w) = formats w"
  "in_atomic_block (save_ps pid ps w) = in_atomic_block w"
  "pstates (save_ps pid ps w) = (pstates w)(pid \<mapsto> ps)"
  "trace (save_ps pid ps w) = trace w @ [EvSavePS pid ps]"
  by (simp_all add: save_ps_def)

lemma poll_pass_frame:
  "poll_pass be js ls w = (r, w') \<Longrightarrow>
   cache w' = cache w \<and> videos w' = videos w \<and> pstates w' = pstates w \<and> formats w' = formats w"
  by (induction be js ls w rule: poll_pass.induct)
     (auto simp: Let_def split: progress_answer.splits if_splits)

lemma poll_loop_frame:
  "poll_loop fuel be pid jobs ps ls w = (r, w') \<Longrightarrow>
   cache w' = cache w \<and> videos w' = videos w \<and> formats w' = formats w"
  by (induction fuel arbitrary: ps ls w)
     (auto simp: Let_def split: if_splits prod.splits sum.splits dest!: poll_pass_frame)

lemma create_format_frame:
  "create_format pid it w = (r, w') \<Longrightarrow>
   cache w' = cache w \<and> videos w' = videos w \<and> pstates w' = pstates w"
  by (auto simp: create_format_def split: option.splits)

lemma create_formats_frame:
  "create_formats pid its w = (r, w') \<Longrightarrow>
   cache w' = cache w \<and> videos w' = videos w \<and> pstates w' = pstates w"
proof (induction its arbitrary: w)
  case Nil
  then show ?case by simp
next
  case (Cons it its)
  obtain r1 w1 where c: "create_format pid it w = (r1, w1)" by fastforce
  note f = create_format_frame[OF c]
  show ?case
  proof (cases r1)
    case (Inl a)
    with Cons.prems c f show ?thesis by simp
  next
    case (Inr b)
    with Cons.prems c have "create_formats pid its w1 = (r, w')" by simp
    from Cons.IH[OF this] f show ?thesis by simp
  qed
qed

lemma delete_formats_frame [simp]:
  "cache (delete_formats pid w) = cache w" "videos (delete_formats pid w) = videos w"
  "pstates (delete_formats pid w) = pstates w"
  "in_atomic_block (delete_formats pid w) = in_atomic_block w"
  by (simp_all add: delete_formats_def)

lemma delete_video_frame:
  "delete_video be pid w = (r, w') \<Longrightarrow>
   cache w' = cache w \<and> videos w' = videos w \<and> pstates w' = pstates w \<and> formats w' = formats w"
  by (auto simp: delete_video_def split: option.splits)

lemma resolve_frame:
  "resolve be pid ps errs w = (r, w') \<Longrightarrow> cache w' = cache w \<and> videos w' = videos w"
  by (auto simp: resolve_def Let_def split: sum.splits option.splits if_splits prod.splits
      dest!: delete_video_frame create_formats_frame)

lemma p_transcode_video_frame:
  "p_transcode_video be fuel t pid w = (r, w') \<Longrightarrow> cache w' = cache w \<and> videos w' = videos w"
  unfolding p_transcode_video_def Let_def
  by (auto split: sum.splits option.splits prod.splits dest!: poll_loop_frame resolve_frame)

section \<open>The events of a transcoding attempt\<close>

lemma snapshots_append [simp]: "snapshots (a @ b) = snapshots a @ snapshots b"
  by (induction a rule: snapshots.induct) simp_all

lemma deletions_append [simp]: "deletions (a @ b) = deletions a @ deletions b"
  by (induction a rule: deletions.induct) simp_all

lemma failure_messages_append [simp]:
  "failure_messages (a @ b) = failure_messages a @ failure_messages b"
  by (induction a rule: failure_messages.induct) simp_all

lemma observed_append [simp]: "observed v (a @ b) i = observed (observed v a i) b i"
  by (induction v a i rule: observed.induct) simp_all

text \<open>
  One pass only calls \<^verbatim>\<open>check_progress\<close>: it persists nothing and deletes nothing; it
  collects the failure messages, and leaves in \<open>jobs_progress\<close> the latest known values.
\<close>

lemma poll_pass_events:
  "poll_pass be js ls w = (r, w') \<Longrightarrow>
   \<exists>new. trace w' = trace w @ new \<and> snapshots new = [] \<and> deletions new = [] \<and>
     (\<forall>ls'. r = Inr ls' \<longrightarrow>
        errors ls' = errors ls @ failure_messages new \<and>
        length (jobs_progress ls') = length (jobs_progress ls) \<and>
        (\<forall>i < length (jobs_progress ls).
           jobs_progress ls' ! i = observed (jobs_progress ls ! i) new i))"
proof (induction js arbitrary: ls w)
  case Nil
  then show ?case by auto
next
  case (Cons a js)
  obtain job_index job where a: "a = (job_index, job)" by (cases a)
  show ?case
  proof (cases "job_index \<notin> set (success_job_indexes ls) \<and> job_index \<notin> set (error_job_indexes ls)")
    case False
    then have "poll_pass be js ls w = (r, w')" using Cons.prems a by auto
    from Cons.IH[OF this] show ?thesis .
  next
    case True
    define ans where "ans = be_check_progress be (trace w) job"
    define w1 where "w1 = emit (EvCheckProgress job_index job ans) w"
    show ?thesis
    proof (cases ans)
      case (Progress p finished)
      define ls1 where "ls1 = ls\<lparr>jobs_progress := (jobs_progress ls)[job_index := p],
                      success_job_indexes :=
                        (if finished then success_job_indexes ls @ [job_index]
                         else success_job_indexes ls)\<rparr>"
      have "poll_pass be js ls1 w1 = (r, w')"
        using Cons.prems a True Progress by (simp add: Let_def ans_def[symmetric] w1_def ls1_def)
      from Cons.IH[OF this] obtain new where n: "trace w' = trace w1 @ new"
        "snapshots new = []" "deletions new = []"
        "\<forall>ls'. r = Inr ls' \<longrightarrow>
        errors ls' = errors ls1 @ failure_messages new \<and>
        length (jobs_progress ls') = length (jobs_progress ls1) \<and>
        (\<forall>i < length (jobs_progress ls1).
           jobs_progress ls' ! i = observed (jobs_progress ls1 ! i) new i)" by blast
      from n Progress show ?thesis
        by (intro exI[of _ "EvCheckProgress job_index job ans # new"])
           (auto simp: w1_def ls1_def emit_def nth_list_update)
    next
      case (Raises e)
      show ?thesis
      proof (cases "exn_kind e = TranscodingFailed")
        case False
        then have "r = Inl e" "w' = w1"
          using Cons.prems a True Raises by (simp_all add: Let_def ans_def[symmetric] w1_def)
        with Raises False show ?thesis
          by (intro exI[of _ "[EvCheckProgress job_index job ans]"]) (auto simp: w1_def emit_def)
      next
        case tf: True
        define ls1 where "ls1 = ls\<lparr>error_job_indexes := error_job_indexes ls @ [job_index],
                        errors := errors ls @
                          [case exn_args e of [] \<Rightarrow> PStr [] | a # _ \<Rightarrow> a]\<rparr>"
        have "poll_pass be js ls1 w1 = (r, w')"
          using Cons.prems a True Raises tf by (simp add: Let_def ans_def[symmetric] w1_def ls1_def)
        from Cons.IH[OF this] obtain new where n: "trace w' = trace w1 @ new"
          "snapshots new = []" "deletions new = []"
          "\<forall>ls'. r = Inr ls' \<longrightarrow>
          errors ls' = errors ls1 @ failure_messages new \<and>
          length (jobs_progress ls') = length (jobs_progress ls1) \<and>
          (\<forall>i < length (jobs_progress ls1).
             jobs_progress ls' ! i = observed (jobs_progress ls1 ! i) new i)" by blast
        from n Raises tf show ?thesis
          by (intro exI[of _ "EvCheckProgress job_index job ans # new"])
             (auto simp: w1_def ls1_def emit_def)
      qed
    qed
  qed
qed

text \<open>Every snapshot the loop persists has status processing; the loop deletes nothing.\<close>

lemma poll_loop_events:
  "poll_loop fuel be pid jobs ps ls w = (r, w') \<Longrightarrow>
   \<exists>new. trace w' = trace w @ new \<and> deletions new = [] \<and>
     (\<forall>s \<in> set (snapshots new). status s = STATUS_PROCESSING) \<and>
     (\<forall>ps' ls'. r = Some (Inr (ps', ls')) \<longrightarrow> errors ls' = errors ls @ failure_messages new)"
proof (induction fuel arbitrary: ps ls w)
  case 0
  then show ?case by (auto split: if_splits)
next
  case (Suc fuel)
  show ?case
  proof (cases "length (success_job_indexes ls) + length (error_job_indexes ls) < length jobs")
    case False
    then show ?thesis using Suc.prems by auto
  next
    case True
    obtain r1 w1 where pp: "poll_pass be (enumerate 0 jobs) ls w = (r1, w1)" by fastforce
    from poll_pass_events[OF pp] obtain new1 where n1: "trace w1 = trace w @ new1"
      "snapshots new1 = []" "deletions new1 = []"
      "\<forall>ls'. r1 = Inr ls' \<longrightarrow> errors ls' = errors ls @ failure_messages new1" by blast
    show ?thesis
    proof (cases r1)
      case (Inl e)
      then have "r = Some (Inl e)" "w' = w1" using Suc.prems True pp by simp_all
      then show ?thesis using n1 by auto
    next
      case (Inr ls1)
      define ps1 where "ps1 = ps\<lparr>progress := sum_list (jobs_progress ls1) / of_nat (length jobs),
                            status := STATUS_PROCESSING\<rparr>"
      have "poll_loop fuel be pid jobs ps1 ls1 (save_ps pid ps1 w1) = (r, w')"
        using Suc.prems True pp Inr by (simp add: Let_def ps1_def)
      from Suc.IH[OF this] obtain new2 where n2:
        "trace w' = trace (save_ps pid ps1 w1) @ new2" "deletions new2 = []"
        "\<forall>s \<in> set (snapshots new2). status s = STATUS_PROCESSING"
        "\<forall>ps' ls'. r = Some (Inr (ps', ls')) \<longrightarrow> errors ls' = errors ls1 @ failure_messages new2"
        by blast
      have "trace w' = trace w @ (new1 @ EvSavePS pid ps1 # new2)"
        using n1 n2 by (simp add: save_ps_def emit_def)
      moreover have "deletions (new1 @ EvSavePS pid ps1 # new2) = []" using n1 n2 by simp
      moreover have "\<forall>s \<in> set (snapshots (new1 @ EvSavePS pid ps1 # new2)). status s = STATUS_PROCESSING"
        using n1 n2 by (simp add: ps1_def)
      moreover have "\<forall>ps' ls'. r = Some (Inr (ps', ls')) \<longrightarrow>
          errors ls' = errors ls @ failure_messages (new1 @ EvSavePS pid ps1 # new2)"
        using n1 n2 Inr by simp
      ultimately show ?thesis by blast
    qed
  qed
qed

text \<open>
  The loop over the formats writes one row per item, in order, as long as the items have a
  bitrate; the first item without one ends it with IntegrityError.
\<close>

lemma create_formats_events:
  assumes "create_formats pid items w = (r, w')"
  shows "\<exists>its. trace w' = trace w @ map (\<lambda>it. EvCreateFormat (format_row pid it)) its \<and>
           formats w' = formats w @ map (format_row pid) its \<and>
           (\<forall>u. r = Inr u \<longrightarrow> items = map (\<lambda>it. (fst it, Some (snd it))) its) \<and>
           (\<forall>e m. r = Inl (e, m) \<longrightarrow> m = in_atomic_block w \<and> exn_kind e = IntegrityError)"
  using assms
proof (induction items arbitrary: w)
  case Nil
  then show ?case by (intro exI[of _ "[]"]) auto
next
  case (Cons item items)
  show ?case
  proof (cases "snd item")
    case None
    with Cons.prems have a: "r = Inl (Exn IntegrityError
        [PStr ''NOT NULL constraint failed: pipeline_videoformat.bitrate''], in_atomic_block w)"
      and b: "w' = w"
      by (auto simp: create_format_def)
    show ?thesis unfolding a b by (intro exI[of _ "[]"]) simp
  next
    case (Some b)
    define w1 where "w1 = emit (EvCreateFormat (format_row pid (fst item, b)))
                     (w\<lparr>formats := formats w @ [format_row pid (fst item, b)]\<rparr>)"
    from Cons.prems Some have "create_formats pid items w1 = (r, w')"
      by (simp add: create_format_def w1_def)
    from Cons.IH[OF this] obtain its where its:
      "trace w' = trace w1 @ map (\<lambda>it. EvCreateFormat (format_row pid it)) its"
      "formats w' = formats w1 @ map (format_row pid) its"
      "\<forall>u. r = Inr u \<longrightarrow> items = map (\<lambda>it. (fst it, Some (snd it))) its"
      "\<forall>e m. r = Inl (e, m) \<longrightarrow> m = in_atomic_block w1 \<and> exn_kind e = IntegrityError"
      by blast
    have "item = (fst item, Some b)" using Some by (simp add: prod_eq_iff)
    with its show ?thesis
      by (intro exI[of _ "(fst item, b) # its"]) (auto simp: w1_def emit_def)
  qed
qed

lemma strs_of_Some: "strs_of vs = Some ss \<longleftrightarrow> vs = map PStr ss"
proof (induction vs arbitrary: ss)
  case Nil
  then show ?case by auto
next
  case (Cons v vs)
  show ?case
  proof (cases v)
    case (PStr s)
    with Cons show ?thesis by (cases ss) auto
  next
    case (PInt i)
    then show ?thesis by (cases ss) auto
  qed
qed

text \<open>
  The newline-join written out: every string followed by a line feed, without the last
  line feed.
\<close>

lemma join_as_concat:
  "join newline ss = butlast (concat (map (\<lambda>s. s @ [CHR 0x0A]) ss))"
proof (induction newline ss rule: join.induct)
  case 1
  then show ?case by simp
next
  case (2 x)
  then show ?case by simp
next
  case (3 x y xs)
  have ne: "concat (map (\<lambda>s. s @ [CHR 0x0A]) (y # xs)) \<noteq> []" by simp
  have "join newline (x # y # xs) = x @ [CHR 0x0A] @ join newline (y # xs)"
    by (simp add: newline_def)
  also have "\<dots> = x @ [CHR 0x0A] @ butlast (concat (map (\<lambda>s. s @ [CHR 0x0A]) (y # xs)))"
    using 3 by simp
  also have "\<dots> = butlast ((x @ [CHR 0x0A]) @ concat (map (\<lambda>s. s @ [CHR 0x0A]) (y # xs)))"
    using ne by (simp add: butlast_append)
  finally show ?case by simp
qed

text \<open>A resolution that returns normally took one of the two branches to its end.\<close>

lemma resolve_returns:
  assumes "resolve be pid ps errs w = (Inr u, w')"
  shows "\<exists>ss. strs_of errs = Some ss \<and>
     (if errs \<noteq> [] then
        w' = emit (EvDeleteVideo pid)
               (save_ps pid (ps\<lparr>message := join newline ss, status := STATUS_FAILED\<rparr>)
                  (delete_formats pid w))
      else
        (\<exists>its.
           be_iter_formats be (trace w @ [EvDeleteFormats pid]) pid
             = (map (\<lambda>it. (fst it, Some (snd it))) its, None) \<and>
           trace w' = trace w @ [EvDeleteFormats pid, EvIterFormats pid]
             @ map (\<lambda>it. EvCreateFormat (format_row pid it)) its
             @ [EvSavePS pid (ps\<lparr>message := join newline ss, status := STATUS_SUCCESS\<rparr>)] \<and>
           formats w' = filter (\<lambda>f. format_video f \<noteq> pid) (formats w) @ map (format_row pid) its \<and>
           pstates w' = (pstates w)(pid \<mapsto> ps\<lparr>message := join newline ss, status := STATUS_SUCCESS\<rparr>)))"
proof -
  from assms obtain ss where ss: "py_join newline errs = Inr (join newline ss)"
    "strs_of errs = Some ss"
    by (auto simp: resolve_def py_join_def split: option.splits sum.splits)
  show ?thesis
  proof (cases "errs = []")
    case False
    with assms ss have "w' = emit (EvDeleteVideo pid)
               (save_ps pid (ps\<lparr>message := join newline ss, status := STATUS_FAILED\<rparr>)
                  (delete_formats pid w))"
      by (auto simp: resolve_def Let_def delete_video_def split: option.splits prod.splits)
    with ss False show ?thesis by auto
  next
    case True
    define w1 where "w1 = emit (EvIterFormats pid) (delete_formats pid w)"
    define fs where "fs = be_iter_formats be (trace w @ [EvDeleteFormats pid]) pid"
    obtain r2 w2 where c: "create_formats pid (fst fs) w1 = (r2, w2)" by fastforce
    have tr: "trace (delete_formats pid w) = trace w @ [EvDeleteFormats pid]"
      by (simp add: delete_formats_def)
    from assms ss True c have r2: "r2 = Inr ()" and e: "snd fs = None" and
      w': "w' = save_ps pid (ps\<lparr>message := join newline ss, status := STATUS_SUCCESS\<rparr>) w2"
      by (auto simp: resolve_def Let_def tr fs_def[symmetric] w1_def[symmetric]
          split: option.splits prod.splits sum.splits)
    from create_formats_events[OF c] r2 obtain its where its:
      "trace w2 = trace w1 @ map (\<lambda>it. EvCreateFormat (format_row pid it)) its"
      "formats w2 = formats w1 @ map (format_row pid) its"
      "fst fs = map (\<lambda>it. (fst it, Some (snd it))) its"
      by blast
    have p2: "pstates w2 = pstates w"
      using create_formats_frame[OF c] by (simp add: w1_def)
    have "be_iter_formats be (trace w @ [EvDeleteFormats pid]) pid
             = (map (\<lambda>it. (fst it, Some (snd it))) its, None)"
      using its(3) e by (simp add: fs_def prod_eq_iff)
    moreover have "trace w' = trace w @ [EvDeleteFormats pid, EvIterFormats pid]
             @ map (\<lambda>it. EvCreateFormat (format_row pid it)) its
             @ [EvSavePS pid (ps\<lparr>message := join newline ss, status := STATUS_SUCCESS\<rparr>)]"
      by (simp add: w' its(1) w1_def tr)
    moreover have "formats w' = filter (\<lambda>f. format_video f \<noteq> pid) (formats w) @ map (format_row pid) its"
      by (simp add: w' its(2) w1_def delete_formats_def emit_def)
    moreover have "pstates w' = (pstates w)(pid \<mapsto> ps\<lparr>message := join newline ss, status := STATUS_SUCCESS\<rparr>)"
      by (simp add: w' p2)
    ultimately show ?thesis using ss True by auto
  qed
qed

text \<open>
  A run of the state machine that returns normally found the video, polled until every
  job had resolved, and then resolved the attempt on the failure messages collected.
\<close>

lemma p_transcode_video_returns:
  assumes "p_transcode_video be fuel t pid w = (Some (Inr u), w')"
  shows "\<exists>v ps2 w3 pre.
     trace w3 = trace w @ pre \<and> deletions pre = [] \<and>
     (\<forall>s \<in> set (snapshots pre). status s = STATUS_PENDING \<or> status s = STATUS_PROCESSING) \<and>
     formats w3 = formats w \<and> videos w3 = videos w \<and>
     get_row (\<lambda>v. public_id v = pid) (videos w) = Inr v \<and>
     resolve be pid ps2 (failure_messages pre) w3 = (Inr u, w')"
proof -
  from assms obtain v ps0 jobs ps2 ls w3 where
    v: "get_row (\<lambda>v. public_id v = pid) (videos w) = Inr v" and
    ps0: "pstates w pid = Some ps0" and
    pl: "poll_loop fuel be pid jobs (ps0\<lparr>progress := 0, status := STATUS_PENDING, started_at := t\<rparr>)
           (init_poll_state jobs)
           (emit (EvStartTranscoding pid)
              (save_ps pid (ps0\<lparr>progress := 0, status := STATUS_PENDING, started_at := t\<rparr>) w))
         = (Some (Inr (ps2, ls)), w3)" and
    res: "resolve be pid ps2 (errors ls) w3 = (Inr u, w')"
    unfolding p_transcode_video_def Let_def
    by (auto split: sum.splits option.splits prod.splits)
  define ps1 where "ps1 = ps0\<lparr>progress := 0, status := STATUS_PENDING, started_at := t\<rparr>"
  from poll_loop_events[OF pl] obtain new where n:
    "trace w3 = trace w @ EvSavePS pid ps1 # EvStartTranscoding pid # new"
    "deletions new = []" "\<forall>s \<in> set (snapshots new). status s = STATUS_PROCESSING"
    "errors ls = errors (init_poll_state jobs) @ failure_messages new"
    by (auto simp: ps1_def)
  have fr: "formats w3 = formats w" "videos w3 = videos w"
    using poll_loop_frame[OF pl] by simp_all
  have "deletions (EvSavePS pid ps1 # EvStartTranscoding pid # new) = []" using n by simp
  moreover have "\<forall>s \<in> set (snapshots (EvSavePS pid ps1 # EvStartTranscoding pid # new)).
      status s = STATUS_PENDING \<or> status s = STATUS_PROCESSING"
    using n by (simp add: ps1_def)
  moreover have "errors ls = failure_messages (EvSavePS pid ps1 # EvStartTranscoding pid # new)"
    using n by (simp add: init_poll_state_def)
  ultimately show ?thesis
    apply (intro exI[of _ v])
    apply (rule exI[of _ ps2], rule exI[of _ w3])
    apply (rule exI[of _ "EvSavePS pid ps1 # EvStartTranscoding pid # new"])
    using n(1) fr res v by simp
qed

lemma failure_messages_formats [simp]:
  "failure_messages (map (\<lambda>it. EvCreateFormat (f it)) items) = []"
  by (induction items) simp_all

lemma deletions_formats [simp]:
  "deletions (map (\<lambda>it. EvCreateFormat (f it)) items) = []"
  by (induction items) simp_all

lemma update_failed_frame:
  "update_failed m pid msg w = (r, w') \<Longrightarrow>
   videos w' = videos w \<and> cache w' = cache w \<and> formats w' = formats w \<and>
   (\<exists>new. trace w' = trace w @ new \<and> deletions new = [])"
  by (auto simp: update_failed_def split: option.splits if_splits)

lemma release_lock_frame [simp]:
  "videos (release_lock m name w) = videos w" "pstates (release_lock m name w) = pstates w"
  "formats (release_lock m name w) = formats w" "trace (release_lock m name w) = trace w"
  by (simp_all add: release_lock_def)

lemma acquire_lock_frame:
  "acquire_lock tc name ex w = (r, w') \<Longrightarrow>
   videos w' = videos w \<and> pstates w' = pstates w \<and> formats w' = formats w \<and> trace w' = trace w"
  by (auto simp: acquire_lock_def split: prod.splits bool.splits)

lemma acquire_free:
  assumes "\<not> lock_held tc name w"
  shows "acquire_lock tc name None w = (Inr True, w\<lparr>cache := (cache w)(name \<mapsto> None)\<rparr>)"
  using assms by (auto simp: lock_held_def acquire_lock_def cache_add_def split: option.splits)


text \<open>The Video table is the same after \<open>transcode_video\<close>, whatever the outcome.\<close>

lemma transcode_video_frame:
  "videos (snd (transcode_video be fuel tc t pid w)) = videos w"
proof -
  obtain r1 w1 where a: "acquire_lock tc (''TRANSCODE_VIDEO:'' @ pid) None w = (r1, w1)" by fastforce
  then have v1: "videos w1 = videos w" using acquire_lock_frame by blast
  obtain r2 w2 where p: "p_transcode_video be fuel t pid w1 = (r2, w2)" by fastforce
  then have v2: "videos w2 = videos w1" using p_transcode_video_frame by blast
  show ?thesis using a p v1 v2
    by (auto simp: transcode_video_def Let_def split: sum.splits option.splits prod.splits
        dest!: update_failed_frame)
qed

section \<open>The snapshots of the poll loop\<close>

lemma no_snapshot_member:
  "snapshots tr = [] \<Longrightarrow> EvSavePS p s \<notin> set tr"
  by (induction tr rule: snapshots.induct) auto

lemma split_at_first:
  assumes "xs @ x # ys = pre @ y # post" and "y \<notin> set xs"
  shows "(pre = xs \<and> y = x \<and> post = ys) \<or> (\<exists>pre'. pre = xs @ x # pre' \<and> ys = pre' @ y # post)"
  using assms
proof (induction xs arbitrary: pre)
  case Nil
  then show ?case by (cases pre) auto
next
  case (Cons a xs)
  then show ?case by (cases pre) auto
qed

lemma poll_pass_latest:
  assumes "poll_pass be js ls w = (Inr ls', w')"
  shows "\<exists>new. trace w' = trace w @ new \<and> snapshots new = [] \<and>
           jobs_progress ls' =
             map (\<lambda>i. observed (jobs_progress ls ! i) new i) [0..<length (jobs_progress ls)]"
proof -
  from poll_pass_events[OF assms] obtain new where n: "trace w' = trace w @ new"
    "snapshots new = []"
    "length (jobs_progress ls') = length (jobs_progress ls)"
    "\<forall>i < length (jobs_progress ls). jobs_progress ls' ! i = observed (jobs_progress ls ! i) new i"
    by blast
  have "jobs_progress ls' =
             map (\<lambda>i. observed (jobs_progress ls ! i) new i) [0..<length (jobs_progress ls)]"
    using n(3,4) by (intro nth_equalityI) simp_all
  with n show ?thesis by blast
qed

lemma poll_loop_means:
  assumes "poll_loop fuel be pid jobs ps ls w = (r, w')"
      and "length (jobs_progress ls) = length jobs"
  shows "\<exists>new. trace w' = trace w @ new \<and>
     (\<forall>pre p s post. new = pre @ EvSavePS p s # post \<longrightarrow>
        status s = STATUS_PROCESSING \<and>
        progress s = sum_list (map (\<lambda>i. observed (jobs_progress ls ! i) pre i) [0..<length jobs])
                       / of_nat (length jobs))"
  using assms
proof (induction fuel arbitrary: ps ls w)
  case 0
  then show ?case by (auto split: if_splits)
next
  case (Suc fuel)
  show ?case
  proof (cases "length (success_job_indexes ls) + length (error_job_indexes ls) < length jobs")
    case False
    then show ?thesis using Suc.prems by auto
  next
    case True
    obtain r1 w1 where pp: "poll_pass be (enumerate 0 jobs) ls w = (r1, w1)" by fastforce
    show ?thesis
    proof (cases r1)
      case (Inl e)
      then have w': "w' = w1" using Suc.prems True pp by simp
      from poll_pass_events[OF pp] obtain new1 where n1: "trace w1 = trace w @ new1"
        "snapshots new1 = []" by blast
      have "\<And>pre p s post. new1 \<noteq> pre @ EvSavePS p s # post"
        using no_snapshot_member[OF n1(2)] by (metis in_set_conv_decomp)
      with n1 w' show ?thesis by blast
    next
      case (Inr ls1)
      from poll_pass_latest[OF pp[unfolded Inr]] obtain new1 where n1:
        "trace w1 = trace w @ new1" "snapshots new1 = []"
        "jobs_progress ls1 =
           map (\<lambda>i. observed (jobs_progress ls ! i) new1 i) [0..<length jobs]"
        using Suc.prems(2) by auto
      define ps1 where "ps1 = ps\<lparr>progress := sum_list (jobs_progress ls1) / of_nat (length jobs),
                            status := STATUS_PROCESSING\<rparr>"
      have rec: "poll_loop fuel be pid jobs ps1 ls1 (save_ps pid ps1 w1) = (r, w')"
        using Suc.prems True pp Inr by (simp add: Let_def ps1_def)
      have len1: "length (jobs_progress ls1) = length jobs" using n1(3) by simp
      from Suc.IH[OF rec len1] obtain new2 where n2:
        "trace w' = trace (save_ps pid ps1 w1) @ new2"
        "\<forall>pre p s post. new2 = pre @ EvSavePS p s # post \<longrightarrow>
           status s = STATUS_PROCESSING \<and>
           progress s = sum_list (map (\<lambda>i. observed (jobs_progress ls1 ! i) pre i) [0..<length jobs])
                       / of_nat (length jobs)"
        by blast
      have tr: "trace w' = trace w @ (new1 @ EvSavePS pid ps1 # new2)"
        using n1 n2 by simp
      have "status s = STATUS_PROCESSING \<and>
        progress s = sum_list (map (\<lambda>i. observed (jobs_progress ls ! i) pre i) [0..<length jobs])
                       / of_nat (length jobs)"
        if dec: "new1 @ EvSavePS pid ps1 # new2 = pre @ EvSavePS p s # post" for pre p s post
      proof -
        have "EvSavePS p s \<notin> set new1" using no_snapshot_member[OF n1(2)] .
        from split_at_first[OF dec this]
        consider (here) "pre = new1" "EvSavePS p s = EvSavePS pid ps1"
          | (later) pre' where "pre = new1 @ EvSavePS pid ps1 # pre'" "new2 = pre' @ EvSavePS p s # post"
          by blast
        then show ?thesis
        proof cases
          case here
          then have "s = ps1" by simp
          then show ?thesis using here(1) n1(3) by (simp add: ps1_def)
        next
          case later
          from n2(2) later(2) have "status s = STATUS_PROCESSING"
            and pr: "progress s = sum_list (map (\<lambda>i. observed (jobs_progress ls1 ! i) pre' i) [0..<length jobs])
                       / of_nat (length jobs)"
            by blast+
          have "map (\<lambda>i. observed (jobs_progress ls1 ! i) pre' i) [0..<length jobs]
              = map (\<lambda>i. observed (jobs_progress ls ! i) pre i) [0..<length jobs]"
            using later(1) n1(3) by (intro map_cong) simp_all
          with pr \<open>status s = STATUS_PROCESSING\<close> show ?thesis by simp
        qed
      qed
      with tr show ?thesis by blast
    qed
  qed
qed


section \<open>Bounds and order of the snapshots\<close>

lemma job_reports_append [simp]:
  "job_reports i (a @ b) = job_reports i a @ job_reports i b"
  by (induction i a rule: job_reports.induct) simp_all

lemma job_reports_formats [simp]:
  "job_reports i (map (\<lambda>it. EvCreateFormat (f it)) items) = []"
  by (induction items) simp_all

lemma snapshots_formats [simp]:
  "snapshots (map (\<lambda>it. EvCreateFormat (f it)) items) = []"
  by (induction items) simp_all

lemma snapshot_member_decomp:
  "s \<in> set (snapshots tr) \<Longrightarrow> \<exists>pre p post. tr = pre @ EvSavePS p s # post"
proof (induction tr rule: snapshots.induct)
  case 1
  then show ?case by simp
next
  case (2 pid ps tr)
  show ?case
  proof (cases "s = ps")
    case True
    then have "EvSavePS pid ps # tr = [] @ EvSavePS pid s # tr" by simp
    then show ?thesis by blast
  next
    case False
    with 2 obtain pre p post where "tr = pre @ EvSavePS p s # post" by auto
    then have "EvSavePS pid ps # tr = (EvSavePS pid ps # pre) @ EvSavePS p s # post" by simp
    then show ?thesis by blast
  qed
qed (auto intro: Cons_eq_appendI)

lemma observed_in_reports:
  "observed v tr i \<in> insert v (set (job_reports i tr))"
  by (induction v tr i rule: observed.induct) auto

lemma observed_rises:
  assumes srt: "sorted (job_reports i (pre @ ext))"
      and pos: "\<forall>p \<in> set (job_reports i (pre @ ext)). 0 \<le> p"
  shows "observed 0 pre i \<le> observed 0 (pre @ ext) i"
proof -
  let ?a = "observed 0 pre i"
  have "observed 0 (pre @ ext) i \<in> insert ?a (set (job_reports i ext))"
    using observed_in_reports[of ?a ext i] by simp
  then consider "observed 0 (pre @ ext) i = ?a" | "observed 0 (pre @ ext) i \<in> set (job_reports i ext)"
    by blast
  then show ?thesis
  proof cases
    case 1
    then show ?thesis by simp
  next
    case 2
    from observed_in_reports[of 0 pre i] consider "?a = 0" | "?a \<in> set (job_reports i pre)" by blast
    then show ?thesis
    proof cases
      case 1
      with pos 2 show ?thesis by simp
    next
      case b: 2
      from srt have "\<forall>x \<in> set (job_reports i pre). \<forall>y \<in> set (job_reports i ext). x \<le> y"
        by (simp add: sorted_append)
      with b 2 show ?thesis by blast
    qed
  qed
qed

lemma mean_bounds:
  fixes xs :: "rat list"
  assumes "\<forall>x \<in> set xs. 0 \<le> x \<and> x \<le> 100"
  shows "0 \<le> sum_list xs / of_nat (length xs) \<and> sum_list xs / of_nat (length xs) \<le> 100"
proof -
  have lo: "0 \<le> sum_list xs" using assms by (intro sum_list_nonneg) simp
  have hi: "sum_list xs \<le> 100 * of_nat (length xs)"
    using assms by (induction xs) (auto simp: algebra_simps)
  show ?thesis
  proof (cases "xs = []")
    case True
    then show ?thesis by simp
  next
    case False
    then have "(0::rat) < of_nat (length xs)" by simp
    then show ?thesis using lo hi by (simp add: pos_divide_le_eq)
  qed
qed

lemma mean_observed_bounds:
  assumes "\<forall>i. \<forall>p \<in> set (job_reports i pre). 0 \<le> p \<and> p \<le> 100"
  shows "0 \<le> mean_observed n pre \<and> mean_observed n pre \<le> 100"
proof -
  have "0 \<le> observed 0 pre i \<and> observed 0 pre i \<le> 100" for i
    using assms observed_in_reports[of 0 pre i] by auto
  then have "\<forall>x \<in> set (map (observed 0 pre) [0..<n]). 0 \<le> x \<and> x \<le> 100"
    by auto
  from mean_bounds[OF this] show ?thesis by (simp add: mean_observed_def)
qed

lemma mean_observed_rises:
  assumes "\<forall>i. sorted (job_reports i (pre @ ext))"
      and "\<forall>i. \<forall>p \<in> set (job_reports i (pre @ ext)). 0 \<le> p"
  shows "mean_observed n pre \<le> mean_observed n (pre @ ext)"
proof -
  have "sum_list (map (observed 0 pre) [0..<n]) \<le> sum_list (map (observed 0 (pre @ ext)) [0..<n])"
    using assms by (intro sum_list_mono observed_rises) auto
  then show ?thesis unfolding mean_observed_def by (intro divide_right_mono) simp_all
qed

lemma snapshots_sorted:
  "(\<forall>pre p s post. tr = pre @ EvSavePS p s # post \<longrightarrow> progress s = F pre) \<Longrightarrow>
   (\<forall>pre ext rest. tr = pre @ ext @ rest \<longrightarrow> F pre \<le> F (pre @ ext)) \<Longrightarrow>
   sorted (map progress (snapshots tr))"
proof (induction tr rule: rev_induct)
  case Nil
  then show ?case by simp
next
  case (snoc x xs)
  have c: "\<forall>pre p s post. xs = pre @ EvSavePS p s # post \<longrightarrow> progress s = F pre"
    using snoc.prems(1) by auto
  have m: "\<forall>pre ext rest. xs = pre @ ext @ rest \<longrightarrow> F pre \<le> F (pre @ ext)"
    using snoc.prems(2) by (metis append_assoc)
  from snoc.IH[OF c m] have ih: "sorted (map progress (snapshots xs))" .
  show ?case
  proof (cases "\<exists>p s. x = EvSavePS p s")
    case False
    then have "snapshots [x] = []" by (cases x) auto
    with ih show ?thesis by simp
  next
    case True
    then obtain p s where x: "x = EvSavePS p s" by blast
    from snoc.prems(1) x have fs: "progress s = F xs" by auto
    have "progress y \<le> progress s" if y: "y \<in> set (snapshots xs)" for y
    proof -
      from snapshot_member_decomp[OF y] obtain pre q post where d: "xs = pre @ EvSavePS q y # post"
        by blast
      with c have fy: "progress y = F pre" by blast
      from d have "xs @ [x] = pre @ (EvSavePS q y # post) @ [x]" by simp
      with snoc.prems(2) have "F pre \<le> F (pre @ (EvSavePS q y # post))" by blast
      with fy fs d show ?thesis by simp
    qed
    with ih x show ?thesis by (simp add: sorted_append)
  qed
qed


lemma poll_loop_final:
  "poll_loop fuel be pid jobs ps ls w = (Some (Inr (ps', ls')), w') \<Longrightarrow>
   \<exists>new. trace w' = trace w @ new \<and>
     progress ps' = (if snapshots new = [] then progress ps else progress (last (snapshots new)))"
proof (induction fuel arbitrary: ps ls w)
  case 0
  then have "w' = w \<and> ps' = ps" by (simp split: if_splits)
  then show ?case by (intro exI[of _ "[]"]) simp
next
  case (Suc fuel)
  show ?case
  proof (cases "length (success_job_indexes ls) + length (error_job_indexes ls) < length jobs")
    case False
    then have "w' = w \<and> ps' = ps" using Suc.prems by simp
    then show ?thesis by (intro exI[of _ "[]"]) simp
  next
    case True
    obtain r1 w1 where pp: "poll_pass be (enumerate 0 jobs) ls w = (r1, w1)" by fastforce
    from poll_pass_events[OF pp] obtain new1 where n1: "trace w1 = trace w @ new1"
      "snapshots new1 = []" by blast
    show ?thesis
    proof (cases r1)
      case (Inl e)
      then have False using Suc.prems True pp by simp
      then show ?thesis ..
    next
      case (Inr ls1)
      define ps1 where "ps1 = ps\<lparr>progress := sum_list (jobs_progress ls1) / of_nat (length jobs),
                            status := STATUS_PROCESSING\<rparr>"
      have rec: "poll_loop fuel be pid jobs ps1 ls1 (save_ps pid ps1 w1) = (Some (Inr (ps', ls')), w')"
        using Suc.prems True pp Inr by (simp add: Let_def ps1_def)
      from Suc.IH[OF rec] obtain new2 where n2:
        "trace w' = trace (save_ps pid ps1 w1) @ new2"
        "progress ps' = (if snapshots new2 = [] then progress ps1 else progress (last (snapshots new2)))"
        by blast
      have tr: "trace w' = trace w @ (new1 @ EvSavePS pid ps1 # new2)" using n1 n2 by simp
      have sn: "snapshots (new1 @ EvSavePS pid ps1 # new2) = ps1 # snapshots new2"
        using n1 by simp
      have "progress ps' =
          (if snapshots (new1 @ EvSavePS pid ps1 # new2) = [] then progress ps
           else progress (last (snapshots (new1 @ EvSavePS pid ps1 # new2))))"
        unfolding sn using n2(2) by simp
      with tr show ?thesis by blast
    qed
  qed
qed

lemma resolve_snapshots:
  assumes "resolve be pid ps errs w = (rr, w')"
  shows "\<exists>rn. trace w' = trace w @ rn \<and> (\<forall>i. job_reports i rn = []) \<and>
           (snapshots rn = [] \<or> (\<exists>s. snapshots rn = [s] \<and> progress s = progress ps))"
proof (cases "py_join newline errs")
  case (Inl e)
  then have "w' = w" using assms by (simp add: resolve_def)
  then show ?thesis by simp
next
  case (Inr msg)
  show ?thesis
  proof (cases "errs = []")
    case False
    define s where "s = ps\<lparr>message := msg, status := STATUS_FAILED\<rparr>"
    have "trace w' = trace w @ [EvDeleteFormats pid, EvSavePS pid s, EvDeleteVideo pid]"
      using assms Inr False
      by (auto simp: resolve_def Let_def delete_video_def delete_formats_def s_def
          split: option.splits prod.splits)
    moreover have "snapshots [EvDeleteFormats pid, EvSavePS pid s, EvDeleteVideo pid] = [s]"
      "progress s = progress ps" "\<forall>i. job_reports i [EvDeleteFormats pid, EvSavePS pid s, EvDeleteVideo pid] = []"
      by (simp_all add: s_def)
    ultimately show ?thesis by blast
  next
    case True
    define fs where "fs = be_iter_formats be (trace (delete_formats pid w)) pid"
    define w1 where "w1 = emit (EvIterFormats pid) (delete_formats pid w)"
    obtain r2 w2 where c: "create_formats pid (fst fs) w1 = (r2, w2)" by fastforce
    from create_formats_events[OF c] obtain its where
      its: "trace w2 = trace w1 @ map (\<lambda>it. EvCreateFormat (format_row pid it)) its"
      by blast
    define s where "s = ps\<lparr>message := msg, status := STATUS_SUCCESS\<rparr>"
    define base where "base = [EvDeleteFormats pid, EvIterFormats pid]
        @ map (\<lambda>it. EvCreateFormat (format_row pid it)) its"
    have facts: "snapshots base = []" "\<forall>i. job_reports i base = []"
      "snapshots (base @ [EvSavePS pid s]) = [s]" "\<forall>i. job_reports i (base @ [EvSavePS pid s]) = []"
      "progress s = progress ps"
      by (simp_all add: base_def s_def)
    have t2: "trace w2 = trace w @ base"
      by (simp add: its w1_def base_def delete_formats_def)
    have "w' = w2 \<or> w' = save_ps pid s w2"
      using assms Inr True c
      by (auto simp: resolve_def Let_def fs_def[symmetric] w1_def[symmetric] s_def
          split: option.splits sum.splits prod.splits)
    then have "trace w' = trace w @ base \<or> trace w' = trace w @ base @ [EvSavePS pid s]"
      using t2 by auto
    then show ?thesis
    proof
      assume "trace w' = trace w @ base"
      with facts(1,2) show ?thesis by blast
    next
      assume "trace w' = trace w @ base @ [EvSavePS pid s]"
      with facts(3,4,5) show ?thesis by blast
    qed
  qed
qed

lemma p_transcode_video_snapshots:
  assumes run: "p_transcode_video be fuel t pid w = (r, w')"
  obtains (idle) "w' = w"
  | (started) ps1 and jobs :: "job list" and ln rn where
      "progress ps1 = 0"
      "trace w' = trace w @ EvSavePS pid ps1 # EvStartTranscoding pid # ln @ rn"
      "\<forall>i. job_reports i rn = []"
      "\<forall>pre p s post. ln = pre @ EvSavePS p s # post \<longrightarrow>
          progress s = mean_observed (length jobs) pre"
      "snapshots rn = [] \<or>
         (\<exists>s. snapshots rn = [s] \<and>
            progress s = (if snapshots ln = [] then 0 else progress (last (snapshots ln))))"
proof (cases "get_row (\<lambda>v. public_id v = pid) (videos w)")
  case (Inl e)
  then have "w' = w" using run by (simp add: p_transcode_video_def)
  then show ?thesis by (rule idle)
next
  case (Inr v)
  show ?thesis
  proof (cases "pstates w pid")
    case None
    then have "w' = w" using run Inr by (simp add: p_transcode_video_def)
    then show ?thesis by (rule idle)
  next
    case (Some ps0)
    define ps1 where "ps1 = ps0\<lparr>progress := 0, status := STATUS_PENDING, started_at := t\<rparr>"
    define w2 where "w2 = emit (EvStartTranscoding pid) (save_ps pid ps1 w)"
    have t2: "trace w2 = trace w @ [EvSavePS pid ps1, EvStartTranscoding pid]"
      by (simp add: w2_def)
    have p1: "progress ps1 = 0" by (simp add: ps1_def)
    show ?thesis
    proof (cases "be_start_transcoding be (trace (save_ps pid ps1 w)) pid")
      case (Inl e)
      then have "w' = w2" using run Inr Some
        by (simp add: p_transcode_video_def Let_def ps1_def w2_def)
      with t2 have tr: "trace w' = trace w @ EvSavePS pid ps1 # EvStartTranscoding pid # [] @ []"
        by simp
      show ?thesis
        by (rule started[of ps1 "[]" "[]" "[]", OF p1 tr]) simp_all
    next
      case js: (Inr jobs)
      obtain rl w3 where pl: "poll_loop fuel be pid jobs ps1 (init_poll_state jobs) w2 = (rl, w3)"
        by fastforce
      have len: "length (jobs_progress (init_poll_state jobs)) = length jobs"
        by (simp add: init_poll_state_def)
      from poll_loop_means[OF pl len] obtain ln where ln: "trace w3 = trace w2 @ ln"
        "\<forall>pre p s post. ln = pre @ EvSavePS p s # post \<longrightarrow>
           progress s = sum_list (map (\<lambda>i. observed (jobs_progress (init_poll_state jobs) ! i) pre i)
                                    [0..<length jobs]) / of_nat (length jobs)"
        by blast
      have "map (\<lambda>i. observed (jobs_progress (init_poll_state jobs) ! i) pre i) [0..<length jobs]
          = map (observed 0 pre) [0..<length jobs]" for pre
        by (intro map_cong) (simp_all add: init_poll_state_def)
      with ln(2) have means: "\<forall>pre p s post. ln = pre @ EvSavePS p s # post \<longrightarrow>
            progress s = mean_observed (length jobs) pre"
        by (simp add: mean_observed_def)
      have step: "(r, w') = (case rl of None \<Rightarrow> (None, w3) | Some (Inl e) \<Rightarrow> (Some (Inl (e, False)), w3)
                   | Some (Inr (ps2, ls)) \<Rightarrow>
                       (case resolve be pid ps2 (errors ls) w3 of (rr, w4) \<Rightarrow> (Some rr, w4)))"
        using run Inr Some js pl
        by (simp add: p_transcode_video_def Let_def ps1_def[symmetric] w2_def[symmetric]
            split: option.splits sum.splits prod.splits)
      have "\<exists>rn. trace w' = trace w3 @ rn \<and> (\<forall>i. job_reports i rn = []) \<and>
           (snapshots rn = [] \<or>
            (\<exists>s. snapshots rn = [s] \<and>
               progress s = (if snapshots ln = [] then 0 else progress (last (snapshots ln)))))"
      proof (cases rl)
        case None
        with step have "w' = w3" by simp
        then show ?thesis by simp
      next
        case (Some a)
        show ?thesis
        proof (cases a)
          case (Inl e)
          with step Some have "w' = w3" by simp
          then show ?thesis by simp
        next
          case (Inr b)
          obtain ps2 ls where b: "b = (ps2, ls)" by (cases b)
          obtain rr w4 where res: "resolve be pid ps2 (errors ls) w3 = (rr, w4)" by fastforce
          with step Some Inr b have w4: "w' = w4" by simp
          from poll_loop_final[OF pl[unfolded Some Inr b]] ln(1)
          have fin: "progress ps2 = (if snapshots ln = [] then 0 else progress (last (snapshots ln)))"
            using p1 by auto
          from resolve_snapshots[OF res] fin w4 show ?thesis by auto
        qed
      qed
      then obtain rn where rn: "trace w' = trace w3 @ rn" "\<forall>i. job_reports i rn = []"
        "snapshots rn = [] \<or>
            (\<exists>s. snapshots rn = [s] \<and>
               progress s = (if snapshots ln = [] then 0 else progress (last (snapshots ln))))"
        by blast
      have tr: "trace w' = trace w @ EvSavePS pid ps1 # EvStartTranscoding pid # ln @ rn"
        using rn(1) ln(1) t2 by simp
      show ?thesis
        by (rule started[of ps1 ln rn jobs, OF p1 tr rn(2) means rn(3)])
    qed
  qed
qed


lemma sorted_below_last:
  fixes xs :: "rat list"
  shows "sorted xs \<Longrightarrow> x \<in> set xs \<Longrightarrow> x \<le> last xs"
proof (induction xs rule: rev_induct)
  case Nil
  then show ?case by simp
next
  case (snoc y ys)
  then show ?case by (auto simp: sorted_append)
qed

section \<open>The passes of the poll loop\<close>

text \<open>
  One pass calls \<^verbatim>\<open>check_progress\<close> for the jobs that had not resolved when it
  started, each once and in the order of their indexes, and for no other job. The loop is
  a sequence of such passes, each followed by one write of the ProcessingState row.
\<close>

lemma checked_append [simp]: "checked (a @ b) = checked a @ checked b"
  by (induction a rule: checked.induct) simp_all

lemma resolved_append [simp]: "resolved (a @ b) i = (resolved a i \<or> resolved b i)"
  by (induction a i rule: resolved.induct) auto

lemma poll_pass_checks:
  assumes "poll_pass be (enumerate k js) ls w = (r, w')"
  shows "\<exists>cs. trace w' = trace w @ cs \<and> length (checked cs) = length cs \<and>
     (\<forall>ls'. r = Inr ls' \<longrightarrow>
        checked cs = filter (\<lambda>i. i \<notin> set (success_job_indexes ls) \<and> i \<notin> set (error_job_indexes ls))
                       [k..<k + length js] \<and>
        (\<forall>i. i \<in> set (success_job_indexes ls') \<union> set (error_job_indexes ls') \<longleftrightarrow>
             i \<in> set (success_job_indexes ls) \<union> set (error_job_indexes ls) \<or> resolved cs i))"
  using assms
proof (induction js arbitrary: k ls w)
  case Nil
  then show ?case by (intro exI[of _ "[]"]) auto
next
  case (Cons job js)
  have range: "[k..<k + length (job # js)] = k # [Suc k..<Suc k + length js]"
  proof -
    have "k < Suc (k + length js)" by simp
    from upt_conv_Cons[OF this] show ?thesis by (simp only: length_Cons add_Suc add_Suc_right)
  qed
  show ?case
  proof (cases "k \<notin> set (success_job_indexes ls) \<and> k \<notin> set (error_job_indexes ls)")
    case False
    then have "poll_pass be (enumerate (Suc k) js) ls w = (r, w')" using Cons.prems by auto
    from Cons.IH[OF this] obtain cs where cs: "trace w' = trace w @ cs"
      "length (checked cs) = length cs"
      "\<forall>ls'. r = Inr ls' \<longrightarrow>
        checked cs = filter (\<lambda>i. i \<notin> set (success_job_indexes ls) \<and> i \<notin> set (error_job_indexes ls))
                       [Suc k..<Suc k + length js] \<and>
        (\<forall>i. i \<in> set (success_job_indexes ls') \<union> set (error_job_indexes ls') \<longleftrightarrow>
             i \<in> set (success_job_indexes ls) \<union> set (error_job_indexes ls) \<or> resolved cs i)"
      by blast
    show ?thesis
      apply (rule exI[of _ cs])
      using cs False unfolding range by auto
  next
    case True
    define ans where "ans = be_check_progress be (trace w) job"
    define w1 where "w1 = emit (EvCheckProgress k job ans) w"
    show ?thesis
    proof (cases ans)
      case (Progress p finished)
      define ls1 where "ls1 = ls\<lparr>jobs_progress := (jobs_progress ls)[k := p],
                      success_job_indexes :=
                        (if finished then success_job_indexes ls @ [k]
                         else success_job_indexes ls)\<rparr>"
      have "poll_pass be (enumerate (Suc k) js) ls1 w1 = (r, w')"
        using Cons.prems True Progress by (simp add: Let_def ans_def[symmetric] w1_def ls1_def)
      from Cons.IH[OF this] obtain cs where cs: "trace w' = trace w1 @ cs"
        "length (checked cs) = length cs"
        "\<forall>ls'. r = Inr ls' \<longrightarrow>
          checked cs = filter (\<lambda>i. i \<notin> set (success_job_indexes ls1) \<and> i \<notin> set (error_job_indexes ls1))
                       [Suc k..<Suc k + length js] \<and>
          (\<forall>i. i \<in> set (success_job_indexes ls') \<union> set (error_job_indexes ls') \<longleftrightarrow>
             i \<in> set (success_job_indexes ls1) \<union> set (error_job_indexes ls1) \<or> resolved cs i)"
        by blast
      have same: "filter (\<lambda>i. i \<notin> set (success_job_indexes ls1) \<and> i \<notin> set (error_job_indexes ls1))
                       [Suc k..<Suc k + length js]
          = filter (\<lambda>i. i \<notin> set (success_job_indexes ls) \<and> i \<notin> set (error_job_indexes ls))
                       [Suc k..<Suc k + length js]"
        by (intro filter_cong) (auto simp: ls1_def)
      show ?thesis
        apply (rule exI[of _ "EvCheckProgress k job ans # cs"])
        using cs True Progress unfolding range same
        by (auto simp: w1_def ls1_def split: if_splits)
    next
      case (Raises e)
      show ?thesis
      proof (cases "exn_kind e = TranscodingFailed")
        case False
        then have "r = Inl e" "w' = w1"
          using Cons.prems True Raises by (simp_all add: Let_def ans_def[symmetric] w1_def)
        then show ?thesis
          by (intro exI[of _ "[EvCheckProgress k job ans]"]) (auto simp: w1_def)
      next
        case tf: True
        define ls1 where "ls1 = ls\<lparr>error_job_indexes := error_job_indexes ls @ [k],
                        errors := errors ls @
                          [case exn_args e of [] \<Rightarrow> PStr [] | a # _ \<Rightarrow> a]\<rparr>"
        have "poll_pass be (enumerate (Suc k) js) ls1 w1 = (r, w')"
          using Cons.prems True Raises tf by (simp add: Let_def ans_def[symmetric] w1_def ls1_def)
        from Cons.IH[OF this] obtain cs where cs: "trace w' = trace w1 @ cs"
          "length (checked cs) = length cs"
          "\<forall>ls'. r = Inr ls' \<longrightarrow>
            checked cs = filter (\<lambda>i. i \<notin> set (success_job_indexes ls1) \<and> i \<notin> set (error_job_indexes ls1))
                       [Suc k..<Suc k + length js] \<and>
            (\<forall>i. i \<in> set (success_job_indexes ls') \<union> set (error_job_indexes ls') \<longleftrightarrow>
               i \<in> set (success_job_indexes ls1) \<union> set (error_job_indexes ls1) \<or> resolved cs i)"
          by blast
        have same: "filter (\<lambda>i. i \<notin> set (success_job_indexes ls1) \<and> i \<notin> set (error_job_indexes ls1))
                       [Suc k..<Suc k + length js]
          = filter (\<lambda>i. i \<notin> set (success_job_indexes ls) \<and> i \<notin> set (error_job_indexes ls))
                       [Suc k..<Suc k + length js]"
          by (intro filter_cong) (auto simp: ls1_def)
        show ?thesis
          apply (rule exI[of _ "EvCheckProgress k job ans # cs"])
          using cs True Raises tf unfolding range same
          by (auto simp: w1_def ls1_def)
      qed
    qed
  qed
qed


lemma poll_loop_blocks:
  assumes run: "poll_loop fuel be pid jobs ps ls w = (r, w')"
      and len: "length (jobs_progress ls) = length jobs"
      and prog: "\<forall>i < length jobs. jobs_progress ls ! i = observed 0 pre0 i"
      and res: "\<forall>i. i \<in> set (success_job_indexes ls) \<union> set (error_job_indexes ls) \<longleftrightarrow> resolved pre0 i"
  shows "\<exists>blocks rest.
     trace w' = trace w @ concat (map (\<lambda>b. fst b @ [EvSavePS pid (snd b)]) blocks) @ rest \<and>
     length (checked rest) = length rest \<and>
     ((\<forall>e. r \<noteq> Some (Inl e)) \<longrightarrow> rest = []) \<and>
     pstates w' = (if blocks = [] then pstates w else (pstates w)(pid \<mapsto> snd (last blocks))) \<and>
     (\<forall>k < length blocks.
        length (checked (fst (blocks ! k))) = length (fst (blocks ! k)) \<and>
        checked (fst (blocks ! k)) =
          filter (\<lambda>i. \<not> resolved (pre0 @ concat (map (\<lambda>b. fst b @ [EvSavePS pid (snd b)]) (take k blocks))) i)
            [0..<length jobs] \<and>
        snd (blocks ! k) =
          ps\<lparr>progress :=
               sum_list (map (observed 0 (pre0 @ concat (map (\<lambda>b. fst b @ [EvSavePS pid (snd b)]) (take k blocks))
                                            @ fst (blocks ! k)))
                           [0..<length jobs]) / of_nat (length jobs),
             status := STATUS_PROCESSING\<rparr>)"
  using run len prog res
proof (induction fuel arbitrary: ps ls w pre0)
  case 0
  from "0.prems"(1) have "w' = w" "\<forall>e. r \<noteq> Some (Inl e)" by (auto split: if_splits)
  then show ?case
    by (intro exI[of _ "[]"]) simp
next
  case (Suc fuel)
  show ?case
  proof (cases "length (success_job_indexes ls) + length (error_job_indexes ls) < length jobs")
    case False
    with Suc.prems(1) have "w' = w" by simp
    then show ?thesis by (intro exI[of _ "[]"]) simp
  next
    case True
    obtain r1 w1 where pp: "poll_pass be (enumerate 0 jobs) ls w = (r1, w1)" by fastforce
    from poll_pass_checks[OF pp] obtain cs where cs: "trace w1 = trace w @ cs"
      "length (checked cs) = length cs"
      "\<forall>ls'. r1 = Inr ls' \<longrightarrow>
        checked cs = filter (\<lambda>i. i \<notin> set (success_job_indexes ls) \<and> i \<notin> set (error_job_indexes ls))
                       [0..<0 + length jobs] \<and>
        (\<forall>i. i \<in> set (success_job_indexes ls') \<union> set (error_job_indexes ls') \<longleftrightarrow>
             i \<in> set (success_job_indexes ls) \<union> set (error_job_indexes ls) \<or> resolved cs i)"
      by blast
    have p1: "pstates w1 = pstates w" using poll_pass_frame[OF pp] by simp
    show ?thesis
    proof (cases r1)
      case (Inl e)
      then have rw: "r = Some (Inl e)" "w' = w1" using Suc.prems(1) True pp by simp_all
      show ?thesis
        apply (rule exI[of _ "[]"])
        apply (rule exI[of _ cs])
        using rw cs p1 by simp
    next
      case (Inr ls1)
      from poll_pass_latest[OF pp[unfolded Inr]] obtain new where new:
        "trace w1 = trace w @ new"
        "jobs_progress ls1 =
           map (\<lambda>i. observed (jobs_progress ls ! i) new i) [0..<length (jobs_progress ls)]"
        by blast
      from new(1) cs(1) have nc: "new = cs" by simp
      define ps1 where "ps1 = ps\<lparr>progress := sum_list (jobs_progress ls1) / of_nat (length jobs),
                            status := STATUS_PROCESSING\<rparr>"
      define pre1 where "pre1 = pre0 @ cs @ [EvSavePS pid ps1]"
      have rec: "poll_loop fuel be pid jobs ps1 ls1 (save_ps pid ps1 w1) = (r, w')"
        using Suc.prems(1) True pp Inr by (simp add: Let_def ps1_def)
      have jp: "jobs_progress ls1 = map (observed 0 (pre0 @ cs)) [0..<length jobs]"
        unfolding new(2) nc using Suc.prems(2,3) by (intro map_cong) simp_all
      have len1: "length (jobs_progress ls1) = length jobs" using jp by simp
      have prog1: "\<forall>i < length jobs. jobs_progress ls1 ! i = observed 0 pre1 i"
        using jp by (simp add: pre1_def)
      have res1: "\<forall>i. i \<in> set (success_job_indexes ls1) \<union> set (error_job_indexes ls1)
                   \<longleftrightarrow> resolved pre1 i"
        using cs(3) Inr Suc.prems(4) by (auto simp: pre1_def)
      have chk: "checked cs = filter (\<lambda>i. \<not> resolved pre0 i) [0..<length jobs]"
      proof -
        have "checked cs = filter (\<lambda>i. i \<notin> set (success_job_indexes ls) \<and> i \<notin> set (error_job_indexes ls))
                       [0..<length jobs]"
          using cs(3) Inr by simp
        also have "\<dots> = filter (\<lambda>i. \<not> resolved pre0 i) [0..<length jobs]"
          using Suc.prems(4) by (intro filter_cong) auto
        finally show ?thesis .
      qed
      have s1: "ps1 = ps\<lparr>progress := sum_list (map (observed 0 (pre0 @ cs)) [0..<length jobs])
                                      / of_nat (length jobs),
                         status := STATUS_PROCESSING\<rparr>"
        by (simp add: ps1_def jp)
      from Suc.IH[OF rec len1 prog1 res1] obtain blocks2 rest where ih:
        "trace w' = trace (save_ps pid ps1 w1)
            @ concat (map (\<lambda>b. fst b @ [EvSavePS pid (snd b)]) blocks2) @ rest"
        "length (checked rest) = length rest"
        "(\<forall>e. r \<noteq> Some (Inl e)) \<longrightarrow> rest = []"
        "pstates w' = (if blocks2 = [] then pstates (save_ps pid ps1 w1)
                       else (pstates (save_ps pid ps1 w1))(pid \<mapsto> snd (last blocks2)))"
        "\<forall>k < length blocks2.
          length (checked (fst (blocks2 ! k))) = length (fst (blocks2 ! k)) \<and>
          checked (fst (blocks2 ! k)) =
            filter (\<lambda>i. \<not> resolved (pre1 @ concat (map (\<lambda>b. fst b @ [EvSavePS pid (snd b)]) (take k blocks2))) i)
              [0..<length jobs] \<and>
          snd (blocks2 ! k) =
            ps1\<lparr>progress :=
               sum_list (map (observed 0 (pre1 @ concat (map (\<lambda>b. fst b @ [EvSavePS pid (snd b)]) (take k blocks2))
                                            @ fst (blocks2 ! k)))
                           [0..<length jobs]) / of_nat (length jobs),
              status := STATUS_PROCESSING\<rparr>"
        by blast
      define blocks where "blocks = (cs, ps1) # blocks2"
      have a: "trace w' = trace w @ concat (map (\<lambda>b. fst b @ [EvSavePS pid (snd b)]) blocks) @ rest"
        using ih(1) cs(1) by (simp add: blocks_def)
      have b: "pstates w' = (if blocks = [] then pstates w else (pstates w)(pid \<mapsto> snd (last blocks)))"
        using ih(4) p1 by (simp add: blocks_def)
      have c: "length (checked (fst (blocks ! k))) = length (fst (blocks ! k)) \<and>
        checked (fst (blocks ! k)) =
          filter (\<lambda>i. \<not> resolved (pre0 @ concat (map (\<lambda>b. fst b @ [EvSavePS pid (snd b)]) (take k blocks))) i)
            [0..<length jobs] \<and>
        snd (blocks ! k) =
          ps\<lparr>progress :=
               sum_list (map (observed 0 (pre0 @ concat (map (\<lambda>b. fst b @ [EvSavePS pid (snd b)]) (take k blocks))
                                            @ fst (blocks ! k)))
                           [0..<length jobs]) / of_nat (length jobs),
             status := STATUS_PROCESSING\<rparr>" if k: "k < length blocks" for k
      proof (cases k)
        case 0
        then show ?thesis using cs(2) chk s1 by (simp add: blocks_def)
      next
        case (Suc k')
        with k have k': "k' < length blocks2" by (simp add: blocks_def)
        have pre: "pre0 @ concat (map (\<lambda>b. fst b @ [EvSavePS pid (snd b)]) (take k blocks))
              = pre1 @ concat (map (\<lambda>b. fst b @ [EvSavePS pid (snd b)]) (take k' blocks2))"
          by (simp add: Suc blocks_def pre1_def)
        have nth: "blocks ! k = blocks2 ! k'" by (simp add: Suc blocks_def)
        have upd: "ps1\<lparr>progress := x, status := STATUS_PROCESSING\<rparr>
                 = ps\<lparr>progress := x, status := STATUS_PROCESSING\<rparr>" for x
          by (simp add: ps1_def)
        have pre2: "pre0 @ concat (map (\<lambda>b. fst b @ [EvSavePS pid (snd b)]) (take k blocks)) @ x
              = pre1 @ concat (map (\<lambda>b. fst b @ [EvSavePS pid (snd b)]) (take k' blocks2)) @ x"
          for x
          by (simp add: Suc blocks_def pre1_def)
        from ih(5) k' have
          i1: "length (checked (fst (blocks2 ! k'))) = length (fst (blocks2 ! k'))" and
          i2: "checked (fst (blocks2 ! k')) =
            filter (\<lambda>i. \<not> resolved (pre1 @ concat (map (\<lambda>b. fst b @ [EvSavePS pid (snd b)]) (take k' blocks2))) i)
              [0..<length jobs]" and
          i3: "snd (blocks2 ! k') =
            ps1\<lparr>progress :=
               sum_list (map (observed 0 (pre1 @ concat (map (\<lambda>b. fst b @ [EvSavePS pid (snd b)]) (take k' blocks2))
                                            @ fst (blocks2 ! k')))
                           [0..<length jobs]) / of_nat (length jobs),
              status := STATUS_PROCESSING\<rparr>"
          by blast+
        show ?thesis unfolding pre2 pre nth
          using i1 i2 i3[unfolded upd] by blast
      qed
      from a b c ih(2,3) show ?thesis by blast
    qed
  qed
qed

section \<open>Queries\<close>

lemma get_row_InrD:
  "get_row P rows = Inr r \<Longrightarrow> filter P rows = [r]"
  by (auto simp: get_row_def split: list.splits)

lemma get_row_unique:
  assumes "get_row P rows = Inr r"
  shows "P r" and "r \<in> set rows" and "\<And>x. x \<in> set rows \<Longrightarrow> P x \<Longrightarrow> x = r"
proof -
  have f: "filter P rows = [r]" using assms by (rule get_row_InrD)
  then have "r \<in> set (filter P rows)" by simp
  then show "P r" "r \<in> set rows" by simp_all
  fix x assume "x \<in> set rows" "P x"
  then have "x \<in> set (filter P rows)" by simp
  with f show "x = r" by simp
qed


section \<open>Stripping and the example payloads\<close>

lemma py_strip_shape:
  "\<exists>pre post. s = pre @ py_strip chars s @ post \<and>
       set pre \<subseteq> set chars \<and> set post \<subseteq> set chars \<and>
       (py_strip chars s \<noteq> [] \<longrightarrow>
          hd (py_strip chars s) \<notin> set chars \<and> last (py_strip chars s) \<notin> set chars)"
proof -
  let ?P = "\<lambda>c. c \<in> set chars"
  define d where "d = dropWhile ?P s"
  define pre where "pre = takeWhile ?P s"
  define post where "post = rev (takeWhile ?P (rev d))"
  have res: "py_strip chars s = rev (dropWhile ?P (rev d))" by (simp add: py_strip_def d_def)
  have s: "s = pre @ d" by (simp add: pre_def d_def)
  have "rev (dropWhile ?P (rev d)) @ rev (takeWhile ?P (rev d))
          = rev (takeWhile ?P (rev d) @ dropWhile ?P (rev d))"
    by (simp only: rev_append)
  also have "\<dots> = rev (rev d)" by (simp only: takeWhile_dropWhile_id)
  finally have d: "d = py_strip chars s @ post" by (simp add: res post_def)
  have p1: "set pre \<subseteq> set chars" unfolding pre_def by (auto dest: set_takeWhileD)
  have p2: "set post \<subseteq> set chars" unfolding post_def by (auto dest: set_takeWhileD)
  have ends: "hd (py_strip chars s) \<notin> set chars \<and> last (py_strip chars s) \<notin> set chars"
    if ne: "py_strip chars s \<noteq> []"
  proof -
    from ne d have dne: "d \<noteq> []" by auto
    have "hd d \<notin> set chars" using dne unfolding d_def by (metis hd_dropWhile)
    moreover have "hd d = hd (py_strip chars s)" using d ne by (metis hd_append2)
    moreover have "dropWhile ?P (rev d) \<noteq> []" using ne res by simp
    then have "hd (dropWhile ?P (rev d)) \<notin> set chars" by (metis hd_dropWhile)
    then have "last (py_strip chars s) \<notin> set chars" using ne res by (simp add: last_rev)
    ultimately show ?thesis by simp
  qed
  from s d p1 p2 ends show ?thesis by (metis append_assoc)
qed

lemma decode_bom_at_end: "utf8_decode bom_at_end = Some (webvtt_header @ [0xFEFF])"
  by (simp add: utf8_decode_def bom_at_end_def cont_def webvtt_header_def)

lemma strip_bom_at_end: "py_strip strip_chars (webvtt_header @ [0xFEFF]) = webvtt_header"
  by (simp add: py_strip_def strip_chars_def webvtt_header_def)

lemma decode_ascii:
  "\<forall>c \<in> set s. c < 0x80 \<Longrightarrow> utf8_decode (ascii_bytes s) = Some s"
proof (induction s)
  case Nil
  then show ?case by (simp add: utf8_decode_def ascii_bytes_def)
next
  case (Cons c s)
  then have c: "c < 0x80" by simp
  then have "unat (of_nat c :: 8 word) = c" by (simp add: unat_of_nat)
  with Cons c show ?case by (simp add: utf8_decode_def ascii_bytes_def)
qed

lemma decode_srt_example: "utf8_decode (ascii_bytes srt_example) = Some srt_example"
  by (rule decode_ascii) (simp add: srt_example_def)

lemma decode_srt_without_text: "utf8_decode (ascii_bytes srt_without_text) = Some srt_without_text"
  by (rule decode_ascii) (simp add: srt_without_text_def)

lemma decode_hello: "utf8_decode (ascii_bytes (map of_char ''hello'')) = Some (map of_char ''hello'')"
  by (rule decode_ascii) simp

lemma strip_srt_example: "py_strip strip_chars srt_example = srt_example"
  by (simp add: py_strip_def strip_chars_def srt_example_def)

lemma strip_srt_without_text: "py_strip strip_chars srt_without_text = srt_without_text"
  by (simp add: py_strip_def strip_chars_def srt_without_text_def)

lemma strip_hello: "py_strip strip_chars (map of_char ''hello'') = map of_char ''hello''"
  by (simp add: py_strip_def strip_chars_def)

lemma detect_webvtt_header: "detect_format simple_pycaption webvtt_header = Inr (Some WebVTTReader)"
  by (simp add: simple_pycaption_def webvtt_header_def)

lemma detect_srt_example: "detect_format simple_pycaption srt_example = Inr (Some SRTReader)"
  by (simp add: simple_pycaption_def srt_example_def webvtt_header_def)

lemma detect_srt_without_text: "detect_format simple_pycaption srt_without_text = Inr (Some SRTReader)"
  by (simp add: simple_pycaption_def srt_without_text_def webvtt_header_def)

lemma detect_hello: "detect_format simple_pycaption (map of_char ''hello'') = Inr None"
  by (simp add: simple_pycaption_def webvtt_header_def)

lemma convert_srt_example:
  "write_webvtt simple_pycaption SRTReader srt_example = Inr srt_example_as_webvtt"
  by (simp add: simple_pycaption_def)

lemma convert_srt_without_text:
  "write_webvtt simple_pycaption SRTReader srt_without_text
     = Inl (Exn (OtherException ''CaptionReadNoCaptions'') [PStr ''empty caption file''])"
  by (simp add: simple_pycaption_def srt_without_text_def srt_example_def)


section \<open>Runs of the state machine\<close>

lemmas run_defs = p_transcode_video_def quiet_backend_def world_abc_def empty_world_def get_row_def
      default_ps_def init_poll_state_def save_ps_def emit_def resolve_def py_join_def
      delete_formats_def create_format_def format_row_def delete_video_def
      Let_def numeral_3_eq_3 enumerate_eq_zip

lemma run_quiet:
  "p_transcode_video quiet_backend 3 7 ''abc'' world_abc =
    (Some (Inr ()),
     world_abc\<lparr>pstates := [''abc'' \<mapsto> \<lparr>started_at = 7, progress = 100, status = STATUS_SUCCESS, message = []\<rparr>],
       formats := [\<lparr>format_video = ''abc'', format_name = ''HD'', bitrate = 5400\<rparr>,
                   \<lparr>format_video = ''abc'', format_name = ''SD'', bitrate = 900\<rparr>],
       trace := [EvSavePS ''abc'' \<lparr>started_at = 7, progress = 0, status = STATUS_PENDING, message = []\<rparr>,
                 EvStartTranscoding ''abc'',
                 EvCheckProgress 0 ''job'' (Progress 100 True),
                 EvSavePS ''abc'' \<lparr>started_at = 7, progress = 100, status = STATUS_PROCESSING, message = []\<rparr>,
                 EvDeleteFormats ''abc'', EvIterFormats ''abc'',
                 EvCreateFormat \<lparr>format_video = ''abc'', format_name = ''HD'', bitrate = 5400\<rparr>,
                 EvCreateFormat \<lparr>format_video = ''abc'', format_name = ''SD'', bitrate = 900\<rparr>,
                 EvSavePS ''abc'' \<lparr>started_at = 7, progress = 100, status = STATUS_SUCCESS, message = []\<rparr>]\<rparr>)"
  by (simp add: run_defs)

lemma run_failing:
  "p_transcode_video failing_backend 3 7 ''abc'' world_abc =
    (Some (Inr ()),
     world_abc\<lparr>pstates := [''abc'' \<mapsto> \<lparr>started_at = 7, progress = 100 / 3, status = STATUS_FAILED,
                                        message = ''codec error'' @ [CHR 0x0A] @ ''disk full''\<rparr>],
       formats := [],
       trace := [EvSavePS ''abc'' \<lparr>started_at = 7, progress = 0, status = STATUS_PENDING, message = []\<rparr>,
                 EvStartTranscoding ''abc'',
                 EvCheckProgress 0 ''j1'' (Progress 100 True),
                 EvCheckProgress 1 ''j2'' (Raises (Exn TranscodingFailed [PStr ''codec error''])),
                 EvCheckProgress 2 ''j3'' (Raises (Exn TranscodingFailed [PStr ''disk full''])),
                 EvSavePS ''abc'' \<lparr>started_at = 7, progress = 100 / 3, status = STATUS_PROCESSING, message = []\<rparr>,
                 EvDeleteFormats ''abc'',
                 EvSavePS ''abc'' \<lparr>started_at = 7, progress = 100 / 3, status = STATUS_FAILED,
                                  message = ''codec error'' @ [CHR 0x0A] @ ''disk full''\<rparr>,
                 EvDeleteVideo ''abc'']\<rparr>)"
  by (simp add: run_defs failing_backend_def newline_def)

lemmas driver_defs = transcode_video_def acquire_lock_def cache_add_def release_lock_def
  update_failed_def newline_def is_exception_def


lemma run_crashing:
  "transcode_video crashing_backend 3 7 7 ''abc'' world_abc =
     (Some (Inl (Exn (OtherException ''BackendError'') [PStr ''boom'', PStr ''bang''])),
      world_abc\<lparr>pstates := [''abc'' \<mapsto> \<lparr>started_at = 7, progress = 0, status = STATUS_FAILED,
                                         message = ''boom'' @ [CHR 0x0A] @ ''bang''\<rparr>],
        trace := [EvSavePS ''abc'' \<lparr>started_at = 7, progress = 0, status = STATUS_PENDING, message = []\<rparr>,
                  EvStartTranscoding ''abc'',
                  EvSavePS ''abc'' \<lparr>started_at = 7, progress = 0, status = STATUS_FAILED,
                                   message = ''boom'' @ [CHR 0x0A] @ ''bang''\<rparr>]\<rparr>)"
  by (simp add: run_defs driver_defs crashing_backend_def)

lemma run_oserror:
  "transcode_video oserror_backend 3 7 7 ''abc'' world_abc =
     (Some (Inl (Exn TypeError [PStr ''sequence item: expected str instance''])),
      world_abc\<lparr>pstates := [''abc'' \<mapsto> \<lparr>started_at = 7, progress = 0, status = STATUS_PENDING,
                                         message = []\<rparr>],
        trace := [EvSavePS ''abc'' \<lparr>started_at = 7, progress = 0, status = STATUS_PENDING, message = []\<rparr>,
                  EvStartTranscoding ''abc'']\<rparr>)"
  by (simp add: run_defs driver_defs oserror_backend_def)

lemma run_interrupted:
  "transcode_video interrupted_backend 3 7 7 ''abc'' world_abc =
     (Some (Inl (Exn KeyboardInterrupt [])),
      world_abc\<lparr>pstates := [''abc'' \<mapsto> \<lparr>started_at = 7, progress = 0, status = STATUS_PENDING,
                                         message = []\<rparr>],
        trace := [EvSavePS ''abc'' \<lparr>started_at = 7, progress = 0, status = STATUS_PENDING, message = []\<rparr>,
                  EvStartTranscoding ''abc'']\<rparr>)"
  by (simp add: run_defs driver_defs interrupted_backend_def)

lemma run_null_bitrate_atomic:
  "transcode_video null_bitrate_backend 3 7 7 ''abc'' world_abc_atomic =
     (Some (Inl transaction_management_error),
      world_abc_atomic\<lparr>pstates := [''abc'' \<mapsto> \<lparr>started_at = 7, progress = 100, status = STATUS_PROCESSING,
                                         message = []\<rparr>],
        formats := [],
        cache := [''TRANSCODE_VIDEO:abc'' \<mapsto> None],
        trace := [EvSavePS ''abc'' \<lparr>started_at = 7, progress = 0, status = STATUS_PENDING, message = []\<rparr>,
                  EvStartTranscoding ''abc'',
                  EvCheckProgress 0 ''job'' (Progress 100 True),
                  EvSavePS ''abc'' \<lparr>started_at = 7, progress = 100, status = STATUS_PROCESSING, message = []\<rparr>,
                  EvDeleteFormats ''abc'', EvIterFormats ''abc'']\<rparr>)"
  by (simp add: run_defs driver_defs null_bitrate_backend_def world_abc_atomic_def)

lemma run_null_bitrate:
  "transcode_video null_bitrate_backend 3 7 7 ''abc'' world_abc =
     (Some (Inl (Exn IntegrityError [PStr ''NOT NULL constraint failed: pipeline_videoformat.bitrate''])),
      world_abc\<lparr>pstates := [''abc'' \<mapsto> \<lparr>started_at = 7, progress = 100, status = STATUS_FAILED,
                                 message = ''NOT NULL constraint failed: pipeline_videoformat.bitrate''\<rparr>],
        formats := [],
        trace := [EvSavePS ''abc'' \<lparr>started_at = 7, progress = 0, status = STATUS_PENDING, message = []\<rparr>,
                  EvStartTranscoding ''abc'',
                  EvCheckProgress 0 ''job'' (Progress 100 True),
                  EvSavePS ''abc'' \<lparr>started_at = 7, progress = 100, status = STATUS_PROCESSING, message = []\<rparr>,
                  EvDeleteFormats ''abc'', EvIterFormats ''abc'',
                  EvSavePS ''abc'' \<lparr>started_at = 7, progress = 100, status = STATUS_FAILED,
                                 message = ''NOT NULL constraint failed: pipeline_videoformat.bitrate''\<rparr>]\<rparr>)"
  by (simp add: run_defs driver_defs null_bitrate_backend_def)

lemmas loop_defs = init_poll_state_def save_ps_def emit_def Let_def enumerate_eq_zip
  world_abc_def empty_world_def default_ps_def quiet_backend_def numeral_3_eq_3

lemma run_two_pass:
  "poll_loop 3 two_pass_backend ''abc'' [''a'', ''b''] default_ps (init_poll_state [''a'', ''b'']) world_abc =
     (Some (Inr (default_ps\<lparr>progress := 100, status := STATUS_PROCESSING\<rparr>,
                 \<lparr>success_job_indexes = [0, 1], error_job_indexes = [], errors = [],
                  jobs_progress = [100, 100]\<rparr>)),
      world_abc\<lparr>pstates := [''abc'' \<mapsto> default_ps\<lparr>progress := 100, status := STATUS_PROCESSING\<rparr>],
        trace := [EvCheckProgress 0 ''a'' (Progress 100 True),
                  EvCheckProgress 1 ''b'' (Progress 50 False),
                  EvSavePS ''abc'' (default_ps\<lparr>progress := 75, status := STATUS_PROCESSING\<rparr>),
                  EvCheckProgress 1 ''b'' (Progress 100 True),
                  EvSavePS ''abc'' (default_ps\<lparr>progress := 100, status := STATUS_PROCESSING\<rparr>)]\<rparr>)"
  by (simp add: loop_defs two_pass_backend_def)

lemma run_early_finish:
  "poll_loop 3 early_finish_backend ''abc'' [''job''] default_ps (init_poll_state [''job'']) world_abc =
     (Some (Inr (default_ps\<lparr>progress := 80, status := STATUS_PROCESSING\<rparr>,
                 \<lparr>success_job_indexes = [0], error_job_indexes = [], errors = [],
                  jobs_progress = [80]\<rparr>)),
      world_abc\<lparr>pstates := [''abc'' \<mapsto> default_ps\<lparr>progress := 80, status := STATUS_PROCESSING\<rparr>],
        trace := [EvCheckProgress 0 ''job'' (Progress 80 True),
                  EvSavePS ''abc'' (default_ps\<lparr>progress := 80, status := STATUS_PROCESSING\<rparr>)]\<rparr>)"
  by (simp add: loop_defs early_finish_backend_def)


lemma run_two_pass_attempt:
  "p_transcode_video two_pass_backend 3 7 ''abc'' world_abc =
    (Some (Inr ()),
     world_abc\<lparr>pstates := [''abc'' \<mapsto> \<lparr>started_at = 7, progress = 100, status = STATUS_SUCCESS, message = []\<rparr>],
       formats := [\<lparr>format_video = ''abc'', format_name = ''HD'', bitrate = 5400\<rparr>,
                   \<lparr>format_video = ''abc'', format_name = ''SD'', bitrate = 900\<rparr>],
       trace := [EvSavePS ''abc'' \<lparr>started_at = 7, progress = 0, status = STATUS_PENDING, message = []\<rparr>,
                 EvStartTranscoding ''abc'',
                 EvCheckProgress 0 ''a'' (Progress 100 True),
                 EvCheckProgress 1 ''b'' (Progress 50 False),
                 EvSavePS ''abc'' \<lparr>started_at = 7, progress = 75, status = STATUS_PROCESSING, message = []\<rparr>,
                 EvCheckProgress 1 ''b'' (Progress 100 True),
                 EvSavePS ''abc'' \<lparr>started_at = 7, progress = 100, status = STATUS_PROCESSING, message = []\<rparr>,
                 EvDeleteFormats ''abc'', EvIterFormats ''abc'',
                 EvCreateFormat \<lparr>format_video = ''abc'', format_name = ''HD'', bitrate = 5400\<rparr>,
                 EvCreateFormat \<lparr>format_video = ''abc'', format_name = ''SD'', bitrate = 900\<rparr>,
                 EvSavePS ''abc'' \<lparr>started_at = 7, progress = 100, status = STATUS_SUCCESS, message = []\<rparr>]\<rparr>)"
  by (simp add: run_defs two_pass_backend_def)

lemma run_dipping:
  "p_transcode_video dipping_backend 5 7 ''abc'' world_abc =
    (Some (Inr ()),
     world_abc\<lparr>pstates := [''abc'' \<mapsto> \<lparr>started_at = 7, progress = 100, status = STATUS_SUCCESS, message = []\<rparr>],
       formats := [\<lparr>format_video = ''abc'', format_name = ''HD'', bitrate = 5400\<rparr>,
                   \<lparr>format_video = ''abc'', format_name = ''SD'', bitrate = 900\<rparr>],
       trace := [EvSavePS ''abc'' \<lparr>started_at = 7, progress = 0, status = STATUS_PENDING, message = []\<rparr>,
                 EvStartTranscoding ''abc'',
                 EvCheckProgress 0 ''job'' (Progress 50 False),
                 EvSavePS ''abc'' \<lparr>started_at = 7, progress = 50, status = STATUS_PROCESSING, message = []\<rparr>,
                 EvCheckProgress 0 ''job'' (Progress 30 False),
                 EvSavePS ''abc'' \<lparr>started_at = 7, progress = 30, status = STATUS_PROCESSING, message = []\<rparr>,
                 EvCheckProgress 0 ''job'' (Progress 100 True),
                 EvSavePS ''abc'' \<lparr>started_at = 7, progress = 100, status = STATUS_PROCESSING, message = []\<rparr>,
                 EvDeleteFormats ''abc'', EvIterFormats ''abc'',
                 EvCreateFormat \<lparr>format_video = ''abc'', format_name = ''HD'', bitrate = 5400\<rparr>,
                 EvCreateFormat \<lparr>format_video = ''abc'', format_name = ''SD'', bitrate = 900\<rparr>,
                 EvSavePS ''abc'' \<lparr>started_at = 7, progress = 100, status = STATUS_SUCCESS, message = []\<rparr>]\<rparr>)"
  by (simp add: run_defs dipping_backend_def eval_nat_numeral)

section \<open>The claims\<close>

text \<open>
  Claim C1. The claim describes the check of an upload url whose upload is complete: the
  url is marked as used, the Video is got or created, and the transcoding is dispatched by
  the call that created it. The code does not reach any of this. On every exit of its
  \<^verbatim>\<open>try\<close>, the \<^verbatim>\<open>finally\<close> block of \<^verbatim>\<open>_monitor_upload\<close> reads
  \<^verbatim>\<open>upload_url.last_checked\<close>, which class VideoUploadUrl does not declare. So
  whenever the upload url exists and the backend reports the upload complete, the function
  raises AttributeError, and the world it leaves differs from the one before only by the
  backend call in the trace: the url is not saved as used, no Video row is created and no
  task is dispatched.
\<close>

theorem monitor_upload_uploaded_raises:
  assumes row: "get_row (\<lambda>u. public_video_id u = pid) (upload_urls w) = Inr u"
      and up: "be_check_video be (trace w) pid = None"
  shows "p_monitor_upload be t pid w =
           (Inl (Exn AttributeError [PStr ''VideoUploadUrl object has no attribute last_checked'']),
            w\<lparr>trace := trace w @ [EvCheckVideo pid]\<rparr>)"
proof -
  have pu: "public_video_id u = pid" using get_row_unique(1)[OF row] .
  show ?thesis
    using row up pu by (simp add: p_monitor_upload_def Let_def read_last_checked_def emit_def)
qed

theorem monitor_upload_uploaded_raises_witness:
  "get_row (\<lambda>u. public_video_id u = ''abc'') (upload_urls world_url) = Inr url_abc \<and>
   be_check_video quiet_backend (trace world_url) ''abc'' = None \<and>
   p_monitor_upload quiet_backend 50 ''abc'' world_url =
     (Inl (Exn AttributeError [PStr ''VideoUploadUrl object has no attribute last_checked'']),
      world_url\<lparr>trace := [EvCheckVideo ''abc'']\<rparr>) \<and>
   upload_urls (snd (p_monitor_upload quiet_backend 50 ''abc'' world_url)) = [url_abc] \<and>
   was_used url_abc = False \<and>
   videos (snd (p_monitor_upload quiet_backend 50 ''abc'' world_url)) = [] \<and>
   sent_tasks (trace (snd (p_monitor_upload quiet_backend 50 ''abc'' world_url))) = []"
proof -
  have row: "get_row (\<lambda>u. public_video_id u = ''abc'') (upload_urls world_url) = Inr url_abc"
    by (simp add: get_row_def world_url_def empty_world_def url_abc_def)
  have up: "be_check_video quiet_backend (trace world_url) ''abc'' = None"
    by (simp add: quiet_backend_def)
  have tr: "trace world_url = []" by (simp add: world_url_def empty_world_def)
  from monitor_upload_uploaded_raises [OF row up, of 50]
  have run: "p_monitor_upload quiet_backend 50 ''abc'' world_url =
     (Inl (Exn AttributeError [PStr ''VideoUploadUrl object has no attribute last_checked'']),
      world_url\<lparr>trace := [EvCheckVideo ''abc'']\<rparr>)"
    by (simp add: tr)
  show ?thesis
    using row up run by (simp add: world_url_def empty_world_def url_abc_def)
qed

text \<open>
  Claim C2. A run of the state machine that returns normally ends in one of two ways, told
  apart by the final status. Either the status is success, no job failed, and the events
  after the polling are: the deletion of the video's format rows, the query of the
  backend's format list, the creation of one row per entry of that list, with the name and
  the bitrate of the entry, and only then the write of status success; the video's format
  rows are then exactly those rows. Or the status is failed, some job failed, the video
  has no format row left, the message is the failure messages of the jobs, in order, with
  a line feed between one and the next, and the backend's asset deletion was called once,
  as the last event. Before that, no snapshot had a terminal status and the backend was
  never asked to delete.
\<close>

theorem transcode_video_outcome:
  assumes run: "p_transcode_video be fuel t pid w = (Some (Inr u), w')"
  shows "\<exists>pre ps'.
     pstates w' pid = Some ps' \<and>
     deletions pre = [] \<and>
     (\<forall>s \<in> set (snapshots pre). status s = STATUS_PENDING \<or> status s = STATUS_PROCESSING) \<and>
     ((status ps' = STATUS_SUCCESS \<and> failure_messages pre = [] \<and>
       (\<exists>its.
          be_iter_formats be (trace w @ pre @ [EvDeleteFormats pid]) pid
            = (map (\<lambda>it. (fst it, Some (snd it))) its, None) \<and>
          trace w' = trace w @ pre @ [EvDeleteFormats pid, EvIterFormats pid]
                       @ map (\<lambda>it. EvCreateFormat
                                \<lparr>format_video = pid, format_name = fst it, bitrate = snd it\<rparr>) its
                       @ [EvSavePS pid ps'] \<and>
          filter (\<lambda>f. format_video f = pid) (formats w')
            = map (\<lambda>it. \<lparr>format_video = pid, format_name = fst it, bitrate = snd it\<rparr>) its))
      \<or>
      (status ps' = STATUS_FAILED \<and> failure_messages pre \<noteq> [] \<and>
       filter (\<lambda>f. format_video f = pid) (formats w') = [] \<and>
       (\<exists>ss. failure_messages pre = map PStr ss \<and>
             message ps' = butlast (concat (map (\<lambda>s. s @ [CHR 0x0A]) ss))) \<and>
       trace w' = trace w @ pre @ [EvDeleteFormats pid, EvSavePS pid ps', EvDeleteVideo pid]))"
proof -
  from p_transcode_video_returns[OF run] obtain v ps2 w3 pre where
    t3: "trace w3 = trace w @ pre" and d: "deletions pre = []" and
    st: "\<forall>s \<in> set (snapshots pre). status s = STATUS_PENDING \<or> status s = STATUS_PROCESSING" and
    f3: "formats w3 = formats w" and
    res: "resolve be pid ps2 (failure_messages pre) w3 = (Inr u, w')"
    by blast
  from resolve_returns[OF res] obtain ss where ss: "strs_of (failure_messages pre) = Some ss" and
    br: "if failure_messages pre \<noteq> [] then
        w' = emit (EvDeleteVideo pid)
               (save_ps pid (ps2\<lparr>message := join newline ss, status := STATUS_FAILED\<rparr>)
                  (delete_formats pid w3))
      else
        (\<exists>its.
           be_iter_formats be (trace w3 @ [EvDeleteFormats pid]) pid
             = (map (\<lambda>it. (fst it, Some (snd it))) its, None) \<and>
           trace w' = trace w3 @ [EvDeleteFormats pid, EvIterFormats pid]
             @ map (\<lambda>it. EvCreateFormat (format_row pid it)) its
             @ [EvSavePS pid (ps2\<lparr>message := join newline ss, status := STATUS_SUCCESS\<rparr>)] \<and>
           formats w' = filter (\<lambda>f. format_video f \<noteq> pid) (formats w3) @ map (format_row pid) its \<and>
           pstates w' = (pstates w3)(pid \<mapsto> ps2\<lparr>message := join newline ss, status := STATUS_SUCCESS\<rparr>))"
    by blast
  have msgs: "failure_messages pre = map PStr ss" using ss by (simp add: strs_of_Some)
  show ?thesis
  proof (cases "failure_messages pre = []")
    case False
    define ps' where "ps' = ps2\<lparr>message := join newline ss, status := STATUS_FAILED\<rparr>"
    from br False have w': "w' = emit (EvDeleteVideo pid) (save_ps pid ps' (delete_formats pid w3))"
      by (simp add: ps'_def)
    have "pstates w' pid = Some ps'" by (simp add: w')
    moreover have "status ps' = STATUS_FAILED"
      "message ps' = butlast (concat (map (\<lambda>s. s @ [CHR 0x0A]) ss))"
      by (simp_all add: ps'_def join_as_concat)
    moreover have "filter (\<lambda>f. format_video f = pid) (formats w') = []"
      by (simp add: w' delete_formats_def emit_def)
    moreover have "trace w' = trace w @ pre @ [EvDeleteFormats pid, EvSavePS pid ps', EvDeleteVideo pid]"
      by (simp add: w' delete_formats_def emit_def t3)
    ultimately show ?thesis using d st msgs False by blast
  next
    case True
    define ps' where "ps' = ps2\<lparr>message := join newline ss, status := STATUS_SUCCESS\<rparr>"
    from br True obtain its where
      it: "be_iter_formats be (trace w @ pre @ [EvDeleteFormats pid]) pid
             = (map (\<lambda>it. (fst it, Some (snd it))) its, None)" and
      tr: "trace w' = trace w @ pre @ [EvDeleteFormats pid, EvIterFormats pid]
             @ map (\<lambda>it. EvCreateFormat (format_row pid it)) its @ [EvSavePS pid ps']" and
      fm: "formats w' = filter (\<lambda>f. format_video f \<noteq> pid) (formats w3) @ map (format_row pid) its" and
      pst: "pstates w' = (pstates w3)(pid \<mapsto> ps')"
      by (auto simp: t3 ps'_def)
    have "pstates w' pid = Some ps'" by (simp add: pst)
    moreover have "status ps' = STATUS_SUCCESS" by (simp add: ps'_def)
    moreover have "trace w' = trace w @ pre @ [EvDeleteFormats pid, EvIterFormats pid]
                       @ map (\<lambda>it. EvCreateFormat
                                \<lparr>format_video = pid, format_name = fst it, bitrate = snd it\<rparr>) its
                       @ [EvSavePS pid ps']"
      using tr by (simp add: format_row_def)
    moreover have "filter (\<lambda>f. format_video f = pid) (formats w')
            = map (\<lambda>it. \<lparr>format_video = pid, format_name = fst it, bitrate = snd it\<rparr>) its"
      by (simp add: fm filter_map o_def format_row_def)
    ultimately show ?thesis using d st True it by blast
  qed
qed

theorem transcode_video_outcome_witness:
  "p_transcode_video quiet_backend 3 7 ''abc'' world_abc =
    (Some (Inr ()),
     world_abc\<lparr>pstates := [''abc'' \<mapsto> \<lparr>started_at = 7, progress = 100, status = STATUS_SUCCESS, message = []\<rparr>],
       formats := [\<lparr>format_video = ''abc'', format_name = ''HD'', bitrate = 5400\<rparr>,
                   \<lparr>format_video = ''abc'', format_name = ''SD'', bitrate = 900\<rparr>],
       trace := [EvSavePS ''abc'' \<lparr>started_at = 7, progress = 0, status = STATUS_PENDING, message = []\<rparr>,
                 EvStartTranscoding ''abc'',
                 EvCheckProgress 0 ''job'' (Progress 100 True),
                 EvSavePS ''abc'' \<lparr>started_at = 7, progress = 100, status = STATUS_PROCESSING, message = []\<rparr>,
                 EvDeleteFormats ''abc'', EvIterFormats ''abc'',
                 EvCreateFormat \<lparr>format_video = ''abc'', format_name = ''HD'', bitrate = 5400\<rparr>,
                 EvCreateFormat \<lparr>format_video = ''abc'', format_name = ''SD'', bitrate = 900\<rparr>,
                 EvSavePS ''abc'' \<lparr>started_at = 7, progress = 100, status = STATUS_SUCCESS, message = []\<rparr>]\<rparr>) \<and>
   p_transcode_video failing_backend 3 7 ''abc'' world_abc =
    (Some (Inr ()),
     world_abc\<lparr>pstates := [''abc'' \<mapsto> \<lparr>started_at = 7, progress = 100 / 3, status = STATUS_FAILED,
                                        message = ''codec error'' @ [CHR 0x0A] @ ''disk full''\<rparr>],
       formats := [],
       trace := [EvSavePS ''abc'' \<lparr>started_at = 7, progress = 0, status = STATUS_PENDING, message = []\<rparr>,
                 EvStartTranscoding ''abc'',
                 EvCheckProgress 0 ''j1'' (Progress 100 True),
                 EvCheckProgress 1 ''j2'' (Raises (Exn TranscodingFailed [PStr ''codec error''])),
                 EvCheckProgress 2 ''j3'' (Raises (Exn TranscodingFailed [PStr ''disk full''])),
                 EvSavePS ''abc'' \<lparr>started_at = 7, progress = 100 / 3, status = STATUS_PROCESSING, message = []\<rparr>,
                 EvDeleteFormats ''abc'',
                 EvSavePS ''abc'' \<lparr>started_at = 7, progress = 100 / 3, status = STATUS_FAILED,
                                  message = ''codec error'' @ [CHR 0x0A] @ ''disk full''\<rparr>,
                 EvDeleteVideo ''abc'']\<rparr>) \<and>
   (\<exists>ss. message \<lparr>started_at = 7, progress = 100 / 3, status = STATUS_FAILED,
                   message = ''codec error'' @ [CHR 0x0A] @ ''disk full''\<rparr>
            = butlast (concat (map (\<lambda>s. s @ [CHR 0x0A]) ss)) \<and>
         ss = [''codec error'', ''disk full''])"
proof -
  let ?wq = "snd (p_transcode_video quiet_backend 3 7 ''abc'' world_abc)"
  let ?wf = "snd (p_transcode_video failing_backend 3 7 ''abc'' world_abc)"
  have q: "p_transcode_video quiet_backend 3 7 ''abc'' world_abc = (Some (Inr ()), ?wq)"
    by (simp add: run_quiet)
  have f: "p_transcode_video failing_backend 3 7 ''abc'' world_abc = (Some (Inr ()), ?wf)"
    by (simp add: run_failing)
  from transcode_video_outcome[OF f] obtain pre ps' where
    o: "pstates ?wf ''abc'' = Some ps'"
       "status ps' = STATUS_SUCCESS \<and> failure_messages pre = [] \<or>
        status ps' = STATUS_FAILED \<and> failure_messages pre \<noteq> [] \<and>
        (\<exists>ss. failure_messages pre = map PStr ss \<and>
              message ps' = butlast (concat (map (\<lambda>s. s @ [CHR 0x0A]) ss))) \<and>
        trace ?wf = trace world_abc @ pre @ [EvDeleteFormats ''abc'', EvSavePS ''abc'' ps', EvDeleteVideo ''abc'']"
    by blast
  have ps: "ps' = \<lparr>started_at = 7, progress = 100 / 3, status = STATUS_FAILED,
                    message = ''codec error'' @ [CHR 0x0A] @ ''disk full''\<rparr>"
    using o(1) by (simp add: run_failing)
  with o(2) obtain ss where ss: "failure_messages pre = map PStr ss"
    "message ps' = butlast (concat (map (\<lambda>s. s @ [CHR 0x0A]) ss))"
    "trace ?wf = trace world_abc @ pre @ [EvDeleteFormats ''abc'', EvSavePS ''abc'' ps', EvDeleteVideo ''abc'']"
    by auto
  have "failure_messages (trace ?wf) = [PStr ''codec error'', PStr ''disk full'']"
    by (simp add: run_failing)
  with ss(3) have "failure_messages pre = [PStr ''codec error'', PStr ''disk full'']"
    by (simp add: world_abc_def empty_world_def)
  with ss(1) have "ss = [''codec error'', ''disk full'']" by auto
  with ss(2) ps show ?thesis by (simp add: run_quiet run_failing)
qed

text \<open>
  Claim C3, as the code has it. Suppose the lock was free, so that the call acquired it,
  and the attempt has ended, normally or by an exception \<open>e\<close>, which comes with the state
  of the transaction. On every exit on which the transaction is not marked for rollback,
  the lock entry is gone afterwards. If \<open>e\<close> is an instance of \<^verbatim>\<open>Exception\<close>, its
  arguments are strings and the transaction is not marked, the caller gets \<open>e\<close> itself,
  and the ProcessingState row of the video, if the video has one, is left with status
  failed and, as message, the arguments with a line feed between one and the next. If the
  transaction is marked for rollback, the update of the handler and the deletion of the
  lock entry both raise TransactionManagementError: the rows stay as the attempt left
  them, the caller gets TransactionManagementError in place of \<open>e\<close>, and the lock entry
  stays. An exception that is not an instance of \<^verbatim>\<open>Exception\<close> passes the handler:
  the caller gets it, and the rows stay as the attempt left them.
\<close>

theorem transcode_video_exception:
  assumes free: "\<not> lock_held tc (''TRANSCODE_VIDEO:'' @ pid) w"
      and att: "p_transcode_video be fuel t pid
                  (w\<lparr>cache := (cache w)(''TRANSCODE_VIDEO:'' @ pid \<mapsto> None)\<rparr>) = (Some r2, w2)"
      and run: "transcode_video be fuel tc t pid w = (r, w')"
  shows "((\<forall>e. r2 \<noteq> Inl (e, True)) \<longrightarrow> cache w' (''TRANSCODE_VIDEO:'' @ pid) = None) \<and>
         (\<forall>e ss. r2 = Inl (e, False) \<and> exn_kind e \<noteq> KeyboardInterrupt \<and> exn_kind e \<noteq> SystemExit \<and>
                 exn_args e = map PStr ss \<longrightarrow>
            r = Some (Inl e) \<and>
            (\<forall>ps. pstates w2 pid = Some ps \<and> (\<exists>v \<in> set (videos w2). public_id v = pid) \<longrightarrow>
               pstates w' pid =
                 Some (ps\<lparr>status := STATUS_FAILED,
                          message := butlast (concat (map (\<lambda>s. s @ [CHR 0x0A]) ss))\<rparr>))) \<and>
         (\<forall>e. r2 = Inl (e, True) \<longrightarrow>
            cache w' (''TRANSCODE_VIDEO:'' @ pid) = Some None \<and> pstates w' = pstates w2 \<and>
            (exn_kind e \<noteq> KeyboardInterrupt \<and> exn_kind e \<noteq> SystemExit \<and>
             (\<exists>ss. exn_args e = map PStr ss) \<longrightarrow>
               r = Some (Inl (Exn TransactionManagementError
                                [PStr ''An error occurred in the current transaction.''])))) \<and>
         (\<forall>e m. r2 = Inl (e, m) \<and> (exn_kind e = KeyboardInterrupt \<or> exn_kind e = SystemExit) \<longrightarrow>
            r = Some (Inl e) \<and> pstates w' = pstates w2)"
proof -
  let ?lock = "''TRANSCODE_VIDEO:'' @ pid"
  define w1 where "w1 = w\<lparr>cache := (cache w)(?lock \<mapsto> None)\<rparr>"
  have a: "acquire_lock tc ?lock None w = (Inr True, w1)"
    using acquire_free[OF free] by (simp add: w1_def)
  have p: "p_transcode_video be fuel t pid w1 = (Some r2, w2)" using att by (simp add: w1_def)
  have c2: "cache w2 = cache w1" using p_transcode_video_frame[OF p] by simp
  have c1: "cache w1 ?lock = Some None" by (simp add: w1_def)
  have tv: "(r, w') =
     (case r2 of
        Inr u \<Rightarrow> (Some (Inr ()), release_lock False ?lock w2)
      | Inl (e, m) \<Rightarrow>
          if is_exception e then
            (case py_join newline (exn_args e) of
               Inl e' \<Rightarrow> (Some (Inl e'), release_lock m ?lock w2)
             | Inr msg \<Rightarrow>
                 (case update_failed m pid msg w2 of
                    (Inl e', w3) \<Rightarrow> (Some (Inl e'), release_lock m ?lock w3)
                  | (Inr u, w3) \<Rightarrow> (Some (Inl e), release_lock m ?lock w3)))
          else (Some (Inl e), release_lock m ?lock w2))"
    using run unfolding transcode_video_def Let_def a
    by (simp add: p split: sum.splits prod.splits)
  have uf: "cache (snd (update_failed m pid msg w2)) = cache w2" for m msg
    using update_failed_frame[of m pid msg w2] by (metis prod.collapse)
  have one: "(\<forall>e. r2 \<noteq> Inl (e, True)) \<longrightarrow> cache w' ?lock = None"
  proof
    assume u: "\<forall>e. r2 \<noteq> Inl (e, True)"
    show "cache w' ?lock = None"
    proof (cases r2)
      case (Inr b)
      with tv show ?thesis by (simp add: release_lock_def)
    next
      case (Inl f)
      obtain e m where f: "f = (e, m)" by (cases f)
      with u Inl have m: "m = False" by auto
      from tv Inl f m uf[of False] show ?thesis
        by (auto simp: release_lock_def split: if_splits sum.splits prod.splits
            dest!: update_failed_frame)
    qed
  qed
  have two: "\<forall>e ss. r2 = Inl (e, False) \<and> is_exception e \<and> exn_args e = map PStr ss \<longrightarrow>
            r = Some (Inl e) \<and>
            (\<forall>ps. pstates w2 pid = Some ps \<and> (\<exists>v \<in> set (videos w2). public_id v = pid) \<longrightarrow>
               pstates w' pid =
                 Some (ps\<lparr>status := STATUS_FAILED,
                          message := butlast (concat (map (\<lambda>s. s @ [CHR 0x0A]) ss))\<rparr>))"
  proof (intro allI impI, elim conjE)
    fix e ss
    assume r2: "r2 = Inl (e, False)" and ie: "is_exception e" and ar: "exn_args e = map PStr ss"
    have j: "py_join newline (exn_args e) = Inr (join newline ss)"
      using ar strs_of_Some[of "exn_args e" ss] by (simp add: py_join_def)
    from tv r2 ie j have
      "(r, w') = (Some (Inl e), release_lock False ?lock (snd (update_failed False pid (join newline ss) w2)))"
      by (simp add: update_failed_def split: option.splits)
    then have r: "r = Some (Inl e)"
      and w': "w' = release_lock False ?lock (snd (update_failed False pid (join newline ss) w2))"
      by simp_all
    have "\<forall>ps. pstates w2 pid = Some ps \<and> (\<exists>v \<in> set (videos w2). public_id v = pid) \<longrightarrow>
               pstates w' pid =
                 Some (ps\<lparr>status := STATUS_FAILED,
                          message := butlast (concat (map (\<lambda>s. s @ [CHR 0x0A]) ss))\<rparr>)"
      unfolding w' by (auto simp: update_failed_def join_as_concat)
    with r show "r = Some (Inl e) \<and>
            (\<forall>ps. pstates w2 pid = Some ps \<and> (\<exists>v \<in> set (videos w2). public_id v = pid) \<longrightarrow>
               pstates w' pid =
                 Some (ps\<lparr>status := STATUS_FAILED,
                          message := butlast (concat (map (\<lambda>s. s @ [CHR 0x0A]) ss))\<rparr>))"
      by blast
  qed
  have three: "\<forall>e. r2 = Inl (e, True) \<longrightarrow>
            cache w' ?lock = Some None \<and> pstates w' = pstates w2 \<and>
            (is_exception e \<and> (\<exists>ss. exn_args e = map PStr ss) \<longrightarrow>
               r = Some (Inl transaction_management_error))"
  proof (intro allI impI)
    fix e
    assume r2: "r2 = Inl (e, True)"
    have u: "update_failed True pid msg w2 = (Inl transaction_management_error, w2)" for msg
      by (simp add: update_failed_def)
    from tv r2 u have w': "w' = w2"
      by (auto simp: release_lock_def split: if_splits sum.splits)
    have "r = Some (Inl transaction_management_error)"
      if "is_exception e \<and> (\<exists>ss. exn_args e = map PStr ss)"
    proof -
      from that obtain ss where "exn_args e = map PStr ss" by blast
      then have "py_join newline (exn_args e) = Inr (join newline ss)"
        using strs_of_Some[of "exn_args e" ss] by (simp add: py_join_def)
      with tv r2 u that show ?thesis by simp
    qed
    then show "cache w' ?lock = Some None \<and> pstates w' = pstates w2 \<and>
            (is_exception e \<and> (\<exists>ss. exn_args e = map PStr ss) \<longrightarrow>
               r = Some (Inl transaction_management_error))"
      using w' c1 c2 by simp
  qed
  have four: "\<forall>e m. r2 = Inl (e, m) \<and> \<not> is_exception e \<longrightarrow>
            r = Some (Inl e) \<and> pstates w' = pstates w2"
    using tv by auto
  have four': "\<forall>e m. r2 = Inl (e, m) \<and> (exn_kind e = KeyboardInterrupt \<or> exn_kind e = SystemExit) \<longrightarrow>
            r = Some (Inl e) \<and> pstates w' = pstates w2"
    using four by (simp add: is_exception_def)
  have two': "\<forall>e ss. r2 = Inl (e, False) \<and> exn_kind e \<noteq> KeyboardInterrupt \<and> exn_kind e \<noteq> SystemExit \<and>
                 exn_args e = map PStr ss \<longrightarrow>
            r = Some (Inl e) \<and>
            (\<forall>ps. pstates w2 pid = Some ps \<and> (\<exists>v \<in> set (videos w2). public_id v = pid) \<longrightarrow>
               pstates w' pid =
                 Some (ps\<lparr>status := STATUS_FAILED,
                          message := butlast (concat (map (\<lambda>s. s @ [CHR 0x0A]) ss))\<rparr>))"
    using two unfolding is_exception_def by (simp only: conj_assoc)
  have three': "\<forall>e. r2 = Inl (e, True) \<longrightarrow>
            cache w' ?lock = Some None \<and> pstates w' = pstates w2 \<and>
            (exn_kind e \<noteq> KeyboardInterrupt \<and> exn_kind e \<noteq> SystemExit \<and>
             (\<exists>ss. exn_args e = map PStr ss) \<longrightarrow>
               r = Some (Inl (Exn TransactionManagementError
                                [PStr ''An error occurred in the current transaction.''])))"
    using three unfolding is_exception_def transaction_management_error_def
    by (simp only: conj_assoc)
  show ?thesis by (rule conjI[OF one conjI[OF two' conjI[OF three' four']]])
qed

theorem transcode_video_exception_witness:
  "\<not> lock_held 7 (''TRANSCODE_VIDEO:'' @ ''abc'') world_abc \<and>
   p_transcode_video crashing_backend 3 7 ''abc''
      (world_abc\<lparr>cache := (cache world_abc)(''TRANSCODE_VIDEO:'' @ ''abc'' \<mapsto> None)\<rparr>)
     = (Some (Inl (Exn (OtherException ''BackendError'') [PStr ''boom'', PStr ''bang''], False)),
        snd (p_transcode_video crashing_backend 3 7 ''abc''
               (world_abc\<lparr>cache := (cache world_abc)(''TRANSCODE_VIDEO:'' @ ''abc'' \<mapsto> None)\<rparr>))) \<and>
   transcode_video crashing_backend 3 7 7 ''abc'' world_abc =
     (Some (Inl (Exn (OtherException ''BackendError'') [PStr ''boom'', PStr ''bang''])),
      world_abc\<lparr>pstates := [''abc'' \<mapsto> \<lparr>started_at = 7, progress = 0, status = STATUS_FAILED,
                                         message = ''boom'' @ [CHR 0x0A] @ ''bang''\<rparr>],
        trace := [EvSavePS ''abc'' \<lparr>started_at = 7, progress = 0, status = STATUS_PENDING, message = []\<rparr>,
                  EvStartTranscoding ''abc'',
                  EvSavePS ''abc'' \<lparr>started_at = 7, progress = 0, status = STATUS_FAILED,
                                   message = ''boom'' @ [CHR 0x0A] @ ''bang''\<rparr>]\<rparr>) \<and>
   cache (snd (transcode_video crashing_backend 3 7 7 ''abc'' world_abc))
     (''TRANSCODE_VIDEO:'' @ ''abc'') = None"
proof -
  let ?e = "Exn (OtherException ''BackendError'') [PStr ''boom'', PStr ''bang'']"
  let ?w1 = "world_abc\<lparr>cache := (cache world_abc)(''TRANSCODE_VIDEO:'' @ ''abc'' \<mapsto> None)\<rparr>"
  let ?w2 = "snd (p_transcode_video crashing_backend 3 7 ''abc'' ?w1)"
  let ?w' = "snd (transcode_video crashing_backend 3 7 7 ''abc'' world_abc)"
  have free: "\<not> lock_held 7 (''TRANSCODE_VIDEO:'' @ ''abc'') world_abc"
    by (simp add: lock_held_def world_abc_def empty_world_def)
  have att: "p_transcode_video crashing_backend 3 7 ''abc'' ?w1 = (Some (Inl (?e, False)), ?w2)"
    by (simp add: run_defs crashing_backend_def)
  have run: "transcode_video crashing_backend 3 7 7 ''abc'' world_abc
               = (fst (transcode_video crashing_backend 3 7 7 ''abc'' world_abc), ?w')"
    by simp
  from transcode_video_exception [OF free att run]
  have "cache ?w' (''TRANSCODE_VIDEO:'' @ ''abc'') = None" by blast
  with free att show ?thesis by (simp add: run_crashing)
qed

text \<open>
  Claim C3 as stated fails in three ways. A KeyboardInterrupt raised inside the attempt
  reaches the caller with the status still pending. Inside an atomic block, a format
  without bitrate makes the insert fail with IntegrityError; the caller gets
  TransactionManagementError instead, the status is still processing and the lock entry is
  still there, so that a later call finds the lock held. And an exception with an argument
  that is not a string makes the \<^verbatim>\<open>join\<close> of the handler raise TypeError, which
  reaches the caller with the status still pending.
\<close>

theorem transcode_video_handler_counterexample:
  "fst (transcode_video interrupted_backend 3 7 7 ''abc'' world_abc)
     = Some (Inl (Exn KeyboardInterrupt [])) \<and>
   map_option status (pstates (snd (transcode_video interrupted_backend 3 7 7 ''abc'' world_abc)) ''abc'')
     = Some STATUS_PENDING \<and>
   fst (p_transcode_video null_bitrate_backend 3 7 ''abc''
          (world_abc_atomic\<lparr>cache := [''TRANSCODE_VIDEO:abc'' \<mapsto> None]\<rparr>))
     = Some (Inl (Exn IntegrityError [PStr ''NOT NULL constraint failed: pipeline_videoformat.bitrate''],
                  True)) \<and>
   fst (transcode_video null_bitrate_backend 3 7 7 ''abc'' world_abc_atomic)
     = Some (Inl (Exn TransactionManagementError [PStr ''An error occurred in the current transaction.''])) \<and>
   map_option status
     (pstates (snd (transcode_video null_bitrate_backend 3 7 7 ''abc'' world_abc_atomic)) ''abc'')
     = Some STATUS_PROCESSING \<and>
   cache (snd (transcode_video null_bitrate_backend 3 7 7 ''abc'' world_abc_atomic))
     ''TRANSCODE_VIDEO:abc'' = Some None \<and>
   lock_held 8 ''TRANSCODE_VIDEO:abc''
     (snd (transcode_video null_bitrate_backend 3 7 7 ''abc'' world_abc_atomic)) \<and>
   fst (transcode_video oserror_backend 3 7 7 ''abc'' world_abc)
     = Some (Inl (Exn TypeError [PStr ''sequence item: expected str instance''])) \<and>
   map_option status (pstates (snd (transcode_video oserror_backend 3 7 7 ''abc'' world_abc)) ''abc'')
     = Some STATUS_PENDING"
  by (simp add: run_interrupted run_null_bitrate_atomic run_oserror lock_held_def
      transaction_management_error_def)
     (simp add: run_defs null_bitrate_backend_def world_abc_atomic_def)



text \<open>
  Claim C5, as the code has it. The events of the poll loop, started as
  \<open>p_transcode_video\<close> starts it and run on any amount of fuel, are a sequence of passes,
  followed by the calls of a pass that an exception cut short if the loop ended by one.
  Each pass consists of the \<^verbatim>\<open>check_progress\<close> calls for exactly the jobs that had not
  resolved before it, in the order of their indexes, followed by one write of the
  ProcessingState row. The row written has status processing, and its progress is the
  arithmetic mean, over all jobs, of the latest known progress of each job at that moment:
  the value returned by the last \<^verbatim>\<open>check_progress\<close> call for the job that returned,
  and 0 if there was none. A job that resolved to success therefore counts at the value
  the backend returned together with \<^verbatim>\<open>finished\<close>. The row in the table after the
  loop is the last one written.
\<close>

theorem poll_loop_progress_is_mean:
  assumes run: "poll_loop fuel be pid jobs ps (init_poll_state jobs) w = (r, w')"
  shows "\<exists>blocks rest.
     trace w' = trace w @ concat (map (\<lambda>b. fst b @ [EvSavePS pid (snd b)]) blocks) @ rest \<and>
     length (checked rest) = length rest \<and>
     ((\<forall>e. r \<noteq> Some (Inl e)) \<longrightarrow> rest = []) \<and>
     pstates w' = (if blocks = [] then pstates w else (pstates w)(pid \<mapsto> snd (last blocks))) \<and>
     (\<forall>k < length blocks.
        length (checked (fst (blocks ! k))) = length (fst (blocks ! k)) \<and>
        checked (fst (blocks ! k)) =
          filter (\<lambda>i. \<not> resolved (concat (map (\<lambda>b. fst b @ [EvSavePS pid (snd b)]) (take k blocks))) i)
            [0..<length jobs] \<and>
        snd (blocks ! k) =
          ps\<lparr>progress :=
               sum_list (map (observed 0 (concat (map (\<lambda>b. fst b @ [EvSavePS pid (snd b)]) (take k blocks))
                                            @ fst (blocks ! k)))
                           [0..<length jobs]) / of_nat (length jobs),
             status := STATUS_PROCESSING\<rparr>)"
proof -
  have len: "length (jobs_progress (init_poll_state jobs)) = length jobs"
    by (simp add: init_poll_state_def)
  have prog: "\<forall>i < length jobs. jobs_progress (init_poll_state jobs) ! i = observed 0 [] i"
    by (simp add: init_poll_state_def)
  have res: "\<forall>i. i \<in> set (success_job_indexes (init_poll_state jobs))
                     \<union> set (error_job_indexes (init_poll_state jobs)) \<longleftrightarrow> resolved [] i"
    by (simp add: init_poll_state_def)
  from poll_loop_blocks[OF run len prog res] show ?thesis by simp
qed

theorem poll_loop_progress_is_mean_witness:
  "poll_loop 3 two_pass_backend ''abc'' [''a'', ''b''] default_ps (init_poll_state [''a'', ''b'']) world_abc =
     (Some (Inr (default_ps\<lparr>progress := 100, status := STATUS_PROCESSING\<rparr>,
                 \<lparr>success_job_indexes = [0, 1], error_job_indexes = [], errors = [],
                  jobs_progress = [100, 100]\<rparr>)),
      world_abc\<lparr>pstates := [''abc'' \<mapsto> default_ps\<lparr>progress := 100, status := STATUS_PROCESSING\<rparr>],
        trace := [EvCheckProgress 0 ''a'' (Progress 100 True),
                  EvCheckProgress 1 ''b'' (Progress 50 False),
                  EvSavePS ''abc'' (default_ps\<lparr>progress := 75, status := STATUS_PROCESSING\<rparr>),
                  EvCheckProgress 1 ''b'' (Progress 100 True),
                  EvSavePS ''abc'' (default_ps\<lparr>progress := 100, status := STATUS_PROCESSING\<rparr>)]\<rparr>) \<and>
   (\<exists>blocks.
      [EvCheckProgress 0 ''a'' (Progress 100 True),
       EvCheckProgress 1 ''b'' (Progress 50 False),
       EvSavePS ''abc'' (default_ps\<lparr>progress := 75, status := STATUS_PROCESSING\<rparr>),
       EvCheckProgress 1 ''b'' (Progress 100 True),
       EvSavePS ''abc'' (default_ps\<lparr>progress := 100, status := STATUS_PROCESSING\<rparr>)]
        = concat (map (\<lambda>b. fst b @ [EvSavePS ''abc'' (snd b)]) blocks) \<and>
      blocks \<noteq> [] \<and>
      default_ps\<lparr>progress := 100, status := STATUS_PROCESSING\<rparr> = snd (last blocks))"
proof -
  let ?run = "poll_loop 3 two_pass_backend ''abc'' [''a'', ''b''] default_ps
                 (init_poll_state [''a'', ''b'']) world_abc"
  have run: "?run = (fst ?run, snd ?run)" by simp
  from poll_loop_progress_is_mean [OF run] obtain blocks rest where b:
    "trace (snd ?run) = trace world_abc
        @ concat (map (\<lambda>b. fst b @ [EvSavePS ''abc'' (snd b)]) blocks) @ rest"
    "(\<forall>e. fst ?run \<noteq> Some (Inl e)) \<longrightarrow> rest = []"
    "pstates (snd ?run) = (if blocks = [] then pstates world_abc
                          else (pstates world_abc)(''abc'' \<mapsto> snd (last blocks)))"
    by blast
  have "\<forall>e. fst ?run \<noteq> Some (Inl e)" by (simp add: run_two_pass)
  with b(2) have rest: "rest = []" by blast
  have tr: "[EvCheckProgress 0 ''a'' (Progress 100 True),
       EvCheckProgress 1 ''b'' (Progress 50 False),
       EvSavePS ''abc'' (default_ps\<lparr>progress := 75, status := STATUS_PROCESSING\<rparr>),
       EvCheckProgress 1 ''b'' (Progress 100 True),
       EvSavePS ''abc'' (default_ps\<lparr>progress := 100, status := STATUS_PROCESSING\<rparr>)]
        = concat (map (\<lambda>b. fst b @ [EvSavePS ''abc'' (snd b)]) blocks)"
    using b(1) rest by (simp add: run_two_pass) (simp add: world_abc_def empty_world_def)
  then have ne: "blocks \<noteq> []" by auto
  have "pstates (snd ?run) ''abc'' = Some (default_ps\<lparr>progress := 100, status := STATUS_PROCESSING\<rparr>)"
    by (simp add: run_two_pass)
  with b(3) ne have "default_ps\<lparr>progress := 100, status := STATUS_PROCESSING\<rparr> = snd (last blocks)"
    by simp
  with tr ne have ex: "\<exists>blocks.
      [EvCheckProgress 0 ''a'' (Progress 100 True),
       EvCheckProgress 1 ''b'' (Progress 50 False),
       EvSavePS ''abc'' (default_ps\<lparr>progress := 75, status := STATUS_PROCESSING\<rparr>),
       EvCheckProgress 1 ''b'' (Progress 100 True),
       EvSavePS ''abc'' (default_ps\<lparr>progress := 100, status := STATUS_PROCESSING\<rparr>)]
        = concat (map (\<lambda>b. fst b @ [EvSavePS ''abc'' (snd b)]) blocks) \<and>
      blocks \<noteq> [] \<and>
      default_ps\<lparr>progress := 100, status := STATUS_PROCESSING\<rparr> = snd (last blocks)"
    by blast
  show ?thesis
    by (rule conjI, rule run_two_pass, rule ex)
qed

text \<open>
  Claim C5 as stated fails when the backend reports a job finished below 100: the job has
  resolved to success and the persisted mean counts it at 80.
\<close>

theorem success_below_100_counterexample:
  "fst (poll_loop 3 early_finish_backend ''abc'' [''job''] default_ps (init_poll_state [''job'']) world_abc)
     = Some (Inr (default_ps\<lparr>progress := 80, status := STATUS_PROCESSING\<rparr>,
                 \<lparr>success_job_indexes = [0], error_job_indexes = [], errors = [],
                  jobs_progress = [80]\<rparr>)) \<and>
   snapshots (trace (snd (poll_loop 3 early_finish_backend ''abc'' [''job''] default_ps
                            (init_poll_state [''job'']) world_abc)))
     = [default_ps\<lparr>progress := 80, status := STATUS_PROCESSING\<rparr>] \<and>
   progress (default_ps\<lparr>progress := 80, status := STATUS_PROCESSING\<rparr>) \<noteq> 100 / 1"
  by (simp add: run_early_finish)

text \<open>
  Claim C6, as the code has it. Take the events of one run of \<open>p_transcode_video\<close>,
  whatever its outcome, and suppose every progress value the backend returned in it lies
  in [0,100]. Then every persisted progress value lies in [0,100]. If moreover the values
  returned for each job never decrease from one call to the next, the persisted progress
  values never decrease either.
\<close>

theorem persisted_progress_bounds:
  assumes run: "p_transcode_video be fuel t pid w = (r, w')"
      and ext: "trace w' = trace w @ new"
      and rng: "\<forall>i. \<forall>p \<in> set (job_reports i new). 0 \<le> p \<and> p \<le> 100"
  shows "(\<forall>s \<in> set (snapshots new). 0 \<le> progress s \<and> progress s \<le> 100) \<and>
         ((\<forall>i. sorted (job_reports i new)) \<longrightarrow> sorted (map progress (snapshots new)))"
  using run
proof (cases rule: p_transcode_video_snapshots)
  case idle
  with ext have "new = []" by simp
  then show ?thesis by simp
next
  case (started ps1 jobs ln rn)
  from started(2) ext have new: "new = EvSavePS pid ps1 # EvStartTranscoding pid # ln @ rn"
    by simp
  have rep: "job_reports i new = job_reports i ln" for i
    using started(3) by (simp add: new)
  have rng': "\<forall>i. \<forall>p \<in> set (job_reports i ln). 0 \<le> p \<and> p \<le> 100"
    using rng rep by simp
  have loop: "0 \<le> progress s \<and> progress s \<le> 100" if s: "s \<in> set (snapshots ln)" for s
  proof -
    from snapshot_member_decomp[OF s] obtain pre p post where d: "ln = pre @ EvSavePS p s # post"
      by blast
    with started(4) have m: "progress s = mean_observed (length jobs) pre" by blast
    have "\<forall>i. \<forall>p \<in> set (job_reports i pre). 0 \<le> p \<and> p \<le> 100"
      using rng' d by auto
    from mean_observed_bounds[OF this] m show ?thesis by simp
  qed
  have final: "\<forall>s \<in> set (snapshots rn). 0 \<le> progress s \<and> progress s \<le> 100"
  proof (cases "snapshots ln = []")
    case True
    with started(5) show ?thesis by auto
  next
    case False
    then have "last (snapshots ln) \<in> set (snapshots ln)" by simp
    from loop[OF this] started(5) False show ?thesis by auto
  qed
  have sn: "snapshots new = ps1 # snapshots ln @ snapshots rn" by (simp add: new)
  have bounds: "\<forall>s \<in> set (snapshots new). 0 \<le> progress s \<and> progress s \<le> 100"
    unfolding sn using started(1) loop final by auto
  have "sorted (map progress (snapshots new))" if srt: "\<forall>i. sorted (job_reports i new)"
  proof -
    have srt': "\<forall>i. sorted (job_reports i ln)" using srt rep by simp
    have rise: "\<forall>pre ext rest. ln = pre @ ext @ rest \<longrightarrow>
        mean_observed (length jobs) pre \<le> mean_observed (length jobs) (pre @ ext)"
    proof (intro allI impI)
      fix pre ext rest assume d: "ln = pre @ ext @ rest"
      have "\<forall>i. sorted (job_reports i (pre @ ext))"
        using srt' d by (simp add: sorted_append)
      moreover have "\<forall>i. \<forall>p \<in> set (job_reports i (pre @ ext)). 0 \<le> p"
        using rng' d by auto
      ultimately show "mean_observed (length jobs) pre \<le> mean_observed (length jobs) (pre @ ext)"
        by (rule mean_observed_rises)
    qed
    have sl: "sorted (map progress (snapshots ln))"
      using started(4) rise by (rule snapshots_sorted)
    have tail: "sorted (map progress (snapshots ln) @ map progress (snapshots rn))"
    proof (cases "snapshots rn = []")
      case True
      with sl show ?thesis by simp
    next
      case False
      with started(5) obtain s where s: "snapshots rn = [s]"
        "progress s = (if snapshots ln = [] then 0 else progress (last (snapshots ln)))"
        by blast
      show ?thesis
      proof (cases "snapshots ln = []")
        case True
        with s show ?thesis by simp
      next
        case ne: False
        then have "progress s = last (map progress (snapshots ln))"
          using s(2) by (simp add: last_map)
        moreover have "\<forall>x \<in> set (map progress (snapshots ln)). x \<le> last (map progress (snapshots ln))"
          using sl sorted_below_last by blast
        ultimately show ?thesis using sl s(1) by (simp add: sorted_append)
      qed
    qed
    have "\<forall>x \<in> set (map progress (snapshots ln) @ map progress (snapshots rn)). progress ps1 \<le> x"
      using started(1) loop final by auto
    with tail show ?thesis unfolding sn by simp
  qed
  with bounds show ?thesis by blast
qed

theorem persisted_progress_bounds_witness:
  "job_reports 0 (trace (snd (p_transcode_video two_pass_backend 3 7 ''abc'' world_abc))) = [100] \<and>
   job_reports 1 (trace (snd (p_transcode_video two_pass_backend 3 7 ''abc'' world_abc))) = [50, 100] \<and>
   map progress (snapshots (trace (snd (p_transcode_video two_pass_backend 3 7 ''abc'' world_abc))))
     = [0, 75, 100, 100] \<and>
   sorted (map progress (snapshots (trace (snd (p_transcode_video two_pass_backend 3 7 ''abc'' world_abc)))))"
proof -
  let ?run = "p_transcode_video two_pass_backend 3 7 ''abc'' world_abc"
  have run: "?run = (fst ?run, snd ?run)" by simp
  have ext: "trace (snd ?run) = trace world_abc @ trace (snd ?run)"
    by (simp add: world_abc_def empty_world_def)
  have rng: "\<forall>i. \<forall>p \<in> set (job_reports i (trace (snd ?run))). 0 \<le> p \<and> p \<le> 100"
    by (simp add: run_two_pass_attempt)
  have srt: "\<forall>i. sorted (job_reports i (trace (snd ?run)))"
    by (simp add: run_two_pass_attempt)
  have reps: "job_reports 0 (trace (snd ?run)) = [100]" "job_reports 1 (trace (snd ?run)) = [50, 100]"
    by (simp_all add: run_two_pass_attempt)
  have vals: "map progress (snapshots (trace (snd ?run))) = [0, 75, 100, 100]"
    by (simp add: run_two_pass_attempt)
  from persisted_progress_bounds [OF run ext rng] srt
  have "sorted (map progress (snapshots (trace (snd ?run))))" by blast
  with reps vals show ?thesis by blast
qed

text \<open>
  Claim C6 as stated fails when the backend lowers the progress of a job: all reported
  values are within [0,100], and the snapshots go 0, 50, 30, 100.
\<close>

theorem progress_dips_counterexample:
  "job_reports 0 (trace (snd (p_transcode_video dipping_backend 5 7 ''abc'' world_abc)))
     = [50, 30, 100] \<and>
   map progress (snapshots (trace (snd (p_transcode_video dipping_backend 5 7 ''abc'' world_abc))))
     = [0, 50, 30, 100, 100] \<and>
   \<not> sorted (map progress
       (snapshots (trace (snd (p_transcode_video dipping_backend 5 7 ''abc'' world_abc)))))"
  by (simp add: run_dipping)

text \<open>
  Claim C7. When the backend answers the check with VideoNotUploaded, the claim has the
  function record the time of the check and return. In the code the \<^verbatim>\<open>return\<close> of
  the handler is replaced by the AttributeError of the \<^verbatim>\<open>finally\<close> block, the same
  read of \<^verbatim>\<open>last_checked\<close> as in claim C1: the function raises, and nothing but the
  trace changes. So no Video row is created and nothing is dispatched, as the claim says,
  but the function does not return and no time of the check is recorded.
\<close>

theorem monitor_upload_not_uploaded_raises:
  assumes row: "get_row (\<lambda>u. public_video_id u = pid) (upload_urls w) = Inr u"
      and ans: "be_check_video be (trace w) pid = Some e"
      and kind: "exn_kind e = VideoNotUploaded"
  shows "p_monitor_upload be t pid w =
           (Inl (Exn AttributeError [PStr ''VideoUploadUrl object has no attribute last_checked'']),
            w\<lparr>trace := trace w @ [EvCheckVideo pid]\<rparr>)"
proof -
  have pu: "public_video_id u = pid" using get_row_unique(1)[OF row] .
  show ?thesis
    using row ans pu by (simp add: p_monitor_upload_def Let_def read_last_checked_def emit_def)
qed

theorem monitor_upload_not_uploaded_raises_witness:
  "get_row (\<lambda>u. public_video_id u = ''abc'') (upload_urls world_url) = Inr url_abc \<and>
   be_check_video not_uploaded_backend (trace world_url) ''abc'' = Some (Exn VideoNotUploaded []) \<and>
   p_monitor_upload not_uploaded_backend 50 ''abc'' world_url =
     (Inl (Exn AttributeError [PStr ''VideoUploadUrl object has no attribute last_checked'']),
      world_url\<lparr>trace := [EvCheckVideo ''abc'']\<rparr>)"
proof -
  have row: "get_row (\<lambda>u. public_video_id u = ''abc'') (upload_urls world_url) = Inr url_abc"
    by (simp add: get_row_def world_url_def empty_world_def url_abc_def)
  have ans: "be_check_video not_uploaded_backend (trace world_url) ''abc''
               = Some (Exn VideoNotUploaded [])"
    by (simp add: not_uploaded_backend_def)
  have tr: "trace world_url = []" by (simp add: world_url_def empty_world_def)
  from monitor_upload_not_uploaded_raises [OF row ans, of 50]
  have "p_monitor_upload not_uploaded_backend 50 ''abc'' world_url =
     (Inl (Exn AttributeError [PStr ''VideoUploadUrl object has no attribute last_checked'']),
      world_url\<lparr>trace := [EvCheckVideo ''abc'']\<rparr>)"
    by (simp add: tr)
  with row ans show ?thesis by simp
qed

text \<open>
  Claim C8, as the code has it. For a payload that decodes as UTF-8, the text examined is
  the decoded text without the byte-order marks, line feeds and carriage returns at its two
  ends: what is cut off on either side consists of these three characters only, and what
  remains neither starts nor ends with one. If that text is detected as WebVTT, it is
  handed to the backend as it is. If it is detected as another format, the text handed to
  the backend is the output of the WebVTT writer, and if the conversion raises, the
  exception leaves the function and nothing is uploaded. If the detection returns no
  format, SubtitleInvalid is raised and nothing is uploaded; the endpoint answers 400 and
  no Subtitle row remains.
\<close>

theorem upload_subtitle_normalizes:
  assumes dec: "utf8_decode content = Some c0"
  shows "(detect_format pc (py_strip strip_chars c0) = Inr (Some WebVTTReader) \<longrightarrow>
            upload_subtitle pc be pid sid lang content w
              = ((case be_upload_subtitle be (trace w) pid sid lang (py_strip strip_chars c0) of
                    None \<Rightarrow> Inr () | Some e \<Rightarrow> Inl e),
                 w\<lparr>trace := trace w @ [EvUploadSubtitle pid sid lang (py_strip strip_chars c0)]\<rparr>)) \<and>
         (\<exists>pre post. c0 = pre @ py_strip strip_chars c0 @ post \<and>
            set pre \<subseteq> {0xFEFF, 0x0A, 0x0D} \<and> set post \<subseteq> {0xFEFF, 0x0A, 0x0D} \<and>
            (py_strip strip_chars c0 \<noteq> [] \<longrightarrow>
               hd (py_strip strip_chars c0) \<notin> {0xFEFF, 0x0A, 0x0D} \<and>
               last (py_strip strip_chars c0) \<notin> {0xFEFF, 0x0A, 0x0D})) \<and>
         (\<forall>rd. detect_format pc (py_strip strip_chars c0) = Inr (Some rd) \<and> rd \<noteq> WebVTTReader \<longrightarrow>
            (case write_webvtt pc rd (py_strip strip_chars c0) of
               Inr c2 \<Rightarrow>
                 upload_subtitle pc be pid sid lang content w
                   = ((case be_upload_subtitle be (trace w) pid sid lang c2 of
                         None \<Rightarrow> Inr () | Some e \<Rightarrow> Inl e),
                      w\<lparr>trace := trace w @ [EvUploadSubtitle pid sid lang c2]\<rparr>)
             | Inl e \<Rightarrow> upload_subtitle pc be pid sid lang content w = (Inl e, w))) \<and>
         (detect_format pc (py_strip strip_chars c0) = Inr None \<longrightarrow>
            upload_subtitle pc be pid sid lang content w
              = (Inl (Exn SubtitleInvalid [PStr ''Could not detect subtitle format'']), w) \<and>
            (length content \<le> max_bytes \<longrightarrow>
               subtitles_view pc be max_bytes pid sid lang (Some content) w
                 = (Inr (HTTP_400_BAD_REQUEST ''file'' (PStr ''Could not detect subtitle format'')), w)))"
proof -
  have a: "detect_format pc (py_strip strip_chars c0) = Inr (Some WebVTTReader) \<longrightarrow>
            upload_subtitle pc be pid sid lang content w
              = ((case be_upload_subtitle be (trace w) pid sid lang (py_strip strip_chars c0) of
                    None \<Rightarrow> Inr () | Some e \<Rightarrow> Inl e),
                 w\<lparr>trace := trace w @ [EvUploadSubtitle pid sid lang (py_strip strip_chars c0)]\<rparr>)"
    using dec by (auto simp: upload_subtitle_def Let_def emit_def split: option.splits)
  have b: "\<exists>pre post. c0 = pre @ py_strip strip_chars c0 @ post \<and>
            set pre \<subseteq> {0xFEFF, 0x0A, 0x0D} \<and> set post \<subseteq> {0xFEFF, 0x0A, 0x0D} \<and>
            (py_strip strip_chars c0 \<noteq> [] \<longrightarrow>
               hd (py_strip strip_chars c0) \<notin> {0xFEFF, 0x0A, 0x0D} \<and>
               last (py_strip strip_chars c0) \<notin> {0xFEFF, 0x0A, 0x0D})"
    using py_strip_shape[of c0 strip_chars] by (simp add: strip_chars_def)
  have c: "\<forall>rd. detect_format pc (py_strip strip_chars c0) = Inr (Some rd) \<and> rd \<noteq> WebVTTReader \<longrightarrow>
            (case write_webvtt pc rd (py_strip strip_chars c0) of
               Inr c2 \<Rightarrow>
                 upload_subtitle pc be pid sid lang content w
                   = ((case be_upload_subtitle be (trace w) pid sid lang c2 of
                         None \<Rightarrow> Inr () | Some e \<Rightarrow> Inl e),
                      w\<lparr>trace := trace w @ [EvUploadSubtitle pid sid lang c2]\<rparr>)
             | Inl e \<Rightarrow> upload_subtitle pc be pid sid lang content w = (Inl e, w))"
    using dec by (auto simp: upload_subtitle_def Let_def emit_def split: option.splits sum.splits)
  have d: "detect_format pc (py_strip strip_chars c0) = Inr None \<longrightarrow>
            upload_subtitle pc be pid sid lang content w
              = (Inl (Exn SubtitleInvalid [PStr ''Could not detect subtitle format'']), w) \<and>
            (length content \<le> max_bytes \<longrightarrow>
               subtitles_view pc be max_bytes pid sid lang (Some content) w
                 = (Inr (HTTP_400_BAD_REQUEST ''file'' (PStr ''Could not detect subtitle format'')), w))"
    using dec by (simp add: upload_subtitle_def subtitles_view_def rollback_def Let_def)
  from a b c d show ?thesis by blast
qed

theorem upload_subtitle_normalizes_witness:
  "upload_subtitle simple_pycaption quiet_backend ''abc'' ''s1'' ''en'' bom_at_end empty_world
     = (Inr (), empty_world\<lparr>trace := [EvUploadSubtitle ''abc'' ''s1'' ''en'' webvtt_header]\<rparr>) \<and>
   upload_subtitle simple_pycaption quiet_backend ''abc'' ''s1'' ''en'' (ascii_bytes srt_example)
       empty_world
     = (Inr (), empty_world\<lparr>trace := [EvUploadSubtitle ''abc'' ''s1'' ''en'' srt_example_as_webvtt]\<rparr>) \<and>
   subtitles_view simple_pycaption quiet_backend 100 ''abc'' ''s1'' ''en''
       (Some (ascii_bytes (map of_char ''hello''))) empty_world
     = (Inr (HTTP_400_BAD_REQUEST ''file'' (PStr ''Could not detect subtitle format'')), empty_world)"
proof -
  have d1: "detect_format simple_pycaption (py_strip strip_chars (webvtt_header @ [0xFEFF]))
      = Inr (Some WebVTTReader)"
    unfolding strip_bom_at_end by (rule detect_webvtt_header)
  have d2: "detect_format simple_pycaption (py_strip strip_chars srt_example) = Inr (Some SRTReader)"
    unfolding strip_srt_example by (rule detect_srt_example)
  have c2: "write_webvtt simple_pycaption SRTReader (py_strip strip_chars srt_example)
      = Inr srt_example_as_webvtt"
    unfolding strip_srt_example by (rule convert_srt_example)
  have d3: "detect_format simple_pycaption (py_strip strip_chars (map of_char ''hello'')) = Inr None"
    unfolding strip_hello by (rule detect_hello)
  have l3: "length (ascii_bytes (map of_char ''hello'')) \<le> 100" by (simp add: ascii_bytes_def)
  have tr: "trace empty_world = []" by (simp add: empty_world_def)
  have up: "be_upload_subtitle quiet_backend tr' p s l c = None" for tr' p s l c
    by (simp add: quiet_backend_def)
  from upload_subtitle_normalizes [OF decode_bom_at_end, where pc = simple_pycaption
      and be = quiet_backend and pid = "''abc''" and sid = "''s1''" and lang = "''en''"
      and w = empty_world] d1
  have a: "upload_subtitle simple_pycaption quiet_backend ''abc'' ''s1'' ''en'' bom_at_end empty_world
     = (Inr (), empty_world\<lparr>trace := [EvUploadSubtitle ''abc'' ''s1'' ''en'' webvtt_header]\<rparr>)"
    by (simp add: strip_bom_at_end tr up)
  from upload_subtitle_normalizes [OF decode_srt_example, where pc = simple_pycaption
      and be = quiet_backend and pid = "''abc''" and sid = "''s1''" and lang = "''en''"
      and w = empty_world] d2 c2
  have b: "upload_subtitle simple_pycaption quiet_backend ''abc'' ''s1'' ''en'' (ascii_bytes srt_example)
       empty_world
     = (Inr (), empty_world\<lparr>trace := [EvUploadSubtitle ''abc'' ''s1'' ''en'' srt_example_as_webvtt]\<rparr>)"
    by (simp add: tr up)
  from upload_subtitle_normalizes [OF decode_hello, where pc = simple_pycaption
      and be = quiet_backend and pid = "''abc''" and sid = "''s1''" and lang = "''en''"
      and w = empty_world and max_bytes = 100] d3 l3
  have c: "subtitles_view simple_pycaption quiet_backend 100 ''abc'' ''s1'' ''en''
       (Some (ascii_bytes (map of_char ''hello''))) empty_world
     = (Inr (HTTP_400_BAD_REQUEST ''file'' (PStr ''Could not detect subtitle format'')), empty_world)"
    by blast
  from a b c show ?thesis by blast
qed

text \<open>
  Claim C8 as stated fails on a WebVTT payload that ends with a byte-order mark: the mark
  is not leading, and the code removes it all the same. It fails on a payload that is a
  single line feed: nothing is left after the strip, the detection raises IndexError, and
  that exception, not SubtitleInvalid, leaves the function and the endpoint. And it fails
  on an SRT cue without text: the format is detected, the conversion raises, and nothing is
  uploaded.
\<close>

theorem upload_subtitle_strip_counterexample:
  "utf8_decode bom_at_end = Some (webvtt_header @ [0xFEFF]) \<and>
   strip_leading_bom_and_newlines (webvtt_header @ [0xFEFF]) = webvtt_header @ [0xFEFF] \<and>
   upload_subtitle simple_pycaption quiet_backend ''abc'' ''s1'' ''en'' bom_at_end empty_world
     = (Inr (), empty_world\<lparr>trace := [EvUploadSubtitle ''abc'' ''s1'' ''en'' webvtt_header]\<rparr>) \<and>
   webvtt_header \<noteq> webvtt_header @ [0xFEFF] \<and>
   upload_subtitle simple_pycaption quiet_backend ''abc'' ''s1'' ''en'' [0x0A] empty_world
     = (Inl (Exn IndexError [PStr ''list index out of range'']), empty_world) \<and>
   subtitles_view simple_pycaption quiet_backend 100 ''abc'' ''s1'' ''en'' (Some [0x0A]) empty_world
     = (Inl (Exn IndexError [PStr ''list index out of range'']), empty_world) \<and>
   detect_format simple_pycaption srt_without_text = Inr (Some SRTReader) \<and>
   upload_subtitle simple_pycaption quiet_backend ''abc'' ''s1'' ''en'' (ascii_bytes srt_without_text)
       empty_world
     = (Inl (Exn (OtherException ''CaptionReadNoCaptions'') [PStr ''empty caption file'']), empty_world)"
proof -
  have one: "strip_leading_bom_and_newlines (webvtt_header @ [0xFEFF]) = webvtt_header @ [0xFEFF]"
    by (simp add: strip_leading_bom_and_newlines_def webvtt_header_def py_strip_def)
  have two: "upload_subtitle simple_pycaption quiet_backend ''abc'' ''s1'' ''en'' bom_at_end empty_world
     = (Inr (), empty_world\<lparr>trace := [EvUploadSubtitle ''abc'' ''s1'' ''en'' webvtt_header]\<rparr>)"
    by (simp add: upload_subtitle_def decode_bom_at_end strip_bom_at_end Let_def emit_def
        detect_webvtt_header quiet_backend_def empty_world_def)
  have any: "upload_subtitle simple_pycaption quiet_backend ''abc'' ''s1'' ''en'' [0x0A] w
     = (Inl (Exn IndexError [PStr ''list index out of range'']), w)" for w
    by (simp add: upload_subtitle_def utf8_decode_def py_strip_def strip_chars_def Let_def
        simple_pycaption_def)
  have three: "upload_subtitle simple_pycaption quiet_backend ''abc'' ''s1'' ''en'' [0x0A] empty_world
     = (Inl (Exn IndexError [PStr ''list index out of range'']), empty_world)"
    by (rule any)
  have four: "subtitles_view simple_pycaption quiet_backend 100 ''abc'' ''s1'' ''en'' (Some [0x0A]) empty_world
     = (Inl (Exn IndexError [PStr ''list index out of range'']), empty_world)"
    by (simp add: subtitles_view_def any Let_def rollback_def)
  have five: "upload_subtitle simple_pycaption quiet_backend ''abc'' ''s1'' ''en''
       (ascii_bytes srt_without_text) empty_world
     = (Inl (Exn (OtherException ''CaptionReadNoCaptions'') [PStr ''empty caption file'']), empty_world)"
    by (simp add: upload_subtitle_def decode_srt_without_text strip_srt_without_text Let_def
        detect_srt_without_text convert_srt_without_text)
  have six: "webvtt_header \<noteq> webvtt_header @ [0xFEFF]" by simp
  from decode_bom_at_end one two three four five six detect_srt_without_text
  show ?thesis by blast
qed

text \<open>
  Claim C9. A payload that is not valid UTF-8 makes \<open>upload_subtitle\<close> raise
  UnicodeDecodeError, whatever the format detector would say and with nothing stripped,
  detected or uploaded: the world is unchanged. The endpoint catches SubtitleInvalid only,
  so for a file within the size limit the same exception leaves \<open>subtitles_view\<close>, after
  the Subtitle row of the transaction has been rolled back.
\<close>

theorem upload_subtitle_invalid_utf8:
  "utf8_decode content = None \<Longrightarrow>
     upload_subtitle pc be pid sid lang content w
       = (Inl (Exn UnicodeDecodeError [PStr ''utf-8'']), w) \<and>
     (length content \<le> max_bytes \<longrightarrow>
        subtitles_view pc be max_bytes pid sid lang (Some content) w
          = (Inl (Exn UnicodeDecodeError [PStr ''utf-8'']), w))"
  by (simp add: upload_subtitle_def subtitles_view_def rollback_def Let_def)

theorem upload_subtitle_invalid_utf8_witness:
  "utf8_decode [0xFF] = None \<and> length [0xFF :: 8 word] \<le> 10 \<and>
   subtitles_view simple_pycaption quiet_backend 10 ''abc'' ''s1'' ''en'' (Some [0xFF]) world_abc
     = (Inl (Exn UnicodeDecodeError [PStr ''utf-8'']), world_abc)"
proof -
  have bad: "utf8_decode [0xFF] = None"
    by (simp add: utf8_decode_def)
  show ?thesis
    using bad
      upload_subtitle_invalid_utf8 [OF bad, where max_bytes = 10 and pc = simple_pycaption
        and be = quiet_backend and pid = "''abc''" and sid = "''s1''" and lang = "''en''"
        and w = world_abc]
    by simp
qed

text \<open>
  Claim C10, as the code has it. In an attempt that returns normally after a job failed,
  the ProcessingState row of the video stays, with status failed; the video has no
  VideoFormat row left; the backend's asset deletion is called for the video, once; the
  Video rows are the ones from before, the row of this video among them. And whatever the
  outcome of \<open>transcode_video\<close>, on every exit, the Video table is unchanged: the driver
  never deletes the Video record.
\<close>

theorem failed_attempt_keeps_video:
  assumes run: "p_transcode_video be fuel t pid w = (Some (Inr u), w')"
      and ext: "trace w' = trace w @ new"
      and job_failed: "failure_messages new \<noteq> []"
  shows "(\<exists>ps'. pstates w' pid = Some ps' \<and> status ps' = STATUS_FAILED) \<and>
         filter (\<lambda>f. format_video f = pid) (formats w') = [] \<and>
         deletions new = [pid] \<and>
         videos w' = videos w \<and>
         (\<exists>v. get_row (\<lambda>v. public_id v = pid) (videos w') = Inr v) \<and>
         videos (snd (transcode_video be fuel tc t pid w)) = videos w"
proof -
  from p_transcode_video_returns[OF run] obtain v ps2 w3 pre where
    t3: "trace w3 = trace w @ pre" and d: "deletions pre = []" and
    v3: "videos w3 = videos w" and
    v: "get_row (\<lambda>v. public_id v = pid) (videos w) = Inr v" and
    res: "resolve be pid ps2 (failure_messages pre) w3 = (Inr u, w')"
    by blast
  from resolve_returns[OF res] obtain ss where
    br: "if failure_messages pre \<noteq> [] then
        w' = emit (EvDeleteVideo pid)
               (save_ps pid (ps2\<lparr>message := join newline ss, status := STATUS_FAILED\<rparr>)
                  (delete_formats pid w3))
      else
        (\<exists>its.
           be_iter_formats be (trace w3 @ [EvDeleteFormats pid]) pid
             = (map (\<lambda>it. (fst it, Some (snd it))) its, None) \<and>
           trace w' = trace w3 @ [EvDeleteFormats pid, EvIterFormats pid]
             @ map (\<lambda>it. EvCreateFormat (format_row pid it)) its
             @ [EvSavePS pid (ps2\<lparr>message := join newline ss, status := STATUS_SUCCESS\<rparr>)] \<and>
           formats w' = filter (\<lambda>f. format_video f \<noteq> pid) (formats w3) @ map (format_row pid) its \<and>
           pstates w' = (pstates w3)(pid \<mapsto> ps2\<lparr>message := join newline ss, status := STATUS_SUCCESS\<rparr>))"
    by blast
  have "failure_messages pre \<noteq> []"
  proof
    assume e: "failure_messages pre = []"
    with br obtain its where "trace w' = trace w3 @ [EvDeleteFormats pid, EvIterFormats pid]
             @ map (\<lambda>it. EvCreateFormat (format_row pid it)) its
             @ [EvSavePS pid (ps2\<lparr>message := join newline ss, status := STATUS_SUCCESS\<rparr>)]"
      by auto
    with ext t3 have "new = pre @ [EvDeleteFormats pid, EvIterFormats pid]
             @ map (\<lambda>it. EvCreateFormat (format_row pid it)) its
             @ [EvSavePS pid (ps2\<lparr>message := join newline ss, status := STATUS_SUCCESS\<rparr>)]"
      by simp
    then have "failure_messages new = failure_messages pre" by simp
    with e job_failed show False by simp
  qed
  with br have w': "w' = emit (EvDeleteVideo pid)
               (save_ps pid (ps2\<lparr>message := join newline ss, status := STATUS_FAILED\<rparr>)
                  (delete_formats pid w3))" by simp
  have "new = pre @ [EvDeleteFormats pid,
          EvSavePS pid (ps2\<lparr>message := join newline ss, status := STATUS_FAILED\<rparr>),
          EvDeleteVideo pid]"
    using ext by (simp add: w' delete_formats_def emit_def t3)
  then have "deletions new = [pid]" using d by simp
  moreover have "\<exists>ps'. pstates w' pid = Some ps' \<and> status ps' = STATUS_FAILED"
    by (simp add: w')
  moreover have "filter (\<lambda>f. format_video f = pid) (formats w') = []"
    by (simp add: w' delete_formats_def emit_def)
  moreover have vw: "videos w' = videos w" by (simp add: w' v3)
  moreover have "\<exists>v. get_row (\<lambda>v. public_id v = pid) (videos w') = Inr v"
    using v vw by auto
  ultimately show ?thesis using transcode_video_frame by blast
qed

theorem failed_attempt_keeps_video_witness:
  "p_transcode_video failing_backend 3 7 ''abc'' world_abc
     = (Some (Inr ()), snd (p_transcode_video failing_backend 3 7 ''abc'' world_abc)) \<and>
   failure_messages (trace (snd (p_transcode_video failing_backend 3 7 ''abc'' world_abc)))
     = [PStr ''codec error'', PStr ''disk full''] \<and>
   formats world_abc = [\<lparr>format_video = ''abc'', format_name = ''old'', bitrate = 1\<rparr>] \<and>
   formats (snd (p_transcode_video failing_backend 3 7 ''abc'' world_abc)) = [] \<and>
   deletions (trace (snd (p_transcode_video failing_backend 3 7 ''abc'' world_abc))) = [''abc''] \<and>
   map_option status (pstates (snd (p_transcode_video failing_backend 3 7 ''abc'' world_abc)) ''abc'')
     = Some STATUS_FAILED \<and>
   videos (snd (p_transcode_video failing_backend 3 7 ''abc'' world_abc))
     = [\<lparr>title = ''movie.mp4'', public_id = ''abc'', owner = 1\<rparr>]"
proof -
  let ?w' = "snd (p_transcode_video failing_backend 3 7 ''abc'' world_abc)"
  have run: "p_transcode_video failing_backend 3 7 ''abc'' world_abc = (Some (Inr ()), ?w')"
    by (simp add: run_failing)
  have ext: "trace ?w' = trace world_abc @ trace ?w'"
    by (simp add: world_abc_def empty_world_def)
  have msgs: "failure_messages (trace ?w') = [PStr ''codec error'', PStr ''disk full'']"
    by (simp add: run_failing)
  then have jf: "failure_messages (trace ?w') \<noteq> []" by simp
  have fs: "formats ?w' = []" "formats world_abc = [\<lparr>format_video = ''abc'', format_name = ''old'', bitrate = 1\<rparr>]"
    "map_option status (pstates ?w' ''abc'') = Some STATUS_FAILED"
    by (simp_all add: run_failing) (simp add: world_abc_def empty_world_def)
  have vs: "videos world_abc = [\<lparr>title = ''movie.mp4'', public_id = ''abc'', owner = 1\<rparr>]"
    by (simp add: world_abc_def empty_world_def)
  from failed_attempt_keeps_video [OF run ext jf] have
    "deletions (trace ?w') = [''abc'']" "videos ?w' = videos world_abc"
    by blast+
  with run msgs fs vs show ?thesis by simp
qed

text \<open>
  Claim C10 as stated fails on an attempt that fails by an exception: when
  \<^verbatim>\<open>start_transcoding\<close> raises, the handler sets the status to failed, but the stale
  VideoFormat row of the video is still there and the backend was not asked to delete
  anything.
\<close>

theorem handler_failure_keeps_formats_counterexample:
  "fst (transcode_video crashing_backend 3 7 7 ''abc'' world_abc)
     = Some (Inl (Exn (OtherException ''BackendError'') [PStr ''boom'', PStr ''bang''])) \<and>
   map_option status (pstates (snd (transcode_video crashing_backend 3 7 7 ''abc'' world_abc)) ''abc'')
     = Some STATUS_FAILED \<and>
   formats (snd (transcode_video crashing_backend 3 7 7 ''abc'' world_abc))
     = [\<lparr>format_video = ''abc'', format_name = ''old'', bitrate = 1\<rparr>] \<and>
   deletions (trace (snd (transcode_video crashing_backend 3 7 7 ''abc'' world_abc))) = []"
  by (simp add: run_crashing) (simp add: world_abc_def empty_world_def)

end
